(* ===== verification/Go_Prelude.thy ===== *)
theory Go_Prelude
  imports Main "HOL-Library.Word" "HOL-Library.Finite_Map"
begin

text \<open>
  The prelude of the development: how the Go idioms that every component uses are written in
  HOL, and the generic lemmas on them.

  \<^item> A Go function that returns \<open>(T, error)\<close> or \<open>error\<close> is a HOL function into the sum
    \<open>'e + 'a\<close>: \<open>Inl e\<close> is the error return and \<open>Inr v\<close> the success return. The type of
    the errors belongs to the component.
  \<^item> \<open>if err := f(); err != nil { return err }\<close> is \<open>res_bind\<close>.
  \<^item> A \<open>for range\<close> loop whose body may return an error is \<open>res_fold\<close>.
  \<^item> A Go map is a finite map \<open>('k, 'v) fmap\<close>; reading an absent key yields the zero value
    of the element type (\<open>map_get\<close>); a nil map and an empty map read the same.
  \<^item> Go's fixed-width integers are words, or \<open>int\<close> where the code only compares them.
\<close>

unbundle bit_operations_syntax

named_theorems go_res \<open>how the sequencing operators behave on success and on error\<close>
named_theorems go_map \<open>reading a Go map after a write\<close>

section \<open>Results\<close>

type_synonym ('e, 'a) res = "'e + 'a"

definition res_bind :: "('e, 'a) res \<Rightarrow> ('a \<Rightarrow> ('e, 'b) res) \<Rightarrow> ('e, 'b) res" where
  "res_bind r f = (case r of Inl e \<Rightarrow> Inl e | Inr x \<Rightarrow> f x)"

definition res_map :: "('a \<Rightarrow> 'b) \<Rightarrow> ('e, 'a) res \<Rightarrow> ('e, 'b) res" where
  "res_map f r = (case r of Inl e \<Rightarrow> Inl e | Inr x \<Rightarrow> Inr (f x))"

definition is_ok :: "('e, 'a) res \<Rightarrow> bool" where
  "is_ok r = (case r of Inl _ \<Rightarrow> False | Inr _ \<Rightarrow> True)"

fun res_fold :: "('a \<Rightarrow> 's \<Rightarrow> ('e, 's) res) \<Rightarrow> 'a list \<Rightarrow> 's \<Rightarrow> ('e, 's) res" where
  "res_fold f [] s = Inr s"
| "res_fold f (x # xs) s = (case f x s of Inl e \<Rightarrow> Inl e | Inr s' \<Rightarrow> res_fold f xs s')"

lemma res_bind_simps [simp, go_res]:
  "res_bind (Inl e) f = Inl e"
  "res_bind (Inr x) f = f x"
  by (simp_all add: res_bind_def)

lemma res_map_simps [simp, go_res]:
  "res_map f (Inl e) = Inl e"
  "res_map f (Inr x) = Inr (f x)"
  by (simp_all add: res_map_def)

lemma is_ok_simps [simp, go_res]:
  "is_ok (Inl e) = False"
  "is_ok (Inr x) = True"
  by (simp_all add: is_ok_def)

lemma res_bind_eq_Inr [go_res]:
  "res_bind r f = Inr y \<longleftrightarrow> (\<exists>x. r = Inr x \<and> f x = Inr y)"
  by (cases r) simp_all

lemma res_bind_eq_Inl [go_res]:
  "res_bind r f = Inl e \<longleftrightarrow> r = Inl e \<or> (\<exists>x. r = Inr x \<and> f x = Inl e)"
  by (cases r) simp_all

lemma res_map_eq_Inr: "res_map f r = Inr y \<longleftrightarrow> (\<exists>x. r = Inr x \<and> y = f x)"
  by (cases r) auto

lemma is_ok_iff: "is_ok r \<longleftrightarrow> (\<exists>x. r = Inr x)"
  by (cases r) simp_all

lemma res_fold_append:
  "res_fold f (xs @ ys) s = res_bind (res_fold f xs s) (res_fold f ys)"
  by (induction xs arbitrary: s) (auto split: sum.splits)

text \<open>A loop keeps what every iteration keeps.\<close>

lemma res_fold_invariant:
  assumes "res_fold f xs s = Inr t" and "P s"
    and "\<And>x s s'. x \<in> set xs \<Longrightarrow> P s \<Longrightarrow> f x s = Inr s' \<Longrightarrow> P s'"
  shows "P t"
  using assms
proof (induction xs arbitrary: s)
  case (Cons x xs)
  then obtain s' where s': "f x s = Inr s'" "res_fold f xs s' = Inr t"
    by (auto split: sum.splits)
  with Cons.prems have "P s'" by (meson list.set_intros(1))
  with s' Cons.prems(3) show ?case by (intro Cons.IH [of s']) auto
qed simp

text \<open>A loop succeeds when every iteration succeeds from a state that satisfies an invariant.\<close>

lemma res_fold_ok:
  assumes "P s"
    and "\<And>x s. x \<in> set xs \<Longrightarrow> P s \<Longrightarrow> \<exists>s'. f x s = Inr s' \<and> P s'"
  shows "\<exists>t. res_fold f xs s = Inr t \<and> P t"
  using assms
proof (induction xs arbitrary: s)
  case Nil
  then show ?case by simp
next
  case (Cons x xs)
  from Cons.prems obtain s' where "f x s = Inr s'" "P s'" by (meson list.set_intros(1))
  with Cons.IH [of s'] Cons.prems(2) show ?case by simp
qed

text \<open>A loop over the elements a function produces for each key, and what it does to a store that
  each iteration changes at its own key only.\<close>

lemma res_fold_concat_map:
  "res_fold f (concat (map h xs)) s = res_fold (\<lambda>x. res_fold f (h x)) xs s"
  by (induction xs arbitrary: s) (auto simp: res_fold_append res_bind_def split: sum.splits)

lemma res_fold_pointwise:
  assumes "res_fold f xs s = Inr t" and "distinct (map key xs)" and "P s"
    and "\<And>x s s'. x \<in> set xs \<Longrightarrow> P s \<Longrightarrow> f x s = Inr s' \<Longrightarrow>
           P s' \<and> (\<forall>j. get s' j = (if j = key x then g j (get s j) else get s j))"
  shows "P t \<and> (\<forall>j. get t j = (if j \<in> key ` set xs then g j (get s j) else get s j))"
  using assms
proof (induction xs arbitrary: s)
  case (Cons x xs)
  then obtain s' where s': "f x s = Inr s'" "res_fold f xs s' = Inr t"
    by (auto split: sum.splits)
  have step: "P s'" "\<forall>j. get s' j = (if j = key x then g j (get s j) else get s j)"
    using Cons.prems(4) [OF _ Cons.prems(3) s'(1)] by auto
  have "P t \<and> (\<forall>j. get t j = (if j \<in> key ` set xs then g j (get s' j) else get s' j))"
    using Cons.prems step(1) s'(2) by (intro Cons.IH) auto
  with step Cons.prems(2) show ?case by auto
qed simp

section \<open>Go maps\<close>

definition map_get :: "'v \<Rightarrow> ('k, 'v) fmap \<Rightarrow> 'k \<Rightarrow> 'v" where
  "map_get z m k = (case fmlookup m k of None \<Rightarrow> z | Some v \<Rightarrow> v)"

lemma map_get_fmupd [simp, go_map]: "map_get z (fmupd k v m) k' = (if k' = k then v else map_get z m k')"
  by (simp add: map_get_def)

lemma map_get_fmdrop [simp, go_map]: "map_get z (fmdrop k m) k' = (if k' = k then z else map_get z m k')"
  by (simp add: map_get_def)

lemma map_get_fmempty [simp, go_map]: "map_get z fmempty k = z"
  by (simp add: map_get_def)

section \<open>Bits of machine words\<close>

lemma and_exp_eq_exp_iff: "(w AND 2 ^ n = (2 ^ n :: 'a::len word)) \<longleftrightarrow> n < LENGTH('a) \<longrightarrow> bit w n"
proof (cases "n < LENGTH('a)")
  case True
  then have "w AND 2 ^ n = (if bit w n then 2 ^ n else 0)"
    by (auto simp: bit_simps intro!: bit_word_eqI)
  moreover have "(2 ^ n :: 'a word) \<noteq> 0"
    using True by (metis bit_exp_iff bit_0_eq bot_apply bot_bool_def possible_bit_word)
  ultimately show ?thesis using True by auto
next
  case False
  then have "(2 ^ n :: 'a word) = 0" by (simp add: not_less)
  with False show ?thesis by (simp only: bit.conj_zero_right) simp
qed

section \<open>Errors\<close>

text \<open>The errors the modelled code inspects: a system call's number, a text, and an error wrapped with
  a message. \<^verbatim>\<open>os.IsNotExist\<close> does not look through a wrapping; \<^verbatim>\<open>errors.Is\<close> and \<^verbatim>\<open>errors.Cause\<close> do.
  \<open>OutOfFuel\<close> stands for a loop that did not end within the fuel given to it; no code returns it.\<close>

datatype go_err = Errno nat | ErrText string | ErrWrap string go_err | OutOfFuel

definition EPERM :: nat where "EPERM = 1"
definition ENOENT :: nat where "ENOENT = 2"
definition ESRCH :: nat where "ESRCH = 3"
definition EINTR :: nat where "EINTR = 4"
definition EACCES :: nat where "EACCES = 13"
definition EEXIST :: nat where "EEXIST = 17"
definition ENODEV :: nat where "ENODEV = 19"
definition EINVAL :: nat where "EINVAL = 22"
definition EROFS :: nat where "EROFS = 30"
definition ENOTEMPTY :: nat where "ENOTEMPTY = 39"

lemmas errno_defs = EPERM_def ENOENT_def ESRCH_def EINTR_def EACCES_def EEXIST_def ENODEV_def EINVAL_def EROFS_def
  ENOTEMPTY_def

definition IsNotExist :: "go_err \<Rightarrow> bool" where
  "IsNotExist e \<longleftrightarrow> e = Errno ENOENT"

definition IsExist :: "go_err \<Rightarrow> bool" where
  "IsExist e \<longleftrightarrow> e = Errno EEXIST \<or> e = Errno ENOTEMPTY"

fun errors_Cause :: "go_err \<Rightarrow> go_err" where
  "errors_Cause (ErrWrap m e) = errors_Cause e"
| "errors_Cause e = e"

definition errors_Is :: "go_err \<Rightarrow> nat \<Rightarrow> bool" where
  "errors_Is e n \<longleftrightarrow> errors_Cause e = Errno n"

end
