(* ===== verification/Go_Strings.thy ===== *)
theory Go_Strings
  imports Go_Prelude
begin

text \<open>
  What the components use of Go's standard library on strings: \<open>strconv\<close>, \<open>strings\<close> and
  \<open>bufio.Scanner\<close>. A Go string is a list of bytes (\<open>string\<close>); white space is the ASCII white
  space that \<open>unicode.IsSpace\<close> accepts below 128, so the functions that trim or split at white
  space are Go's on ASCII text.

  Results of \<open>strconv\<close> are pairs of the value and the error, because callers that ignore the
  error still use the value: a syntax error comes with 0 and a range error with the nearest
  representable value.
\<close>

section \<open>Decimal digits\<close>

definition digit_char :: "nat \<Rightarrow> char" where
  "digit_char d = char_of (48 + d)"

definition is_digit :: "char \<Rightarrow> bool" where
  "is_digit c \<longleftrightarrow> 48 \<le> (of_char c :: nat) \<and> (of_char c :: nat) \<le> 57"

definition digit_val :: "char \<Rightarrow> nat" where
  "digit_val c = of_char c - 48"

fun nat_digits :: "nat \<Rightarrow> string" where
  "nat_digits n = (if n < 10 then [digit_char n] else nat_digits (n div 10) @ [digit_char (n mod 10)])"

declare nat_digits.simps [simp del]

lemma nat_digits_code [code]:
  "nat_digits n = (if n < 10 then [digit_char n] else nat_digits (n div 10) @ [digit_char (n mod 10)])"
  by (fact nat_digits.simps)

text \<open>\<open>strconv.Itoa\<close> and \<open>strconv.FormatInt(_, 10)\<close>\<close>

definition Itoa :: "int \<Rightarrow> string" where
  "Itoa i = (if i < 0 then CHR ''-'' # nat_digits (nat (- i)) else nat_digits (nat i))"

lemma of_char_digit_char: "d < 10 \<Longrightarrow> (of_char (digit_char d) :: nat) = 48 + d"
  by (simp add: digit_char_def of_char_of)

lemma is_digit_digit_char [simp]: "d < 10 \<Longrightarrow> is_digit (digit_char d)"
  by (simp add: is_digit_def of_char_digit_char)

lemma digit_val_digit_char [simp]: "d < 10 \<Longrightarrow> digit_val (digit_char d) = d"
  by (simp add: digit_val_def of_char_digit_char)

lemma nat_digits_not_Nil [simp]: "nat_digits n \<noteq> []"
  by (subst nat_digits.simps) simp

lemma nat_digits_is_digit: "c \<in> set (nat_digits n) \<Longrightarrow> is_digit c"
proof (induction n rule: nat_digits.induct)
  case (1 n)
  then show ?case
    by (cases "n < 10") (auto simp: nat_digits.simps [of n])
qed

section \<open>Parsing numbers\<close>

datatype num_err = ErrSyntax | ErrRange

fun digits_loop :: "nat \<Rightarrow> nat \<Rightarrow> string \<Rightarrow> nat \<times> num_err option" where
  "digits_loop maxv n [] = (n, None)"
| "digits_loop maxv n (c # cs) =
     (if \<not> is_digit c then (0, Some ErrSyntax)
      else if n * 10 + digit_val c > maxv then (maxv, Some ErrRange)
      else digits_loop maxv (n * 10 + digit_val c) cs)"

text \<open>\<open>strconv.ParseUint(s, 10, bits)\<close>\<close>

definition ParseUint :: "nat \<Rightarrow> string \<Rightarrow> nat \<times> num_err option" where
  "ParseUint bits s = (if s = [] then (0, Some ErrSyntax) else digits_loop (2 ^ bits - 1) 0 s)"

text \<open>\<open>strconv.ParseInt(s, 10, bits)\<close>: the sign, the magnitude, then the range check\<close>

definition signed_result :: "nat \<Rightarrow> bool \<Rightarrow> nat \<Rightarrow> int \<times> num_err option" where
  "signed_result cutoff neg un =
     (if \<not> neg \<and> un \<ge> cutoff then (int cutoff - 1, Some ErrRange)
      else if neg \<and> un > cutoff then (- int cutoff, Some ErrRange)
      else (if neg then - int un else int un, None))"

definition ParseInt :: "nat \<Rightarrow> string \<Rightarrow> int \<times> num_err option" where
  "ParseInt bits s =
     (case s of
        [] \<Rightarrow> (0, Some ErrSyntax)
      | c # cs \<Rightarrow>
          (case ParseUint bits (if c = CHR ''+'' \<or> c = CHR ''-'' then cs else s) of
             (_, Some ErrSyntax) \<Rightarrow> (0, Some ErrSyntax)
           | (un, _) \<Rightarrow> signed_result (2 ^ (bits - 1)) (c = CHR ''-'') un))"

text \<open>\<open>strconv.Atoi\<close> on a 64-bit platform\<close>

definition Atoi :: "string \<Rightarrow> int \<times> num_err option" where
  "Atoi s = ParseInt 64 s"

fun digits_value :: "nat \<Rightarrow> string \<Rightarrow> nat" where
  "digits_value n [] = n"
| "digits_value n (c # cs) = digits_value (n * 10 + digit_val c) cs"

lemma digits_value_append: "digits_value n (xs @ ys) = digits_value (digits_value n xs) ys"
  by (induction xs arbitrary: n) simp_all

lemma digits_value_nat_digits [simp]: "digits_value 0 (nat_digits n) = n"
proof (induction n rule: nat_digits.induct)
  case (1 n)
  then show ?case
    by (cases "n < 10") (auto simp: nat_digits.simps [of n] digits_value_append)
qed

lemma digits_value_ge: "n \<le> digits_value n cs"
proof (induction cs arbitrary: n)
  case (Cons c cs)
  have "n \<le> n * 10 + digit_val c" by simp
  also have "\<dots> \<le> digits_value (n * 10 + digit_val c) cs" by (rule Cons.IH)
  finally show ?case by simp
qed simp

lemma digits_loop_value:
  assumes "\<forall>c \<in> set cs. is_digit c" and "digits_value n cs \<le> maxv"
  shows "digits_loop maxv n cs = (digits_value n cs, None)"
  using assms
proof (induction cs arbitrary: n)
  case (Cons c cs)
  have "n * 10 + digit_val c \<le> digits_value (n * 10 + digit_val c) cs"
    by (rule digits_value_ge)
  with Cons show ?case by auto
qed simp

lemma digits_loop_bound: "n \<le> maxv \<Longrightarrow> fst (digits_loop maxv n cs) \<le> maxv"
  by (induction cs arbitrary: n) auto

lemma ParseUint_bound: "fst (ParseUint bits s) \<le> 2 ^ bits - 1"
  by (simp add: ParseUint_def digits_loop_bound)

lemma ParseUint_nat_digits:
  "n < 2 ^ bits \<Longrightarrow> ParseUint bits (nat_digits n) = (n, None)"
  by (auto simp: ParseUint_def digits_loop_value nat_digits_is_digit)

lemma sign_not_digit: "\<not> is_digit (CHR ''-'')" "\<not> is_digit (CHR ''+'')"
  by (simp_all add: is_digit_def)

lemma hd_nat_digits: "is_digit (hd (nat_digits n))"
  using nat_digits_is_digit hd_in_set nat_digits_not_Nil by blast

text \<open>\<open>Atoi\<close> reads back what \<open>Itoa\<close> prints.\<close>

lemma Atoi_Itoa:
  assumes "- (2 ^ 63) \<le> i" and "i < 2 ^ 63"
  shows "Atoi (Itoa i) = (i, None)"
proof (cases "i < 0")
  case True
  then have u: "ParseUint 64 (nat_digits (nat (- i))) = (nat (- i), None)"
    using assms by (intro ParseUint_nat_digits) auto
  have "nat (- i) \<le> 2 ^ 63" using assms by auto
  then show ?thesis
    using True u by (simp add: Atoi_def ParseInt_def Itoa_def signed_result_def)
next
  case False
  let ?s = "nat_digits (nat i)"
  obtain c cs where s: "?s = c # cs" using nat_digits_not_Nil by (cases ?s) blast+
  have "is_digit c" using hd_nat_digits [of "nat i"] s by simp
  then have c: "c \<noteq> CHR ''-''" "c \<noteq> CHR ''+''" using sign_not_digit by auto
  have u: "ParseUint 64 (c # cs) = (nat i, None)"
    using False assms ParseUint_nat_digits [of "nat i" 64] s by auto
  have "nat i < 2 ^ 63" using assms False by auto
  then show ?thesis
    using False u c s by (simp add: Atoi_def ParseInt_def Itoa_def signed_result_def)
qed

lemma signed_result_bounds:
  "0 < cutoff \<Longrightarrow> - int cutoff \<le> fst (signed_result cutoff neg un) \<and> fst (signed_result cutoff neg un) < int cutoff"
  by (auto simp: signed_result_def)

lemma ParseInt_bounds:
  "- (2 ^ (bits - 1)) \<le> fst (ParseInt bits s) \<and> fst (ParseInt bits s) < 2 ^ (bits - 1)"
  using signed_result_bounds [of "2 ^ (bits - 1)"]
  by (simp add: ParseInt_def split: list.splits prod.splits option.splits num_err.splits)

section \<open>Splitting and trimming\<close>

text \<open>\<open>strings.Split\<close> with a separator of one byte\<close>

fun split_on :: "char \<Rightarrow> string \<Rightarrow> string list" where
  "split_on d [] = [[]]"
| "split_on d (c # cs) =
     (if c = d then [] # split_on d cs
      else case split_on d cs of [] \<Rightarrow> [[c]] | p # ps \<Rightarrow> (c # p) # ps)"

text \<open>\<open>strings.SplitN(s, sep, 2)\<close> with a separator of one byte\<close>

fun splitn2 :: "char \<Rightarrow> string \<Rightarrow> string list" where
  "splitn2 d s =
     (let pre = takeWhile (\<lambda>c. c \<noteq> d) s
      in if pre = s then [s] else [pre, drop (Suc (length pre)) s])"

definition has_prefix :: "string \<Rightarrow> string \<Rightarrow> bool" where
  "has_prefix s p \<longleftrightarrow> take (length p) s = p"

definition has_suffix :: "string \<Rightarrow> string \<Rightarrow> bool" where
  "has_suffix s p \<longleftrightarrow> length p \<le> length s \<and> drop (length s - length p) s = p"

definition trim_prefix :: "string \<Rightarrow> string \<Rightarrow> string" where
  "trim_prefix s p = (if has_prefix s p then drop (length p) s else s)"

definition trim_suffix :: "string \<Rightarrow> string \<Rightarrow> string" where
  "trim_suffix s p = (if has_suffix s p then take (length s - length p) s else s)"

fun join_with :: "char \<Rightarrow> string list \<Rightarrow> string" where
  "join_with d [] = []"
| "join_with d [s] = s"
| "join_with d (s # t # ss) = s @ d # join_with d (t # ss)"

definition is_space :: "char \<Rightarrow> bool" where
  "is_space c \<longleftrightarrow> (let n = (of_char c :: nat) in n = 32 \<or> (9 \<le> n \<and> n \<le> 13))"

definition TrimSpace :: "string \<Rightarrow> string" where
  "TrimSpace s = rev (dropWhile is_space (rev (dropWhile is_space s)))"

function Fields :: "string \<Rightarrow> string list" where
  "Fields s =
     (let t = dropWhile is_space s
      in if t = [] then []
         else takeWhile (\<lambda>c. \<not> is_space c) t # Fields (dropWhile (\<lambda>c. \<not> is_space c) t))"
  by pat_completeness auto
termination
proof (relation "measure length")
  fix s t
  assume t: "t = dropWhile is_space s" and ne: "t \<noteq> []"
  then obtain c cs where tc: "t = c # cs" "\<not> is_space c"
    by (metis hd_dropWhile list.collapse)
  have "length (dropWhile (\<lambda>c. \<not> is_space c) t) \<le> length cs"
    using tc by (simp add: length_dropWhile_le)
  moreover have "length t \<le> length s" using t by (simp add: length_dropWhile_le)
  ultimately show "(dropWhile (\<lambda>c. \<not> is_space c) t, s) \<in> measure length"
    using tc by simp
qed simp

declare Fields.simps [simp del]

lemma split_on_not_Nil [simp]: "split_on d s \<noteq> []"
  by (induction s) (auto split: list.splits)

lemma split_on_append:
  assumes "d \<notin> set p"
  shows "split_on d (p @ d # s) = p # split_on d s"
  using assms by (induction p) auto

lemma split_on_no_sep: "d \<notin> set p \<Longrightarrow> split_on d p = [p]"
  by (induction p) auto

text \<open>Splitting is the inverse of joining fields that hold no separator.\<close>

lemma split_on_join_with:
  assumes "ss \<noteq> []" and "\<forall>s \<in> set ss. d \<notin> set s"
  shows "split_on d (join_with d ss) = ss"
  using assms
  by (induction d ss rule: join_with.induct) (simp_all add: split_on_append split_on_no_sep)

lemma join_with_split_on: "join_with d (split_on d s) = s"
proof (induction s)
  case (Cons c cs)
  obtain p ps where sp: "split_on d cs = p # ps" by (cases "split_on d cs") auto
  show ?case
    using Cons.IH sp by (cases ps) auto
qed simp

lemma split_on_pieces: "p \<in> set (split_on d s) \<Longrightarrow> d \<notin> set p"
  by (induction s arbitrary: p) (auto split: list.splits if_splits)

section \<open>Reading lines\<close>

text \<open>
  An \<open>io.Reader\<close> is what it yields: the bytes up to the end, and the error that ends them when
  it is not the end of the file. \<open>bufio.Scanner\<close> with the default split function yields the
  lines, each without its newline and without one carriage return before it; a last line with no
  newline is yielded too, unless it is empty. A line that does not fit the 65536-byte buffer
  stops the scan with \<open>ErrTooLong\<close>.
\<close>

record reader =
  rd_data :: string
  rd_err :: "string option"

datatype scan_err = ErrTooLong | ReadErr string

definition drop_cr :: "string \<Rightarrow> string" where
  "drop_cr s = (if s \<noteq> [] \<and> last s = CHR 0x0D then butlast s else s)"

definition MaxScanTokenSize :: nat where
  "MaxScanTokenSize = 65536"

fun raw_lines :: "string \<Rightarrow> string list" where
  "raw_lines s =
     (let ps = split_on (CHR 0x0A) s in if last ps = [] then butlast ps else ps)"

fun take_lines :: "string list \<Rightarrow> string list \<times> bool" where
  "take_lines [] = ([], False)"
| "take_lines (l # ls) =
     (if length l \<ge> MaxScanTokenSize then ([], True)
      else case take_lines ls of (ts, e) \<Rightarrow> (drop_cr l # ts, e))"

definition scan_lines :: "reader \<Rightarrow> string list \<times> scan_err option" where
  "scan_lines r =
     (case take_lines (raw_lines (rd_data r)) of
        (ts, True) \<Rightarrow> (ts, Some ErrTooLong)
      | (ts, False) \<Rightarrow> (ts, map_option ReadErr (rd_err r)))"

lemma take_lines_short:
  assumes "\<forall>l \<in> set ls. length l < MaxScanTokenSize"
  shows "take_lines ls = (map drop_cr ls, False)"
  using assms by (induction ls) auto

text \<open>A file whose lines are short, end in a newline and hold no carriage return at their end
  scans to those lines.\<close>

definition file_of_lines :: "string list \<Rightarrow> string" where
  "file_of_lines ls = concat (map (\<lambda>l. l @ [CHR 0x0A]) ls)"

lemma split_on_file_of_lines:
  assumes "\<forall>l \<in> set ls. CHR 0x0A \<notin> set l"
  shows "split_on (CHR 0x0A) (file_of_lines ls) = ls @ [[]]"
  using assms
  by (induction ls) (simp_all add: file_of_lines_def split_on_append)

lemma raw_lines_file_of_lines:
  assumes "\<forall>l \<in> set ls. CHR 0x0A \<notin> set l"
  shows "raw_lines (file_of_lines ls) = ls"
  using split_on_file_of_lines [OF assms] by (simp add: Let_def)

lemma scan_lines_file_of_lines:
  assumes "\<forall>l \<in> set ls. CHR 0x0A \<notin> set l"
    and "\<forall>l \<in> set ls. length l < MaxScanTokenSize"
    and "\<forall>l \<in> set ls. l = [] \<or> last l \<noteq> CHR 0x0D"
  shows "scan_lines \<lparr>rd_data = file_of_lines ls, rd_err = None\<rparr> = (ls, None)"
proof -
  have "map drop_cr ls = ls"
    using assms(3) by (intro map_idI) (auto simp: drop_cr_def)
  with assms show ?thesis
    by (simp add: scan_lines_def raw_lines_file_of_lines take_lines_short del: raw_lines.simps)
qed

section \<open>Substrings\<close>

text \<open>\<^verbatim>\<open>strings.Contains\<close> and \<^verbatim>\<open>strings.ToLower\<close> on ASCII text\<close>

fun str_contains :: "string \<Rightarrow> string \<Rightarrow> bool" where
  "str_contains [] t \<longleftrightarrow> t = []"
| "str_contains (c # s) t \<longleftrightarrow> has_prefix (c # s) t \<or> str_contains s t"

definition lower_char :: "char \<Rightarrow> char" where
  "lower_char c = (let n = (of_char c :: nat) in if 65 \<le> n \<and> n \<le> 90 then char_of (n + 32) else c)"

definition ToLower :: "string \<Rightarrow> string" where
  "ToLower s = map lower_char s"

end
