(* ===== verification/Device_Rules.thy ===== *)
theory Device_Rules
  imports Go_Strings
begin

text \<open>
  Device rules of runc, \<open>libcontainer/devices/device.go\<close>: the permission strings with their set
  operations, the device types and the rule record. A \<open>Permissions\<close> value is a string of the
  letters r, w and m; \<open>toSet\<close> reads it into the bits of a machine word and \<open>fromSet\<close> prints the
  canonical string of such a word. The last section states the algebra that the device-cgroup
  emulator relies on as a locale and interprets it on these definitions.
\<close>

section \<open>Permissions\<close>

type_synonym permissions = string

definition deviceRead :: "64 word" where "deviceRead = 1"
definition deviceWrite :: "64 word" where "deviceWrite = 2"
definition deviceMknod :: "64 word" where "deviceMknod = 4"

fun toSet_loop :: "64 word \<Rightarrow> permissions \<Rightarrow> 64 word" where
  "toSet_loop s [] = s"
| "toSet_loop s (c # cs) =
     toSet_loop (if c = CHR ''r'' then s OR deviceRead
                 else if c = CHR ''w'' then s OR deviceWrite
                 else if c = CHR ''m'' then s OR deviceMknod
                 else s) cs"

definition toSet :: "permissions \<Rightarrow> 64 word" where
  "toSet p = toSet_loop 0 p"

definition fromSet :: "64 word \<Rightarrow> permissions" where
  "fromSet s =
     (if s AND deviceRead = deviceRead then ''r'' else '''') @
     (if s AND deviceWrite = deviceWrite then ''w'' else '''') @
     (if s AND deviceMknod = deviceMknod then ''m'' else '''')"

definition perm_Union :: "permissions \<Rightarrow> permissions \<Rightarrow> permissions" where
  "perm_Union p q = (let lhs = toSet p; rhs = toSet q in fromSet (lhs OR rhs))"

definition perm_Difference :: "permissions \<Rightarrow> permissions \<Rightarrow> permissions" where
  "perm_Difference p q = (let lhs = toSet p; rhs = toSet q in fromSet (lhs AND NOT rhs))"

definition perm_Intersection :: "permissions \<Rightarrow> permissions \<Rightarrow> permissions" where
  "perm_Intersection p q = (let lhs = toSet p; rhs = toSet q in fromSet (lhs AND rhs))"

definition perm_IsEmpty :: "permissions \<Rightarrow> bool" where
  "perm_IsEmpty p \<longleftrightarrow> p = ''''"

definition perm_IsValid :: "permissions \<Rightarrow> bool" where
  "perm_IsValid p \<longleftrightarrow> p = fromSet (toSet p)"

section \<open>Device types and rules\<close>

text \<open>\<open>Type\<close> is a rune; only its value matters, for comparisons.\<close>

type_synonym dev_type = int

definition WildcardDevice :: dev_type where "WildcardDevice = 97"
definition BlockDevice :: dev_type where "BlockDevice = 98"
definition CharDevice :: dev_type where "CharDevice = 99"
definition FifoDevice :: dev_type where "FifoDevice = 112"

definition type_IsValid :: "dev_type \<Rightarrow> bool" where
  "type_IsValid t \<longleftrightarrow> t = WildcardDevice \<or> t = BlockDevice \<or> t = CharDevice \<or> t = FifoDevice"

definition type_CanMknod :: "dev_type \<Rightarrow> bool" where
  "type_CanMknod t \<longleftrightarrow> t = BlockDevice \<or> t = CharDevice \<or> t = FifoDevice"

definition type_CanCgroup :: "dev_type \<Rightarrow> bool" where
  "type_CanCgroup t \<longleftrightarrow> t = WildcardDevice \<or> t = BlockDevice \<or> t = CharDevice"

definition Wildcard :: int where "Wildcard = -1"

record rule =
  r_type :: dev_type
  r_major :: int
  r_minor :: int
  r_perms :: permissions
  r_allow :: bool

text \<open>A device node to create in the container\<close>

record device = rule +
  d_Path :: string
  d_FileMode :: nat
  d_Uid :: nat
  d_Gid :: nat

definition rune_char :: "dev_type \<Rightarrow> char" where
  "rune_char t = char_of (nat t)"

definition CgroupString :: "rule \<Rightarrow> string" where
  "CgroupString d =
     (let major = (if r_major d = Wildcard then ''*'' else Itoa (r_major d));
          minor = (if r_minor d = Wildcard then ''*'' else Itoa (r_minor d))
      in [rune_char (r_type d)] @ '' '' @ major @ '':'' @ minor @ '' '' @ r_perms d)"

lemmas dev_type_defs = WildcardDevice_def BlockDevice_def CharDevice_def FifoDevice_def

section \<open>Permission strings as sets of letters\<close>

definition rwm :: "char set" where "rwm = {CHR ''r'', CHR ''w'', CHR ''m''}"

definition perm_letters :: "permissions \<Rightarrow> char set" where
  "perm_letters p = set p \<inter> rwm"

lemma bit_exp_word: "m < LENGTH('a) \<Longrightarrow> bit (2 ^ m :: 'a::len word) n \<longleftrightarrow> n = m"
  by (auto simp: bit_exp_iff)

lemma bit_device_consts:
  "bit deviceRead n \<longleftrightarrow> n = 0" "bit deviceWrite n \<longleftrightarrow> n = 1" "bit deviceMknod n \<longleftrightarrow> n = 2"
  using bit_exp_word [where 'a = 64, of 0 n] bit_exp_word [where 'a = 64, of 1 n]
    bit_exp_word [where 'a = 64, of 2 n]
  by (simp_all add: deviceRead_def deviceWrite_def deviceMknod_def)

lemma and_device_consts:
  "s AND deviceRead = deviceRead \<longleftrightarrow> bit s 0"
  "s AND deviceWrite = deviceWrite \<longleftrightarrow> bit s 1"
  "s AND deviceMknod = deviceMknod \<longleftrightarrow> bit s 2"
  using and_exp_eq_exp_iff [of s 0] and_exp_eq_exp_iff [of s 1] and_exp_eq_exp_iff [of s 2]
  by (simp_all add: deviceRead_def deviceWrite_def deviceMknod_def)

lemma bit_toSet_loop:
  "bit (toSet_loop s p) n \<longleftrightarrow>
     bit s n \<or> (n = 0 \<and> CHR ''r'' \<in> set p) \<or> (n = 1 \<and> CHR ''w'' \<in> set p) \<or> (n = 2 \<and> CHR ''m'' \<in> set p)"
  by (induction p arbitrary: s) (auto simp: bit_or_iff bit_device_consts)

lemma bit_toSet:
  "bit (toSet p) n \<longleftrightarrow>
     (n = 0 \<and> CHR ''r'' \<in> set p) \<or> (n = 1 \<and> CHR ''w'' \<in> set p) \<or> (n = 2 \<and> CHR ''m'' \<in> set p)"
  by (simp add: toSet_def bit_toSet_loop)

lemma fromSet_bits:
  "fromSet s = (if bit s 0 then ''r'' else '''') @ (if bit s 1 then ''w'' else '''') @
               (if bit s 2 then ''m'' else '''')"
  by (simp add: fromSet_def and_device_consts)

lemma set_fromSet:
  "set (fromSet s) = {c. (c = CHR ''r'' \<and> bit s 0) \<or> (c = CHR ''w'' \<and> bit s 1) \<or> (c = CHR ''m'' \<and> bit s 2)}"
  by (auto simp: fromSet_bits)

lemma fromSet_toSet_fromSet [simp]: "fromSet (toSet (fromSet s)) = fromSet s"
  by (simp add: fromSet_bits bit_toSet)

lemma perm_IsValid_fromSet [simp]: "perm_IsValid (fromSet s)"
  by (simp add: perm_IsValid_def)

lemma perm_letters_fromSet: "perm_letters (fromSet s) = set (fromSet s)"
  by (auto simp: perm_letters_def rwm_def set_fromSet)

lemma perm_letters_ops [simp]:
  "perm_letters (perm_Union p q) = perm_letters p \<union> perm_letters q"
  "perm_letters (perm_Difference p q) = perm_letters p - perm_letters q"
  "perm_letters (perm_Intersection p q) = perm_letters p \<inter> perm_letters q"
  unfolding perm_Union_def perm_Difference_def perm_Intersection_def Let_def perm_letters_fromSet
  by (auto simp: set_fromSet perm_letters_def rwm_def bit_and_iff bit_or_iff bit_not_iff bit_toSet)

lemma perm_IsValid_ops [simp]:
  "perm_IsValid (perm_Union p q)"
  "perm_IsValid (perm_Difference p q)"
  "perm_IsValid (perm_Intersection p q)"
  by (simp_all add: perm_Union_def perm_Difference_def perm_Intersection_def Let_def)

lemma in_perm_letters:
  "CHR ''r'' \<in> set p \<longleftrightarrow> CHR ''r'' \<in> perm_letters p"
  "CHR ''w'' \<in> set p \<longleftrightarrow> CHR ''w'' \<in> perm_letters p"
  "CHR ''m'' \<in> set p \<longleftrightarrow> CHR ''m'' \<in> perm_letters p"
  by (simp_all add: perm_letters_def rwm_def)

lemma toSet_cong: "perm_letters p = perm_letters q \<Longrightarrow> toSet p = toSet q"
  by (intro bit_word_eqI) (simp add: bit_toSet in_perm_letters)

lemma perm_valid_eqI:
  assumes "perm_IsValid p" and "perm_IsValid q" and "perm_letters p = perm_letters q"
  shows "p = q"
  using assms toSet_cong [OF assms(3)] by (simp add: perm_IsValid_def)

lemma perm_IsValid_Nil [simp]: "perm_IsValid ''''"
  by (simp add: perm_IsValid_def fromSet_bits bit_toSet)

lemma perm_letters_Nil [simp]: "perm_letters '''' = {}"
  by (simp add: perm_letters_def)

lemma perm_IsValid_letters: "perm_IsValid p \<Longrightarrow> perm_letters p = set p"
  by (metis perm_IsValid_def perm_letters_fromSet)

lemma perm_IsEmpty_valid: "perm_IsValid p \<Longrightarrow> perm_IsEmpty p \<longleftrightarrow> perm_letters p = {}"
  by (simp add: perm_IsEmpty_def perm_IsValid_letters)

section \<open>The permission algebra\<close>

text \<open>
  What a client of permission values may rely on: an abstraction to sets, union, difference and
  intersection that act on it, an emptiness test, and values (\<open>pvalid\<close>) that are determined by
  their set. The emulator's rule merging needs no more than this.
\<close>

locale permission_algebra =
  fixes p_union :: "'p \<Rightarrow> 'p \<Rightarrow> 'p"
    and p_diff :: "'p \<Rightarrow> 'p \<Rightarrow> 'p"
    and p_inter :: "'p \<Rightarrow> 'p \<Rightarrow> 'p"
    and p_none :: 'p
    and p_empty :: "'p \<Rightarrow> bool"
    and p_valid :: "'p \<Rightarrow> bool"
    and p_abs :: "'p \<Rightarrow> 'x set"
  assumes abs_union: "p_abs (p_union a b) = p_abs a \<union> p_abs b"
    and abs_diff: "p_abs (p_diff a b) = p_abs a - p_abs b"
    and abs_inter: "p_abs (p_inter a b) = p_abs a \<inter> p_abs b"
    and abs_none: "p_abs p_none = {}"
    and valid_union: "p_valid (p_union a b)"
    and valid_diff: "p_valid (p_diff a b)"
    and valid_inter: "p_valid (p_inter a b)"
    and valid_none: "p_valid p_none"
    and valid_eq: "p_valid a \<Longrightarrow> p_valid b \<Longrightarrow> p_abs a = p_abs b \<Longrightarrow> a = b"
    and empty_valid: "p_valid a \<Longrightarrow> p_empty a \<longleftrightarrow> p_abs a = {}"
begin

lemmas perm_laws = abs_union abs_diff abs_inter abs_none valid_union valid_diff valid_inter valid_none

lemma union_none: "p_valid a \<Longrightarrow> p_union a p_none = a"
  by (intro valid_eq) (simp_all add: perm_laws)

lemma diff_none: "p_valid a \<Longrightarrow> p_diff a p_none = a"
  by (intro valid_eq) (simp_all add: perm_laws)

text \<open>Dropping what is not wanted and adding what is missing turns one value into the other.\<close>

lemma drop_then_gain:
  assumes "p_valid new"
  shows "p_union (p_diff new old) (p_diff old (p_diff old new)) = new"
  using assms by (intro valid_eq) (auto simp: perm_laws)

lemma drop_only:
  assumes "p_valid old" and "p_valid new" and "p_empty (p_diff new old)"
  shows "p_diff old (p_diff old new) = new"
  using assms by (intro valid_eq) (auto simp: perm_laws empty_valid)

lemma gain_only:
  assumes "p_valid new" and "p_empty (p_diff old new)"
  shows "p_union (p_diff new old) old = new"
  using assms by (intro valid_eq) (auto simp: perm_laws empty_valid)

lemma no_change:
  assumes "p_valid old" and "p_valid new" and "p_empty (p_diff old new)" and "p_empty (p_diff new old)"
  shows "old = new"
  using assms by (intro valid_eq) (auto simp: perm_laws empty_valid)

lemma union_nonempty: "p_valid a \<Longrightarrow> \<not> p_empty a \<Longrightarrow> \<not> p_empty (p_union a b)"
  by (simp add: empty_valid perm_laws)

end

interpretation perms: permission_algebra
  perm_Union perm_Difference perm_Intersection "''''" perm_IsEmpty perm_IsValid perm_letters
  by unfold_locales (simp_all add: perm_IsEmpty_valid perm_valid_eqI)

end
