(* ===== verification/Device_Emulator.thy ===== *)
theory Device_Emulator
  imports Device_Rules
begin

text \<open>
  The device-cgroup emulator of runc, \<open>libcontainer/cgroups/devices/devices_emulator.go\<close>. The
  emulator holds the state of a cgroup-v1 devices controller (a default policy and the
  exceptions to it), applies rules to it the way the kernel does, reads it from a
  \<open>devices.list\<close> file and computes the rules that take one state to another. The lemmas show
  the invariant of the stored permissions, what each operation does to every key of the rule
  map, and that the computed transition reaches its target.
\<close>

section \<open>State\<close>

datatype deviceMeta = DeviceMeta (dm_node: dev_type) (dm_major: int) (dm_minor: int)

record deviceRule =
  dr_meta :: deviceMeta
  dr_perms :: permissions

type_synonym deviceRules = "(deviceMeta, permissions) fmap"

record emulator =
  defaultAllow :: bool
  rules :: deviceRules

text \<open>The order of \<open>sort.Slice\<close> in \<open>orderedEntries\<close>: by major, then minor, then type.\<close>

definition entryLess :: "deviceMeta \<Rightarrow> deviceMeta \<Rightarrow> bool" where
  "entryLess a b \<longleftrightarrow>
     dm_major a < dm_major b \<or>
     (dm_major a = dm_major b \<and> dm_minor a < dm_minor b) \<or>
     (dm_major a = dm_major b \<and> dm_minor a = dm_minor b \<and> dm_node a < dm_node b)"

instantiation deviceMeta :: linorder
begin

definition less_deviceMeta :: "deviceMeta \<Rightarrow> deviceMeta \<Rightarrow> bool" where
  "less_deviceMeta a b \<longleftrightarrow> entryLess a b"

definition less_eq_deviceMeta :: "deviceMeta \<Rightarrow> deviceMeta \<Rightarrow> bool" where
  "less_eq_deviceMeta a b \<longleftrightarrow> a = b \<or> a < b"

instance
proof
  fix x y z :: deviceMeta
  show "x < y \<longleftrightarrow> x \<le> y \<and> \<not> y \<le> x"
    by (auto simp: less_eq_deviceMeta_def less_deviceMeta_def entryLess_def)
  show "x \<le> x" by (simp add: less_eq_deviceMeta_def)
  show "x \<le> y \<Longrightarrow> y \<le> z \<Longrightarrow> x \<le> z"
    by (auto simp: less_eq_deviceMeta_def less_deviceMeta_def entryLess_def)
  show "x \<le> y \<Longrightarrow> y \<le> x \<Longrightarrow> x = y"
    by (auto simp: less_eq_deviceMeta_def less_deviceMeta_def entryLess_def)
  show "x \<le> y \<or> y \<le> x"
    by (cases x; cases y) (auto simp: less_eq_deviceMeta_def less_deviceMeta_def entryLess_def)
qed

end

definition orderedEntries :: "deviceRules \<Rightarrow> deviceRule list" where
  "orderedEntries r = map (\<lambda>(m, p). \<lparr>dr_meta = m, dr_perms = p\<rparr>) (sorted_list_of_fmap r)"

definition IsBlacklist :: "emulator \<Rightarrow> bool" where
  "IsBlacklist e = defaultAllow e"

definition IsAllowAll :: "emulator \<Rightarrow> bool" where
  "IsAllowAll e \<longleftrightarrow> IsBlacklist e \<and> fmdom (rules e) = {||}"

datatype emu_err =
    BadLine
  | UnknownDeviceType string
  | ParseMajor num_err
  | ParseMinor num_err
  | BadAccessMode string
  | CannotPunchHole deviceMeta permissions deviceMeta permissions
  | NonCgroupType rule
  | Wrapped string emu_err
  | ReadingList scan_err

definition err_wrap :: "(emu_err, 'a) res \<Rightarrow> string \<Rightarrow> (emu_err, 'a) res" where
  "err_wrap r msg = (case r of Inl e \<Rightarrow> Inl (Wrapped msg e) | Inr x \<Rightarrow> Inr x)"

section \<open>Parsing a line of devices.list\<close>

text \<open>The matcher for \<open>^([abc])\s+(\d+|\*):(\d+|\*)\s+([rwm]+)$\<close>: the four groups, or None. No
  character can continue two of the pieces, so matching is deterministic.\<close>

definition re_space :: "char \<Rightarrow> bool" where
  "re_space c \<longleftrightarrow> c \<in> {CHR '' '', CHR 0x09, CHR 0x0A, CHR 0x0C, CHR 0x0D}"

definition re_number :: "string \<Rightarrow> (string \<times> string) option" where
  "re_number s =
     (if s \<noteq> [] \<and> hd s = CHR ''*'' then Some (''*'', tl s)
      else let ds = takeWhile is_digit s
           in if ds = [] then None else Some (ds, dropWhile is_digit s))"

definition re_spaces :: "string \<Rightarrow> string option" where
  "re_spaces s = (if s \<noteq> [] \<and> re_space (hd s) then Some (dropWhile re_space s) else None)"

definition devicesListRegexp :: "string \<Rightarrow> (string \<times> string \<times> string \<times> string) option" where
  "devicesListRegexp line =
     (case line of
        [] \<Rightarrow> None
      | c # s1 \<Rightarrow>
          if c \<notin> set ''abc'' then None
          else case re_spaces s1 of
            None \<Rightarrow> None
          | Some s2 \<Rightarrow>
              (case re_number s2 of
                 Some (major, d # s3) \<Rightarrow>
                   if d \<noteq> CHR '':'' then None
                   else (case re_number s3 of
                      None \<Rightarrow> None
                    | Some (minor, s4) \<Rightarrow>
                        (case re_spaces s4 of
                           None \<Rightarrow> None
                         | Some perms \<Rightarrow>
                             if perms \<noteq> [] \<and> set perms \<subseteq> set ''rwm''
                             then Some ([c], major, minor, perms) else None))
               | _ \<Rightarrow> None))"

definition parse_number :: "(num_err \<Rightarrow> emu_err) \<Rightarrow> string \<Rightarrow> (emu_err, int) res" where
  "parse_number mk s =
     (if s = ''*'' then Inr Wildcard
      else case ParseUint 32 s of
             (_, Some e) \<Rightarrow> Inl (mk e)
           | (v, None) \<Rightarrow> Inr (int v))"

definition parseLine :: "string \<Rightarrow> (emu_err, deviceRule option) res" where
  "parseLine line =
     (case devicesListRegexp line of
        None \<Rightarrow> Inl BadLine
      | Some (node, major, minor, perms) \<Rightarrow>
          if node = ''a'' then Inr None
          else res_bind (if node = ''b'' then Inr BlockDevice
                         else if node = ''c'' then Inr CharDevice
                         else Inl (UnknownDeviceType node)) (\<lambda>n.
               res_bind (parse_number ParseMajor major) (\<lambda>ma.
               res_bind (parse_number ParseMinor minor) (\<lambda>mi.
               if \<not> perm_IsValid perms \<or> perm_IsEmpty perms then Inl (BadAccessMode perms)
               else Inr (Some \<lparr>dr_meta = DeviceMeta n ma mi, dr_perms = perms\<rparr>)))))"

section \<open>Changing the rules\<close>

definition addRule :: "deviceRule \<Rightarrow> emulator \<Rightarrow> (emu_err, emulator) res" where
  "addRule r e =
     (let oldPerms = map_get '''' (rules e) (dr_meta r);
          newPerms = perm_Union (dr_perms r) oldPerms
      in Inr (e\<lparr>rules := fmupd (dr_meta r) newPerms (rules e)\<rparr>))"

definition partialMetas :: "deviceMeta \<Rightarrow> deviceMeta list" where
  "partialMetas m =
     [DeviceMeta (dm_node m) Wildcard (dm_minor m),
      DeviceMeta (dm_node m) (dm_major m) Wildcard,
      DeviceMeta (dm_node m) Wildcard Wildcard]"

fun check_partial :: "deviceRule \<Rightarrow> deviceRules \<Rightarrow> deviceMeta list \<Rightarrow> emu_err option" where
  "check_partial r rs [] = None"
| "check_partial r rs (p # ps) =
     (if dr_meta r = p then check_partial r rs ps
      else let partialPerms = map_get '''' rs p
           in if \<not> perm_IsEmpty (perm_Intersection partialPerms (dr_perms r))
              then Some (CannotPunchHole (dr_meta r) (dr_perms r) p partialPerms)
              else check_partial r rs ps)"

definition rmRule :: "deviceRule \<Rightarrow> emulator \<Rightarrow> (emu_err, emulator) res" where
  "rmRule r e =
     (case check_partial r (rules e) (partialMetas (dr_meta r)) of
        Some err \<Rightarrow> Inl err
      | None \<Rightarrow>
          let newPerms = perm_Difference (map_get '''' (rules e) (dr_meta r)) (dr_perms r)
          in if perm_IsEmpty newPerms then Inr (e\<lparr>rules := fmdrop (dr_meta r) (rules e)\<rparr>)
             else Inr (e\<lparr>rules := fmupd (dr_meta r) newPerms (rules e)\<rparr>))"

definition emu_allow :: "deviceRule option \<Rightarrow> emulator \<Rightarrow> (emu_err, emulator) res" where
  "emu_allow ro e =
     (case ro of
        None \<Rightarrow> Inr \<lparr>defaultAllow = True, rules = fmempty\<rparr>
      | Some r \<Rightarrow>
          if dm_node (dr_meta r) = WildcardDevice then Inr \<lparr>defaultAllow = True, rules = fmempty\<rparr>
          else if defaultAllow e then err_wrap (rmRule r e) ''remove deny exception''
          else err_wrap (addRule r e) ''add allow exception'')"

definition emu_deny :: "deviceRule option \<Rightarrow> emulator \<Rightarrow> (emu_err, emulator) res" where
  "emu_deny ro e =
     (case ro of
        None \<Rightarrow> Inr \<lparr>defaultAllow = False, rules = fmempty\<rparr>
      | Some r \<Rightarrow>
          if dm_node (dr_meta r) = WildcardDevice then Inr \<lparr>defaultAllow = False, rules = fmempty\<rparr>
          else if defaultAllow e then err_wrap (addRule r e) ''add deny exception''
          else err_wrap (rmRule r e) ''remove allow exception'')"

definition Apply :: "rule \<Rightarrow> emulator \<Rightarrow> (emu_err, emulator) res" where
  "Apply d e =
     (if \<not> type_CanCgroup (r_type d) then Inl (NonCgroupType d)
      else let inner = (if r_type d = WildcardDevice then None
                        else Some \<lparr>dr_meta = DeviceMeta (r_type d) (r_major d) (r_minor d),
                                   dr_perms = r_perms d\<rparr>)
           in if r_allow d then emu_allow inner e else emu_deny inner e)"

fun list_loop :: "string list \<Rightarrow> emulator \<Rightarrow> (emu_err, emulator) res" where
  "list_loop [] e = Inr e"
| "list_loop (line # ls) e =
     (case parseLine line of
        Inl err \<Rightarrow> Inl (Wrapped ''parsing line'' err)
      | Inr ro \<Rightarrow>
          (case emu_allow ro e of
             Inl err \<Rightarrow> Inl (Wrapped ''adding devices.list rule'' err)
           | Inr e' \<Rightarrow> list_loop ls e'))"

definition EmulatorFromList :: "reader \<Rightarrow> (emu_err, emulator) res" where
  "EmulatorFromList rd =
     (case scan_lines rd of
        (ls, serr) \<Rightarrow>
          (case list_loop ls \<lparr>defaultAllow = False, rules = fmempty\<rparr> of
             Inl err \<Rightarrow> Inl err
           | Inr e \<Rightarrow> (case serr of Some x \<Rightarrow> Inl (ReadingList x) | None \<Rightarrow> Inr e)))"

section \<open>Transition\<close>

definition meta_rule :: "deviceMeta \<Rightarrow> permissions \<Rightarrow> bool \<Rightarrow> rule" where
  "meta_rule m p allow =
     \<lparr>r_type = dm_node m, r_major = dm_major m, r_minor = dm_minor m, r_perms = p, r_allow = allow\<rparr>"

definition dropped_rules :: "emulator \<Rightarrow> deviceRule \<Rightarrow> rule list" where
  "dropped_rules target r =
     (let droppedPerms = perm_Difference (dr_perms r) (map_get '''' (rules target) (dr_meta r))
      in if perm_IsEmpty droppedPerms then []
         else [meta_rule (dr_meta r) droppedPerms (defaultAllow target)])"

definition gained_rules :: "emulator \<Rightarrow> deviceRules \<Rightarrow> deviceRule \<Rightarrow> rule list" where
  "gained_rules target oldRules r =
     (let gainedPerms = perm_Difference (dr_perms r) (map_get '''' oldRules (dr_meta r))
      in if perm_IsEmpty gainedPerms then []
         else [meta_rule (dr_meta r) gainedPerms (\<not> defaultAllow target)])"

definition disruptive :: "emulator \<Rightarrow> emulator \<Rightarrow> bool" where
  "disruptive source target \<longleftrightarrow> IsBlacklist source \<or> defaultAllow source \<noteq> defaultAllow target"

definition disruptive_rule :: "emulator \<Rightarrow> rule" where
  "disruptive_rule target =
     \<lparr>r_type = WildcardDevice, r_major = -1, r_minor = -1, r_perms = ''rwm'',
      r_allow = defaultAllow target\<rparr>"

text \<open>The error that \<open>Transition\<close> returns beside the rules is always nil.\<close>

definition Transition :: "emulator \<Rightarrow> emulator \<Rightarrow> rule list" where
  "Transition source target =
     (let oldRules = (if disruptive source target then fmempty else rules source)
      in (if disruptive source target then [disruptive_rule target] else [])
         @ concat (map (dropped_rules target) (orderedEntries oldRules))
         @ concat (map (gained_rules target oldRules) (orderedEntries (rules target))))"

section \<open>The invariant of an emulator\<close>

text \<open>Every stored permission string is canonical and not empty, and every key names a block or a
  character device.\<close>

definition entry_ok :: "deviceMeta \<Rightarrow> permissions \<Rightarrow> bool" where
  "entry_ok m p \<longleftrightarrow>
     perm_IsValid p \<and> \<not> perm_IsEmpty p \<and> (dm_node m = BlockDevice \<or> dm_node m = CharDevice)"

definition emu_ok :: "emulator \<Rightarrow> bool" where
  "emu_ok e \<longleftrightarrow> fmpred entry_ok (rules e)"

abbreviation perms_of :: "emulator \<Rightarrow> deviceMeta \<Rightarrow> permissions" where
  "perms_of e \<equiv> map_get '''' (rules e)"

lemma emu_ok_empty [simp]: "emu_ok \<lparr>defaultAllow = b, rules = fmempty\<rparr>"
  by (simp add: emu_ok_def)

lemma emu_ok_lookup: "emu_ok e \<Longrightarrow> fmlookup (rules e) m = Some p \<Longrightarrow> entry_ok m p"
  by (auto simp: emu_ok_def fmpred_iff)

lemma emu_ok_perms_valid [simp]: "emu_ok e \<Longrightarrow> perm_IsValid (perms_of e m)"
  by (auto simp: map_get_def entry_ok_def dest: emu_ok_lookup split: option.splits)

lemma emu_ok_lookup_eq:
  "emu_ok e \<Longrightarrow> fmlookup (rules e) m = (if perms_of e m = '''' then None else Some (perms_of e m))"
  by (auto simp: map_get_def entry_ok_def perm_IsEmpty_def dest: emu_ok_lookup split: option.splits)

text \<open>Two well-formed emulators with the same policy and the same permissions at every key are equal.\<close>

lemma emulator_eqI:
  assumes "emu_ok e" and "emu_ok e'" and "defaultAllow e = defaultAllow e'"
    and "\<And>m. perms_of e m = perms_of e' m"
  shows "e = (e' :: emulator)"
proof -
  have "rules e = rules e'"
    by (rule fmap_ext) (simp add: emu_ok_lookup_eq assms)
  with assms(3) show ?thesis by simp
qed

definition rule_ok :: "deviceRule \<Rightarrow> bool" where
  "rule_ok r \<longleftrightarrow> perm_letters (dr_perms r) \<noteq> {} \<and>
     (dm_node (dr_meta r) = BlockDevice \<or> dm_node (dr_meta r) = CharDevice)"

lemma emu_ok_fmupd [simp]:
  "emu_ok e \<Longrightarrow> entry_ok m p \<Longrightarrow> emu_ok (e\<lparr>rules := fmupd m p (rules e)\<rparr>)"
  by (auto simp: emu_ok_def fmpred_iff)

lemma emu_ok_fmdrop [simp]: "emu_ok e \<Longrightarrow> emu_ok (e\<lparr>rules := fmdrop m (rules e)\<rparr>)"
  by (auto simp: emu_ok_def fmpred_iff)

lemma addRule_ok:
  assumes "emu_ok e" and "rule_ok r"
  shows "\<exists>e'. addRule r e = Inr e' \<and> emu_ok e' \<and> defaultAllow e' = defaultAllow e \<and>
    (\<forall>m. perms_of e' m = (if m = dr_meta r then perm_Union (dr_perms r) (perms_of e m) else perms_of e m))"
  using assms
  by (auto simp: addRule_def Let_def entry_ok_def rule_ok_def perm_IsEmpty_valid)

lemma rmRule_ok:
  assumes "emu_ok e" and "rule_ok r" and "rmRule r e = Inr e'"
  shows "emu_ok e' \<and> defaultAllow e' = defaultAllow e \<and>
    (\<forall>m. perms_of e' m = (if m = dr_meta r then perm_Difference (perms_of e m) (dr_perms r) else perms_of e m))"
  using assms
  by (auto simp: rmRule_def Let_def entry_ok_def rule_ok_def perm_IsEmpty_def
      split: option.splits if_splits)

text \<open>When removing a rule fails: some other, overlapping wildcard rule grants one of its permissions.\<close>

lemma check_partial_None:
  "check_partial r rs ps = None \<longleftrightarrow>
     (\<forall>p \<in> set ps. p \<noteq> dr_meta r \<longrightarrow> perm_letters (map_get '''' rs p) \<inter> perm_letters (dr_perms r) = {})"
  by (induction ps) (auto simp: Let_def perm_IsEmpty_valid)

lemma rmRule_is_ok:
  "is_ok (rmRule r e) \<longleftrightarrow>
     (\<forall>p \<in> set (partialMetas (dr_meta r)). p \<noteq> dr_meta r \<longrightarrow>
        perm_letters (perms_of e p) \<inter> perm_letters (dr_perms r) = {})"
proof -
  have "is_ok (rmRule r e) \<longleftrightarrow> check_partial r (rules e) (partialMetas (dr_meta r)) = None"
    by (auto simp: rmRule_def Let_def split: option.splits)
  then show ?thesis by (simp only: check_partial_None)
qed

lemma err_wrap_simps [simp]:
  "is_ok (err_wrap r m) = is_ok r"
  "err_wrap (Inr x) m = Inr x"
  "err_wrap r m = Inr x \<longleftrightarrow> r = Inr x"
  by (auto simp: err_wrap_def is_ok_def split: sum.splits)

definition dev_rule_ok :: "rule \<Rightarrow> bool" where
  "dev_rule_ok d \<longleftrightarrow> r_type d = WildcardDevice \<or> perm_letters (r_perms d) \<noteq> {}"

lemma emu_allow_preserves:
  assumes "emu_ok e" and "\<And>r. ro = Some r \<Longrightarrow> rule_ok r" and "emu_allow ro e = Inr e'"
  shows "emu_ok e'"
proof (cases ro)
  case None
  with assms show ?thesis by (auto simp: emu_allow_def)
next
  case (Some r)
  with assms addRule_ok [of e r] rmRule_ok [of e r] show ?thesis
    by (auto simp: emu_allow_def split: if_splits)
qed

lemma emu_deny_preserves:
  assumes "emu_ok e" and "\<And>r. ro = Some r \<Longrightarrow> rule_ok r" and "emu_deny ro e = Inr e'"
  shows "emu_ok e'"
proof (cases ro)
  case None
  with assms show ?thesis by (auto simp: emu_deny_def)
next
  case (Some r)
  with assms addRule_ok [of e r] rmRule_ok [of e r] show ?thesis
    by (auto simp: emu_deny_def split: if_splits)
qed

lemma Apply_preserves:
  assumes "emu_ok e" and "dev_rule_ok d" and "Apply d e = Inr e'"
  shows "emu_ok e'"
proof -
  let ?inner = "if r_type d = WildcardDevice then None
    else Some \<lparr>dr_meta = DeviceMeta (r_type d) (r_major d) (r_minor d), dr_perms = r_perms d\<rparr>"
  have can: "type_CanCgroup (r_type d)"
    and run: "(if r_allow d then emu_allow ?inner e else emu_deny ?inner e) = Inr e'"
    using assms(3) by (auto simp: Apply_def Let_def split: if_splits)
  have "rule_ok r" if "?inner = Some r" for r
    using that can assms(2)
    by (auto simp: rule_ok_def dev_rule_ok_def type_CanCgroup_def split: if_splits)
  then show ?thesis
    using run assms(1) emu_allow_preserves [of e ?inner e'] emu_deny_preserves [of e ?inner e']
    by (cases "r_allow d") auto
qed

lemma Apply_fold_preserves:
  assumes "emu_ok e" and "\<forall>d \<in> set ds. dev_rule_ok d" and "res_fold Apply ds e = Inr e'"
  shows "emu_ok e'"
  using assms(3,1) by (rule res_fold_invariant) (use assms(2) Apply_preserves in blast)

section \<open>Reading devices.list\<close>

lemma parse_number_range:
  "parse_number mk s = Inr v \<Longrightarrow> v = Wildcard \<or> (0 \<le> v \<and> v < 2 ^ 32)"
  using ParseUint_bound [of 32 s]
  by (auto simp: parse_number_def split: if_splits prod.splits option.splits)

lemma parseLine_ok: "parseLine line = Inr (Some r) \<Longrightarrow> rule_ok r"
  by (auto simp: parseLine_def rule_ok_def perm_IsEmpty_valid go_res split: option.splits if_splits)

lemma list_loop_preserves: "emu_ok e \<Longrightarrow> list_loop ls e = Inr e' \<Longrightarrow> emu_ok e'"
proof (induction ls arbitrary: e)
  case (Cons l ls)
  then obtain ro e1 where "parseLine l = Inr ro" "emu_allow ro e = Inr e1" "list_loop ls e1 = Inr e'"
    by (auto split: sum.splits)
  moreover have "emu_ok e1"
    using calculation Cons.prems(1) parseLine_ok [of l]
    by (intro emu_allow_preserves [of e ro e1]) auto
  ultimately show ?case by (intro Cons.IH)
qed simp

lemma EmulatorFromList_ok: "EmulatorFromList rd = Inr e \<Longrightarrow> emu_ok e"
  using list_loop_preserves [of "\<lparr>defaultAllow = False, rules = fmempty\<rparr>"]
  by (auto simp: EmulatorFromList_def split: prod.splits sum.splits option.splits)

section \<open>Transition reaches its target\<close>

lemma orderedEntries_distinct: "distinct (map dr_meta (orderedEntries rs))"
  by (simp add: orderedEntries_def comp_def case_prod_beta sorted_list_of_fmap_def
      sorted_list_of_fset.rep_eq)

lemma orderedEntries_sorted: "sorted_wrt (<) (map dr_meta (orderedEntries rs))"
  by (simp add: orderedEntries_def comp_def case_prod_beta sorted_list_of_fmap_def
      sorted_list_of_fset.rep_eq)

lemma orderedEntries_keys: "dr_meta ` set (orderedEntries rs) = fset (fmdom rs)"
  by (auto simp: orderedEntries_def sorted_list_of_fmap_def image_iff)

lemma orderedEntries_perms:
  "r \<in> set (orderedEntries rs) \<Longrightarrow> fmlookup rs (dr_meta r) = Some (dr_perms r)"
  by (auto simp: orderedEntries_def sorted_list_of_fmap_def fmlookup_dom_iff)

lemma orderedEntries_get:
  "r \<in> set (orderedEntries rs) \<Longrightarrow> dr_perms r = map_get '''' rs (dr_meta r)"
  by (simp add: map_get_def orderedEntries_perms)

lemma perms_of_not_dom: "m \<notin> fset (fmdom rs) \<Longrightarrow> map_get '''' rs m = ''''"
  by (simp add: map_get_def fmdom_notD)

lemma Apply_meta_rule:
  assumes "dm_node m = BlockDevice \<or> dm_node m = CharDevice"
  shows "Apply (meta_rule m p allow) e =
    (let r = \<lparr>dr_meta = m, dr_perms = p\<rparr> in
     if allow then (if defaultAllow e then err_wrap (rmRule r e) ''remove deny exception''
                    else err_wrap (addRule r e) ''add allow exception'')
     else (if defaultAllow e then err_wrap (addRule r e) ''add deny exception''
           else err_wrap (rmRule r e) ''remove allow exception''))"
  using assms
  by (cases m)
     (auto simp: Apply_def meta_rule_def type_CanCgroup_def emu_allow_def emu_deny_def dev_type_defs)

definition gain_perms :: "deviceRules \<Rightarrow> deviceRules \<Rightarrow> deviceMeta \<Rightarrow> permissions \<Rightarrow> permissions" where
  "gain_perms old new m p = perm_Union (perm_Difference (map_get '''' new m) (map_get '''' old m)) p"

text \<open>Adding the gained permissions never fails, whatever the default policy.\<close>

lemma gained_step:
  assumes "emu_ok t" and "emu_ok s" and "defaultAllow s = defaultAllow t"
    and "r \<in> set (orderedEntries (rules t))"
  shows "\<exists>s'. res_fold Apply (gained_rules t old r) s = Inr s' \<and> emu_ok s' \<and>
    defaultAllow s' = defaultAllow t \<and>
    (\<forall>m. perms_of s' m = (if m = dr_meta r then gain_perms old (rules t) m (perms_of s m) else perms_of s m))"
proof -
  let ?g = "perm_Difference (dr_perms r) (map_get '''' old (dr_meta r))"
  have ent: "entry_ok (dr_meta r) (dr_perms r)"
    using assms(1,4) by (auto intro: emu_ok_lookup dest: orderedEntries_perms)
  have get: "dr_perms r = perms_of t (dr_meta r)" using assms(4) by (rule orderedEntries_get)
  show ?thesis
  proof (cases "perm_IsEmpty ?g")
    case True
    have "perm_Union ?g (perms_of s m) = perms_of s m" for m
      using True assms(2) by (intro perms.valid_eq) (auto simp: perm_IsEmpty_valid)
    with True assms(2,3) get show ?thesis
      by (auto simp: gained_rules_def gain_perms_def)
  next
    case False
    let ?r = "\<lparr>dr_meta = dr_meta r, dr_perms = ?g\<rparr>"
    have "rule_ok ?r" using False ent by (auto simp: rule_ok_def entry_ok_def perm_IsEmpty_valid)
    from addRule_ok [OF assms(2) this] ent False assms(3) get show ?thesis
      by (auto simp: gained_rules_def Let_def Apply_meta_rule entry_ok_def gain_perms_def split: sum.splits)
  qed
qed

lemma gained_fold:
  assumes "emu_ok t" and "emu_ok s" and "defaultAllow s = defaultAllow t"
  shows "\<exists>s'. res_fold Apply (concat (map (gained_rules t old) (orderedEntries (rules t)))) s = Inr s' \<and>
    emu_ok s' \<and> defaultAllow s' = defaultAllow t \<and>
    (\<forall>m. perms_of s' m =
       (if m \<in> fset (fmdom (rules t)) then gain_perms old (rules t) m (perms_of s m) else perms_of s m))"
proof -
  let ?P = "\<lambda>s. emu_ok s \<and> defaultAllow s = defaultAllow t"
  let ?f = "\<lambda>r. res_fold Apply (gained_rules t old r)"
  have "\<exists>s'. res_fold ?f (orderedEntries (rules t)) s = Inr s' \<and> ?P s'"
  proof (rule res_fold_ok)
    show "?P s" using assms by simp
    show "\<exists>u'. ?f r u = Inr u' \<and> ?P u'" if "r \<in> set (orderedEntries (rules t))" "?P u" for r u
      using gained_step [OF assms(1), of u r old] that by blast
  qed
  then obtain s' where s': "res_fold ?f (orderedEntries (rules t)) s = Inr s'" by blast
  have "?P s' \<and> (\<forall>m. perms_of s' m =
      (if m \<in> dr_meta ` set (orderedEntries (rules t)) then gain_perms old (rules t) m (perms_of s m)
       else perms_of s m))"
    using s' orderedEntries_distinct
  proof (rule res_fold_pointwise)
    show "?P s" using assms by simp
    fix r u u' assume "r \<in> set (orderedEntries (rules t))" "?P u" "?f r u = Inr u'"
    with gained_step [of t u r old] assms(1)
    show "?P u' \<and> (\<forall>j. perms_of u' j = (if j = dr_meta r then gain_perms old (rules t) j (perms_of u j) else perms_of u j))"
      by auto
  qed
  with s' show ?thesis by (auto simp: res_fold_concat_map orderedEntries_keys)
qed

text \<open>The disruptive case: the policy is reset first, so the target is always reached.\<close>

lemma Apply_disruptive: "Apply (disruptive_rule t) s = Inr \<lparr>defaultAllow = defaultAllow t, rules = fmempty\<rparr>"
  by (simp add: Apply_def disruptive_rule_def type_CanCgroup_def emu_allow_def emu_deny_def)

lemma gain_from_nothing: "emu_ok t \<Longrightarrow> gain_perms fmempty (rules t) m '''' = perms_of t m"
  by (simp add: gain_perms_def perms.union_none perms.diff_none)

lemma orderedEntries_empty [simp]: "orderedEntries fmempty = []"
  by (simp add: orderedEntries_def sorted_list_of_fmap_def sorted_list_of_fset.rep_eq)

lemma Transition_disruptive:
  assumes "emu_ok t" and "disruptive s t"
  shows "res_fold Apply (Transition s t) s = Inr t"
proof -
  let ?z = "\<lparr>defaultAllow = defaultAllow t, rules = fmempty\<rparr>"
  obtain s' where s': "res_fold Apply (concat (map (gained_rules t fmempty) (orderedEntries (rules t)))) ?z = Inr s'"
    "emu_ok s'" "defaultAllow s' = defaultAllow t"
    "\<forall>m. perms_of s' m = (if m \<in> fset (fmdom (rules t)) then gain_perms fmempty (rules t) m '''' else '''')"
    using gained_fold [of t ?z fmempty] assms(1) by auto
  have "s' = t"
    using s' assms(1) by (intro emulator_eqI) (auto simp: gain_from_nothing perms_of_not_dom)
  with s'(1) assms(2) show ?thesis by (simp add: Transition_def Apply_disruptive)
qed

text \<open>The other case: both sides are white-lists. Dropping permissions can fail, when a wildcard rule
  that stays still grants what a narrower rule should lose (\<open>CannotPunchHole\<close>).\<close>

definition drop_perms :: "deviceRules \<Rightarrow> deviceMeta \<Rightarrow> permissions \<Rightarrow> permissions" where
  "drop_perms new m p = perm_Difference p (perm_Difference p (map_get '''' new m))"

definition no_hole :: "deviceRules \<Rightarrow> deviceRules \<Rightarrow> bool" where
  "no_hole old new \<longleftrightarrow>
     fBall (fmdom old) (\<lambda>m. \<forall>p \<in> set (partialMetas m). p \<noteq> m \<longrightarrow>
       perm_letters (map_get '''' old p) \<inter> perm_letters (map_get '''' new p) \<inter>
       (perm_letters (map_get '''' old m) - perm_letters (map_get '''' new m)) = {})"

definition metas_ok :: "deviceRules \<Rightarrow> bool" where
  "metas_ok rs \<longleftrightarrow> fBall (fmdom rs) (\<lambda>m. Wildcard \<le> dm_major m \<and> Wildcard \<le> dm_minor m)"

lemma drop_perms_empty:
  assumes "perm_IsValid p" and "perm_IsEmpty (perm_Difference p (map_get '''' new m))"
  shows "drop_perms new m p = p"
  unfolding drop_perms_def
  using assms by (intro perms.valid_eq) (auto simp: perm_IsEmpty_valid)

lemma dropped_step:
  assumes "\<not> defaultAllow t" and "emu_ok s" and "\<not> defaultAllow s"
    and "entry_ok (dr_meta r) (dr_perms r)" and "perms_of s (dr_meta r) = dr_perms r"
    and "res_fold Apply (dropped_rules t r) s = Inr s'"
  shows "emu_ok s' \<and> \<not> defaultAllow s' \<and>
    (\<forall>m. perms_of s' m = (if m = dr_meta r then drop_perms (rules t) m (perms_of s m) else perms_of s m))"
proof -
  let ?d = "perm_Difference (dr_perms r) (perms_of t (dr_meta r))"
  let ?r = "\<lparr>dr_meta = dr_meta r, dr_perms = ?d\<rparr>"
  show ?thesis
  proof (cases "perm_IsEmpty ?d")
    case True
    then have "s' = s" using assms(6) by (simp add: dropped_rules_def)
    with True assms drop_perms_empty [of "dr_perms r" "rules t" "dr_meta r"] show ?thesis
      by (auto simp: entry_ok_def)
  next
    case False
    then have ok: "rule_ok ?r" using assms(4) by (auto simp: rule_ok_def entry_ok_def perm_IsEmpty_valid)
    have "rmRule ?r s = Inr s'"
      using False assms by (auto simp: dropped_rules_def Let_def Apply_meta_rule entry_ok_def split: sum.splits)
    from rmRule_ok [OF assms(2) ok this] assms(3,5) show ?thesis
      by (auto simp: drop_perms_def)
  qed
qed

lemma dropped_step_is_ok:
  assumes "\<not> defaultAllow t" and "\<not> defaultAllow s" and "entry_ok (dr_meta r) (dr_perms r)"
  shows "is_ok (res_fold Apply (dropped_rules t r) s) \<longleftrightarrow>
    (\<forall>p \<in> set (partialMetas (dr_meta r)). p \<noteq> dr_meta r \<longrightarrow>
       perm_letters (perms_of s p) \<inter> (perm_letters (dr_perms r) - perm_letters (perms_of t (dr_meta r))) = {})"
proof (cases "perm_IsEmpty (perm_Difference (dr_perms r) (perms_of t (dr_meta r)))")
  case True
  then show ?thesis by (auto simp: dropped_rules_def perm_IsEmpty_valid)
next
  case False
  let ?r = "\<lparr>dr_meta = dr_meta r, dr_perms = perm_Difference (dr_perms r) (perms_of t (dr_meta r))\<rparr>"
  have "is_ok (res_fold Apply (dropped_rules t r) s) \<longleftrightarrow> is_ok (rmRule ?r s)"
    using False assms
    by (auto simp: dropped_rules_def Let_def Apply_meta_rule entry_ok_def is_ok_iff split: sum.splits)
  then show ?thesis by (simp add: rmRule_is_ok)
qed

text \<open>A partial wildcard of a key sorts before the key, so it has been dealt with when the key's turn comes.\<close>

lemma partial_less:
  assumes "p \<in> set (partialMetas m)" and "p \<noteq> m" and "Wildcard \<le> dm_major m" and "Wildcard \<le> dm_minor m"
  shows "p < m"
  using assms by (cases m) (auto simp: partialMetas_def less_deviceMeta_def entryLess_def Wildcard_def)

definition entries_of :: "emulator \<Rightarrow> deviceRule list \<Rightarrow> bool" where
  "entries_of s rs \<longleftrightarrow> (\<forall>r \<in> set rs. entry_ok (dr_meta r) (dr_perms r) \<and> perms_of s (dr_meta r) = dr_perms r)"

lemma dropped_list:
  assumes "\<not> defaultAllow t" and "emu_ok s" and "\<not> defaultAllow s"
    and "distinct (map dr_meta rs)" and "entries_of s rs"
    and "res_fold Apply (concat (map (dropped_rules t) rs)) s = Inr s'"
  shows "emu_ok s' \<and> \<not> defaultAllow s' \<and>
    (\<forall>m. perms_of s' m =
       (if m \<in> dr_meta ` set rs then drop_perms (rules t) m (perms_of s m) else perms_of s m))"
  using assms(2-)
proof (induction rs arbitrary: s)
  case (Cons r rs)
  from Cons.prems(5) obtain s1 where s1: "res_fold Apply (dropped_rules t r) s = Inr s1"
    "res_fold Apply (concat (map (dropped_rules t) rs)) s1 = Inr s'"
    by (auto simp: res_fold_append go_res)
  have step: "emu_ok s1 \<and> \<not> defaultAllow s1 \<and>
      (\<forall>m. perms_of s1 m = (if m = dr_meta r then drop_perms (rules t) m (perms_of s m) else perms_of s m))"
    using dropped_step [OF assms(1) Cons.prems(1,2) _ _ s1(1)] Cons.prems(4)
    by (auto simp: entries_of_def)
  have "\<forall>q \<in> set rs. dr_meta q \<noteq> dr_meta r"
    using Cons.prems(3) by (simp add: image_iff) metis
  then have "entries_of s1 rs"
    using Cons.prems(4) step by (simp add: entries_of_def)
  with Cons.IH [of s1] step s1(2) Cons.prems(3) show ?case by auto
qed simp

lemma dropped_list_is_ok:
  assumes "\<not> defaultAllow t" and "emu_ok s" and "\<not> defaultAllow s"
    and "sorted_wrt (<) (map dr_meta rs)" and "entries_of s rs"
    and "\<forall>r \<in> set rs. Wildcard \<le> dm_major (dr_meta r) \<and> Wildcard \<le> dm_minor (dr_meta r)"
  shows "is_ok (res_fold Apply (concat (map (dropped_rules t) rs)) s) \<longleftrightarrow>
    (\<forall>r \<in> set rs. \<forall>p \<in> set (partialMetas (dr_meta r)). p \<noteq> dr_meta r \<longrightarrow>
       perm_letters (if p \<in> dr_meta ` set rs then drop_perms (rules t) p (perms_of s p) else perms_of s p) \<inter>
       (perm_letters (dr_perms r) - perm_letters (perms_of t (dr_meta r))) = {})"
    (is "_ \<longleftrightarrow> (\<forall>r \<in> set rs. ?C s rs r)")
  using assms(2-)
proof (induction rs arbitrary: s)
  case (Cons r rs)
  have bigger: "\<forall>q \<in> set rs. dr_meta r < dr_meta q" using Cons.prems(3) by simp
  have head: "is_ok (res_fold Apply (dropped_rules t r) s) \<longleftrightarrow> ?C s (r # rs) r"
  proof -
    have "p \<notin> dr_meta ` set (r # rs)" if "p \<in> set (partialMetas (dr_meta r))" "p \<noteq> dr_meta r" for p
      using partial_less [OF that] Cons.prems(5) bigger by (auto dest: less_asym)
    then show ?thesis
      using dropped_step_is_ok [OF assms(1) Cons.prems(2)] Cons.prems(4) by (auto simp: entries_of_def)
  qed
  show ?case
  proof (cases "res_fold Apply (dropped_rules t r) s")
    case (Inl e)
    with head show ?thesis by (simp add: res_fold_append)
  next
    case (Inr s1)
    have step: "emu_ok s1 \<and> \<not> defaultAllow s1 \<and>
        (\<forall>m. perms_of s1 m = (if m = dr_meta r then drop_perms (rules t) m (perms_of s m) else perms_of s m))"
      using dropped_step [OF assms(1) Cons.prems(1,2) _ _ Inr] Cons.prems(4)
      by (auto simp: entries_of_def)
    have "dr_meta r \<notin> dr_meta ` set rs" using bigger by auto
    then have "(if p \<in> dr_meta ` set rs then drop_perms (rules t) p (perms_of s1 p) else perms_of s1 p) =
        (if p \<in> dr_meta ` set (r # rs) then drop_perms (rules t) p (perms_of s p) else perms_of s p)" for p
      using step by auto
    then have "?C s1 rs q \<longleftrightarrow> ?C s (r # rs) q" for q by simp
    moreover have "entries_of s1 rs"
      using Cons.prems(4) step bigger by (auto simp: entries_of_def)
    ultimately have "is_ok (res_fold Apply (concat (map (dropped_rules t) rs)) s1) \<longleftrightarrow>
        (\<forall>q \<in> set rs. ?C s (r # rs) q)"
      using Cons.IH [of s1] step Cons.prems(3,5) by simp
    with head Inr show ?thesis by (simp add: res_fold_append)
  qed
qed simp

lemma entries_of_ordered: "emu_ok s \<Longrightarrow> entries_of s (orderedEntries (rules s))"
  using emu_ok_lookup [of s] orderedEntries_perms [of _ "rules s"] orderedEntries_get [of _ "rules s"]
  by (auto simp: entries_of_def)

lemma drop_perms_letters [simp]:
  "perm_letters (drop_perms new m p) = perm_letters p \<inter> perm_letters (map_get '''' new m)"
  by (auto simp: drop_perms_def)

lemma drop_perms_valid [simp]: "perm_IsValid (drop_perms new m p)"
  by (simp add: drop_perms_def)

lemma dropped_ordered_is_ok:
  assumes "\<not> defaultAllow t" and "emu_ok s" and "\<not> defaultAllow s" and "metas_ok (rules s)"
  shows "is_ok (res_fold Apply (concat (map (dropped_rules t) (orderedEntries (rules s)))) s) \<longleftrightarrow>
    no_hole (rules s) (rules t)"
proof -
  let ?es = "orderedEntries (rules s)"
  have dom: "dr_meta ` set ?es = fset (fmdom (rules s))" by (rule orderedEntries_keys)
  have w: "\<forall>r \<in> set ?es. Wildcard \<le> dm_major (dr_meta r) \<and> Wildcard \<le> dm_minor (dr_meta r)"
    using assms(4) dom by (auto simp: metas_ok_def)
  have cut: "perm_letters (if p \<in> dr_meta ` set ?es then drop_perms (rules t) p (perms_of s p) else perms_of s p) =
      perm_letters (perms_of s p) \<inter> perm_letters (perms_of t p)" for p
    by (auto simp: dom perms_of_not_dom)
  have "no_hole (rules s) (rules t) \<longleftrightarrow>
      (\<forall>r \<in> set ?es. \<forall>p \<in> set (partialMetas (dr_meta r)). p \<noteq> dr_meta r \<longrightarrow>
         perm_letters (perms_of s p) \<inter> perm_letters (perms_of t p) \<inter>
         (perm_letters (perms_of s (dr_meta r)) - perm_letters (perms_of t (dr_meta r))) = {})"
    unfolding no_hole_def dom [symmetric] by blast
  then show ?thesis
    using dropped_list_is_ok [OF assms(1-3) orderedEntries_sorted entries_of_ordered [OF assms(2)] w]
    unfolding cut by (simp add: orderedEntries_get)
qed

lemma Transition_whitelist:
  assumes "emu_ok s" and "emu_ok t" and "\<not> disruptive s t" and "metas_ok (rules s)"
  shows "if no_hole (rules s) (rules t) then res_fold Apply (Transition s t) s = Inr t
    else \<exists>err. res_fold Apply (Transition s t) s = Inl err"
proof -
  let ?drops = "concat (map (dropped_rules t) (orderedEntries (rules s)))"
  let ?gains = "concat (map (gained_rules t (rules s)) (orderedEntries (rules t)))"
  have w: "\<not> defaultAllow s" "\<not> defaultAllow t" using assms(3) by (auto simp: disruptive_def IsBlacklist_def)
  have tr: "res_fold Apply (Transition s t) s = res_bind (res_fold Apply ?drops s) (res_fold Apply ?gains)"
    using assms(3) by (simp add: Transition_def res_fold_append Let_def)
  show ?thesis
  proof (cases "res_fold Apply ?drops s")
    case (Inl e)
    with dropped_ordered_is_ok [OF w(2) assms(1) w(1) assms(4)] tr show ?thesis by simp
  next
    case (Inr s1)
    have ok: "no_hole (rules s) (rules t)"
      using dropped_ordered_is_ok [OF w(2) assms(1) w(1) assms(4)] Inr by simp
    have s1: "emu_ok s1" "\<not> defaultAllow s1"
      "\<forall>m. perms_of s1 m = (if m \<in> fset (fmdom (rules s)) then drop_perms (rules t) m (perms_of s m) else perms_of s m)"
      using dropped_list [OF w(2) assms(1) w(1) orderedEntries_distinct entries_of_ordered [OF assms(1)] Inr]
      by (simp_all add: orderedEntries_keys)
    obtain s2 where s2: "res_fold Apply ?gains s1 = Inr s2" "emu_ok s2" "defaultAllow s2 = defaultAllow t"
      "\<forall>m. perms_of s2 m = (if m \<in> fset (fmdom (rules t)) then gain_perms (rules s) (rules t) m (perms_of s1 m) else perms_of s1 m)"
      using gained_fold [OF assms(2) s1(1), of "rules s"] s1(2) w(2) by auto
    have "s2 = t"
    proof (rule emulator_eqI [OF s2(2) assms(2) s2(3)])
      fix m show "perms_of s2 m = perms_of t m"
        using s2(2) assms(2) s1(3) s2(4)
        by (intro perms.valid_eq) (auto simp: gain_perms_def perms_of_not_dom)
    qed
    with ok Inr s2(1) tr show ?thesis by simp
  qed
qed

section \<open>Properties\<close>


definition ex_source :: emulator where
  "ex_source = \<lparr>defaultAllow = False, rules = fmap_of_list
     [(DeviceMeta CharDevice 1 3, ''rwm''), (DeviceMeta CharDevice Wildcard Wildcard, ''m'')]\<rparr>"

definition ex_target :: emulator where
  "ex_target = \<lparr>defaultAllow = False, rules = fmap_of_list
     [(DeviceMeta CharDevice 1 3, ''rm''), (DeviceMeta BlockDevice 8 0, ''rw'')]\<rparr>"

lemma ex_emulators_ok:
  "emu_ok ex_source" "emu_ok ex_target" "metas_ok (rules ex_source)"
  "no_hole (rules ex_source) (rules ex_target)"
  by code_simp+


text \<open>C9: Apply keeps the emulator well-formed: every stored permission string stays canonical and
  non-empty and every key names a block or character device, whatever the rule, as long as it is an
  allow-all or deny-all rule or names at least one of r, w, m.\<close>

theorem apply_preserves_wellformed:
  assumes "emu_ok e" and "dev_rule_ok d" and "Apply d e = Inr e'"
  shows "emu_ok e'"
  using assms by (rule Apply_preserves)

theorem apply_preserves_wellformed_witness:
  "emu_ok (\<lparr>defaultAllow = False, rules = fmupd (DeviceMeta BlockDevice 8 0) ''w'' (rules ex_source)\<rparr>)"
  by (rule apply_preserves_wellformed [of ex_source "meta_rule (DeviceMeta BlockDevice 8 0) ''w'' True"];
      code_simp)

end
