(* ===== verification/Device_Filter.thy ===== *)
theory Device_Filter
  imports Device_Rules
begin

text \<open>
  The eBPF device filter of runc, \<open>libcontainer/cgroups/ebpf/devicefilter/devicefilter.go\<close>: the
  compiler from a list of device rules to a BPF program for the cgroup-v2 device hook. The
  instructions are those of the \<open>cilium/ebpf/asm\<close> package that the compiler emits; a small machine
  gives them the meaning the kernel documents (32-bit ALU operations clear the upper half of the
  destination, a 64-bit conditional jump sign-extends its immediate, jumps only go forward). The
  lemmas show that the compiled program decides every request as the last matching rule does.
\<close>

section \<open>Instructions\<close>

datatype reg = R0 | R1 | R2 | R3 | R4 | R5

text \<open>\<open>asm.Instruction\<close> as built by \<open>LoadMem\<close>, \<open>And.Imm32\<close>, \<open>RSh.Imm32\<close>, \<open>Mov.Reg32\<close>,
  \<open>Mov.Imm32\<close>, \<open>JNE.Imm\<close>, \<open>JNE.Reg\<close> and \<open>Return\<close>; the last argument of a jump is its label.\<close>

datatype op =
    LoadMemWord reg reg nat
  | AndImm32 reg "32 word"
  | RShImm32 reg nat
  | MovReg32 reg reg
  | MovImm32 reg "32 word"
  | JNEImm reg "32 word" string
  | JNEReg reg reg string
  | Return

type_synonym insn = "string option \<times> op"

definition Sym :: "insn \<Rightarrow> string \<Rightarrow> insn" where
  "Sym i name = (Some name, snd i)"

section \<open>The compiler\<close>

record filter_program =
  insts :: "insn list"
  hasWildCard :: bool
  blockID :: int

datatype filter_err = ProgramFinalized | InvalidType dev_type | InvalidMajor int | InvalidMinor int | UnknownAccess char

definition no_sym :: "op list \<Rightarrow> insn list" where
  "no_sym is = map (\<lambda>i. (None, i)) is"

definition init_ops :: "op list" where
  "init_ops =
     [LoadMemWord R2 R1 0, AndImm32 R2 0xFFFF,
      LoadMemWord R3 R1 0, RShImm32 R3 16,
      LoadMemWord R4 R1 4,
      LoadMemWord R5 R1 8]"

definition filter_init :: "filter_program \<Rightarrow> filter_program" where
  "filter_init p = p\<lparr>insts := insts p @ no_sym init_ops\<rparr>"

definition acceptBlock :: "bool \<Rightarrow> op list" where
  "acceptBlock accept = [MovImm32 R0 (if accept then 1 else 0), Return]"

definition BPF_DEVCG_ACC_MKNOD :: "32 word" where "BPF_DEVCG_ACC_MKNOD = 1"
definition BPF_DEVCG_ACC_READ :: "32 word" where "BPF_DEVCG_ACC_READ = 2"
definition BPF_DEVCG_ACC_WRITE :: "32 word" where "BPF_DEVCG_ACC_WRITE = 4"
definition BPF_DEVCG_DEV_BLOCK :: "32 word" where "BPF_DEVCG_DEV_BLOCK = 1"
definition BPF_DEVCG_DEV_CHAR :: "32 word" where "BPF_DEVCG_DEV_CHAR = 2"

fun bpf_access :: "32 word \<Rightarrow> permissions \<Rightarrow> (filter_err, 32 word) res" where
  "bpf_access a [] = Inr a"
| "bpf_access a (c # cs) =
     (if c = CHR ''r'' then bpf_access (a OR BPF_DEVCG_ACC_READ) cs
      else if c = CHR ''w'' then bpf_access (a OR BPF_DEVCG_ACC_WRITE) cs
      else if c = CHR ''m'' then bpf_access (a OR BPF_DEVCG_ACC_MKNOD) cs
      else Inl (UnknownAccess c))"

definition bpf_type :: "dev_type \<Rightarrow> (filter_err, 32 word option) res" where
  "bpf_type t =
     (if t = CharDevice then Inr (Some BPF_DEVCG_DEV_CHAR)
      else if t = BlockDevice then Inr (Some BPF_DEVCG_DEV_BLOCK)
      else if t = WildcardDevice then Inr None
      else Inl (InvalidType t))"

definition block_sym :: "int \<Rightarrow> string" where
  "block_sym i = ''block-'' @ Itoa i"

definition full_access :: "32 word" where
  "full_access = BPF_DEVCG_ACC_READ OR BPF_DEVCG_ACC_WRITE OR BPF_DEVCG_ACC_MKNOD"

text \<open>The instructions of one rule: the checks it needs, each jumping to the next block, then the
  verdict. \<open>int32(dev.Major)\<close> keeps the low 32 bits.\<close>

definition check_ops :: "32 word option \<Rightarrow> 32 word \<Rightarrow> rule \<Rightarrow> string \<Rightarrow> op list" where
  "check_ops bpfType bpfAccess dev nxt =
     (case bpfType of Some t \<Rightarrow> [JNEImm R2 t nxt] | None \<Rightarrow> []) @
     (if bpfAccess \<noteq> full_access
      then [MovReg32 R1 R3, AndImm32 R1 bpfAccess, JNEReg R1 R3 nxt] else []) @
     (if r_major dev \<ge> 0 then [JNEImm R4 (word_of_int (r_major dev)) nxt] else []) @
     (if r_minor dev \<ge> 0 then [JNEImm R5 (word_of_int (r_minor dev)) nxt] else [])"

definition MaxUint32 :: int where "MaxUint32 = 2 ^ 32 - 1"

definition appendDevice :: "rule \<Rightarrow> filter_program \<Rightarrow> (filter_err, filter_program) res" where
  "appendDevice dev p =
     (if blockID p < 0 then Inl ProgramFinalized
      else if hasWildCard p then Inr p
      else res_bind (bpf_type (r_type dev)) (\<lambda>bpfType.
        if r_major dev > MaxUint32 then Inl (InvalidMajor (r_major dev))
        else if r_minor dev > MaxUint32 then Inl (InvalidMinor (r_major dev))
        else res_bind (bpf_access 0 (r_perms dev)) (\<lambda>bpfAccess.
          let block = check_ops bpfType bpfAccess dev (block_sym (blockID p + 1)) @ acceptBlock (r_allow dev);
              new = no_sym block;
              wild = (bpfType = None \<and> bpfAccess = full_access \<and> r_major dev < 0 \<and> r_minor dev < 0)
          in Inr (p\<lparr>insts := insts p @ Sym (hd new) (block_sym (blockID p)) # tl new,
                    hasWildCard := hasWildCard p \<or> wild,
                    blockID := blockID p + 1\<rparr>))))"

definition finalize :: "filter_program \<Rightarrow> insn list" where
  "finalize p =
     (if hasWildCard p then insts p
      else insts p @ [Sym (None, MovImm32 R0 0) (block_sym (blockID p)), (None, Return)])"

definition license :: string where "license = ''Apache''"

definition DeviceFilter :: "rule list \<Rightarrow> (filter_err, insn list \<times> string) res" where
  "DeviceFilter devices =
     (case res_fold appendDevice (rev devices)
             (filter_init \<lparr>insts = [], hasWildCard = False, blockID = 0\<rparr>) of
        Inl e \<Rightarrow> Inl e
      | Inr p \<Rightarrow> Inr (finalize p, license))"

section \<open>The machine\<close>

text \<open>A register holds 64 bits; memory is read a 32-bit word at a time. Labels are resolved to the
  instruction that carries the symbol; a jump that does not go forward or has no target, and running
  off the end, are refused by the verifier: None.\<close>

type_synonym regs = "reg \<Rightarrow> 64 word"
type_synonym bpf_mem = "64 word \<Rightarrow> 32 word"

fun label_pos :: "insn list \<Rightarrow> string \<Rightarrow> nat option" where
  "label_pos [] l = None"
| "label_pos (i # is) l = (if fst i = Some l then Some 0 else map_option Suc (label_pos is l))"

definition low32 :: "64 word \<Rightarrow> 32 word" where "low32 w = ucast w"
definition zext :: "32 word \<Rightarrow> 64 word" where "zext w = ucast w"
definition sext :: "32 word \<Rightarrow> 64 word" where "sext w = scast w"

function bpf_run :: "insn list \<Rightarrow> bpf_mem \<Rightarrow> nat \<Rightarrow> regs \<Rightarrow> 64 word option" where
  "bpf_run prog mem pc rs =
     (if pc < length prog then
        (case snd (prog ! pc) of
           LoadMemWord d s off \<Rightarrow> bpf_run prog mem (Suc pc) (rs(d := zext (mem (rs s + of_nat off))))
         | AndImm32 d i \<Rightarrow> bpf_run prog mem (Suc pc) (rs(d := zext (low32 (rs d) AND i)))
         | RShImm32 d n \<Rightarrow> bpf_run prog mem (Suc pc) (rs(d := zext (drop_bit n (low32 (rs d)))))
         | MovReg32 d s \<Rightarrow> bpf_run prog mem (Suc pc) (rs(d := zext (low32 (rs s))))
         | MovImm32 d i \<Rightarrow> bpf_run prog mem (Suc pc) (rs(d := zext i))
         | JNEImm d i l \<Rightarrow>
             if rs d \<noteq> sext i
             then (case label_pos prog l of
                     Some t \<Rightarrow> if pc < t then bpf_run prog mem t rs else None
                   | None \<Rightarrow> None)
             else bpf_run prog mem (Suc pc) rs
         | JNEReg d s l \<Rightarrow>
             if rs d \<noteq> rs s
             then (case label_pos prog l of
                     Some t \<Rightarrow> if pc < t then bpf_run prog mem t rs else None
                   | None \<Rightarrow> None)
             else bpf_run prog mem (Suc pc) rs
         | Return \<Rightarrow> Some (rs R0))
      else None)"
  by pat_completeness auto
termination
  by (relation "measure (\<lambda>(prog, mem, pc, rs). length prog - pc)") auto

declare bpf_run.simps [simp del]

text \<open>The context \<open>struct bpf_cgroup_dev_ctx\<close> at the address in R1: access and type, major, minor.\<close>

record dev_request =
  q_access_type :: "32 word"
  q_major :: "32 word"
  q_minor :: "32 word"

definition ctx_mem :: "64 word \<Rightarrow> dev_request \<Rightarrow> bpf_mem" where
  "ctx_mem addr q a =
     (if a = addr then q_access_type q
      else if a = addr + 4 then q_major q
      else if a = addr + 8 then q_minor q
      else 0)"

definition run_filter :: "insn list \<Rightarrow> 64 word \<Rightarrow> dev_request \<Rightarrow> 64 word option" where
  "run_filter prog addr q = bpf_run prog (ctx_mem addr q) 0 ((\<lambda>_. 0)(R1 := addr))"

section \<open>What the filter should decide\<close>

text \<open>The low half of the first context word is the device type, the high half the requested access.
  A rule matches when the type agrees, every requested access is among its permissions, and the
  numbers agree where the rule names them. The verdict is that of the last rule that matches; with
  none, access is refused.\<close>

definition q_type :: "dev_request \<Rightarrow> 32 word" where
  "q_type q = q_access_type q AND 0xFFFF"

definition q_access :: "dev_request \<Rightarrow> 32 word" where
  "q_access q = drop_bit 16 (q_access_type q)"

definition type_matches :: "dev_request \<Rightarrow> rule \<Rightarrow> bool" where
  "type_matches q d \<longleftrightarrow>
     r_type d = WildcardDevice \<or>
     (r_type d = BlockDevice \<and> q_type q = 1) \<or>
     (r_type d = CharDevice \<and> q_type q = 2)"

definition access_matches :: "dev_request \<Rightarrow> rule \<Rightarrow> bool" where
  "access_matches q d \<longleftrightarrow>
     (bit (q_access q) 0 \<longrightarrow> CHR ''m'' \<in> set (r_perms d)) \<and>
     (bit (q_access q) 1 \<longrightarrow> CHR ''r'' \<in> set (r_perms d)) \<and>
     (bit (q_access q) 2 \<longrightarrow> CHR ''w'' \<in> set (r_perms d))"

definition rule_matches :: "dev_request \<Rightarrow> rule \<Rightarrow> bool" where
  "rule_matches q d \<longleftrightarrow>
     type_matches q d \<and> access_matches q d \<and>
     (r_major d \<ge> 0 \<longrightarrow> uint (q_major q) = r_major d) \<and>
     (r_minor d \<ge> 0 \<longrightarrow> uint (q_minor q) = r_minor d)"

fun first_match :: "(rule \<Rightarrow> bool) \<Rightarrow> rule list \<Rightarrow> bool" where
  "first_match P [] = False"
| "first_match P (d # ds) = (if P d then r_allow d else first_match P ds)"

definition last_match_decision :: "rule list \<Rightarrow> dev_request \<Rightarrow> bool" where
  "last_match_decision ds q = first_match (rule_matches q) (rev ds)"

text \<open>The kernel passes only the three access bits; a rule number fits the signed immediate.\<close>

definition request_ok :: "dev_request \<Rightarrow> bool" where
  "request_ok q \<longleftrightarrow> q_access q \<le> 7"

definition small_numbers :: "rule \<Rightarrow> bool" where
  "small_numbers d \<longleftrightarrow> r_major d < 2 ^ 31 \<and> r_minor d < 2 ^ 31"

text \<open>What the emitted comparisons test: the number as the sign-extended immediate.\<close>

definition number_test :: "int \<Rightarrow> 32 word \<Rightarrow> bool" where
  "number_test i w \<longleftrightarrow> (i \<ge> 0 \<longrightarrow> zext w = sext (word_of_int i))"

definition compiled_matches :: "dev_request \<Rightarrow> rule \<Rightarrow> bool" where
  "compiled_matches q d \<longleftrightarrow>
     type_matches q d \<and> access_matches q d \<and>
     number_test (r_major d) (q_major q) \<and> number_test (r_minor d) (q_minor q)"

lemma first_match_cong: "(\<And>d. d \<in> set ds \<Longrightarrow> P d = Q d) \<Longrightarrow> first_match P ds = first_match Q ds"
  by (induction ds) auto

section \<open>Code in memory\<close>

definition code_at :: "insn list \<Rightarrow> nat \<Rightarrow> op list \<Rightarrow> bool" where
  "code_at prog pc ops \<longleftrightarrow> (\<exists>pre post. map snd prog = pre @ ops @ post \<and> length pre = pc)"

lemma code_at_Cons:
  assumes "code_at prog pc (x # xs)"
  shows "pc < length prog" "snd (prog ! pc) = x" "code_at prog (Suc pc) xs"
proof -
  obtain pre post where p: "map snd prog = pre @ (x # xs) @ post" "length pre = pc"
    using assms by (auto simp: code_at_def)
  have "length (map snd prog) = length (pre @ (x # xs) @ post)" using p(1) by (rule arg_cong)
  with p(2) show lt: "pc < length prog" by simp
  have "map snd prog ! pc = x" using p by (metis append_Cons nth_append_length)
  with lt show "snd (prog ! pc) = x" by simp
  have "map snd prog = (pre @ [x]) @ xs @ post" "length (pre @ [x]) = Suc pc" using p by simp_all
  then show "code_at prog (Suc pc) xs" by (auto simp only: code_at_def)
qed

lemma code_at_append:
  assumes "code_at prog pc (xs @ ys)"
  shows "code_at prog pc xs" "code_at prog (pc + length xs) ys"
proof -
  obtain pre post where p: "map snd prog = pre @ (xs @ ys) @ post" "length pre = pc"
    using assms by (auto simp: code_at_def)
  then have "map snd prog = pre @ xs @ (ys @ post)" by simp
  with p(2) show "code_at prog pc xs" unfolding code_at_def by blast
  have "map snd prog = (pre @ xs) @ ys @ post" "length (pre @ xs) = pc + length xs" using p by simp_all
  then show "code_at prog (pc + length xs) ys" unfolding code_at_def by blast
qed

lemma run_step:
  assumes "code_at prog pc (x # xs)"
  shows "bpf_run prog mem pc rs =
    (case x of
       LoadMemWord d s off \<Rightarrow> bpf_run prog mem (Suc pc) (rs(d := zext (mem (rs s + of_nat off))))
     | AndImm32 d i \<Rightarrow> bpf_run prog mem (Suc pc) (rs(d := zext (low32 (rs d) AND i)))
     | RShImm32 d n \<Rightarrow> bpf_run prog mem (Suc pc) (rs(d := zext (drop_bit n (low32 (rs d)))))
     | MovReg32 d s \<Rightarrow> bpf_run prog mem (Suc pc) (rs(d := zext (low32 (rs s))))
     | MovImm32 d i \<Rightarrow> bpf_run prog mem (Suc pc) (rs(d := zext i))
     | JNEImm d i l \<Rightarrow>
         if rs d \<noteq> sext i
         then (case label_pos prog l of
                 Some t \<Rightarrow> if pc < t then bpf_run prog mem t rs else None
               | None \<Rightarrow> None)
         else bpf_run prog mem (Suc pc) rs
     | JNEReg d s l \<Rightarrow>
         if rs d \<noteq> rs s
         then (case label_pos prog l of
                 Some t \<Rightarrow> if pc < t then bpf_run prog mem t rs else None
               | None \<Rightarrow> None)
         else bpf_run prog mem (Suc pc) rs
     | Return \<Rightarrow> Some (rs R0))"
  using code_at_Cons [OF assms] by (subst bpf_run.simps) simp

lemma low32_zext [simp]: "low32 (zext w) = w"
  by (rule bit_word_eqI) (simp add: low32_def zext_def bit_unsigned_iff)

lemma zext_inj [simp]: "zext a = zext b \<longleftrightarrow> a = b"
  by (metis low32_zext)

text \<open>Comparing a zero-extended register with a sign-extended immediate.\<close>

lemma bit_31_iff: "bit (i :: 32 word) 31 \<longleftrightarrow> 2 ^ 31 \<le> uint i"
proof -
  have "bit i 31 \<longleftrightarrow> odd (uint i div 2 ^ 31)"
    using bit_uint_iff [of i 31] by (simp add: bit_iff_odd)
  also have "\<dots> \<longleftrightarrow> 2 ^ 31 \<le> uint i"
  proof -
    have "uint i div 2 ^ 31 = (if 2 ^ 31 \<le> uint i then 1 else 0)"
      using uint_lt2p [of i] uint_ge_0 [of i] by (auto simp: div_pos_pos_trivial div_pos_geq)
    then show ?thesis by simp
  qed
  finally show ?thesis .
qed

lemma zext_eq_sext:
  assumes "uint i < 2 ^ 31"
  shows "zext w = sext i \<longleftrightarrow> w = i"
proof -
  have "\<not> bit i 31" using assms by (simp add: bit_31_iff)
  then have "sext i = zext i"
  proof (intro bit_word_eqI)
    fix n
    have "bit i n \<Longrightarrow> n < 32" by (auto dest: bit_imp_le_length)
    then have "bit i n \<Longrightarrow> 31 \<le> n \<Longrightarrow> n = 31" by simp
    with \<open>\<not> bit i 31\<close> show "bit (sext i) n \<longleftrightarrow> bit (zext i) n" if "n < LENGTH(64)"
      using that by (auto simp: sext_def zext_def bit_signed_iff bit_unsigned_iff min_def)
  qed
  then show ?thesis by simp
qed

lemma zext_neq_sext:
  assumes "2 ^ 31 \<le> uint i"
  shows "zext w \<noteq> sext i"
proof
  assume eq: "zext w = sext i"
  have "bit i 31" using assms by (simp add: bit_31_iff)
  then have "bit (sext i) 40" by (simp add: sext_def bit_signed_iff)
  moreover have "\<not> bit (zext w) 40" by (auto simp: zext_def bit_unsigned_iff dest: bit_imp_le_length)
  ultimately show False using eq by simp
qed

section \<open>Guards\<close>

text \<open>\<open>guard\<close>: from \<open>pc\<close> the code \<open>ops\<close> falls through when the condition holds and jumps to \<open>t\<close>
  when it does not, keeping the registers that hold the request.\<close>

definition regs_ok :: "dev_request \<Rightarrow> regs \<Rightarrow> bool" where
  "regs_ok q rs \<longleftrightarrow>
     rs R2 = zext (q_type q) \<and> rs R3 = zext (q_access q) \<and>
     rs R4 = zext (q_major q) \<and> rs R5 = zext (q_minor q)"

definition guard :: "insn list \<Rightarrow> bpf_mem \<Rightarrow> dev_request \<Rightarrow> nat \<Rightarrow> nat \<Rightarrow> nat \<Rightarrow> bool \<Rightarrow> bool" where
  "guard prog mem q pc n t c \<longleftrightarrow>
     (\<forall>rs. regs_ok q rs \<longrightarrow>
        (\<exists>rs'. regs_ok q rs' \<and> bpf_run prog mem pc rs = bpf_run prog mem (if c then pc + n else t) rs'))"

lemma guard_Nil: "guard prog mem q pc 0 t True"
  by (auto simp: guard_def)

lemma guard_append:
  assumes "guard prog mem q pc n t c" and "guard prog mem q (pc + n) m t c'"
  shows "guard prog mem q pc (n + m) t (c \<and> c')"
  unfolding guard_def
proof (intro allI impI)
  fix rs assume "regs_ok q rs"
  with assms(1) obtain rs1 where rs1: "regs_ok q rs1"
    "bpf_run prog mem pc rs = bpf_run prog mem (if c then pc + n else t) rs1"
    by (auto simp: guard_def)
  show "\<exists>rs'. regs_ok q rs' \<and>
      bpf_run prog mem pc rs = bpf_run prog mem (if c \<and> c' then pc + (n + m) else t) rs'"
  proof (cases c)
    case True
    from assms(2) rs1(1) obtain rs2 where "regs_ok q rs2"
      "bpf_run prog mem (pc + n) rs1 = bpf_run prog mem (if c' then pc + n + m else t) rs2"
      by (auto simp: guard_def)
    with True rs1(2) show ?thesis by (auto simp: add.assoc)
  next
    case False
    with rs1 show ?thesis by auto
  qed
qed

lemma guard_JNEImm:
  assumes "code_at prog pc [JNEImm r i l]" and "label_pos prog l = Some t" and "pc < t"
    and "\<And>rs. regs_ok q rs \<Longrightarrow> rs r = sext i \<longleftrightarrow> c"
  shows "guard prog mem q pc 1 t c"
  using assms by (auto simp: guard_def run_step [OF assms(1)])

lemma guard_access:
  assumes "code_at prog pc [MovReg32 R1 R3, AndImm32 R1 a, JNEReg R1 R3 l]"
    and "label_pos prog l = Some t" and "pc + 2 < t"
  shows "guard prog mem q pc 3 t (q_access q AND a = q_access q)"
proof -
  note c1 = assms(1)
  note c2 = code_at_Cons(3) [OF c1]
  note c3 = code_at_Cons(3) [OF c2]
  show ?thesis
    unfolding guard_def
  proof (intro allI impI)
    fix rs assume ok: "regs_ok q rs"
    let ?rs = "rs(R1 := zext (q_access q AND a))"
    have "bpf_run prog mem pc rs =
        bpf_run prog mem (if q_access q AND a = q_access q then pc + 3 else t) ?rs"
      using ok assms(2,3)
      by (simp add: run_step [OF c1] run_step [OF c2] run_step [OF c3] regs_ok_def numeral_3_eq_3)
    moreover have "regs_ok q ?rs" using ok by (simp add: regs_ok_def)
    ultimately show "\<exists>rs'. regs_ok q rs' \<and>
        bpf_run prog mem pc rs = bpf_run prog mem (if q_access q AND a = q_access q then pc + 3 else t) rs'"
      by blast
  qed
qed

text \<open>The access bits a rule compiles to.\<close>

lemma bit_access_consts:
  "bit BPF_DEVCG_ACC_MKNOD n \<longleftrightarrow> n = 0" "bit BPF_DEVCG_ACC_READ n \<longleftrightarrow> n = 1" "bit BPF_DEVCG_ACC_WRITE n \<longleftrightarrow> n = 2"
  using bit_exp_word [where 'a = 32, of 0 n] bit_exp_word [where 'a = 32, of 1 n]
    bit_exp_word [where 'a = 32, of 2 n]
  by (simp_all add: BPF_DEVCG_ACC_MKNOD_def BPF_DEVCG_ACC_READ_def BPF_DEVCG_ACC_WRITE_def)

lemma bit_bpf_access:
  "bpf_access a p = Inr b \<Longrightarrow>
     bit b n \<longleftrightarrow> bit a n \<or> (n = 0 \<and> CHR ''m'' \<in> set p) \<or> (n = 1 \<and> CHR ''r'' \<in> set p) \<or> (n = 2 \<and> CHR ''w'' \<in> set p)"
  by (induction p arbitrary: a) (auto simp: bit_or_iff bit_access_consts split: if_splits)

lemma bit_q_access: "request_ok q \<Longrightarrow> bit (q_access q) n \<Longrightarrow> n = 0 \<or> n = 1 \<or> n = 2"
proof -
  assume "request_ok q" "bit (q_access q) n"
  then have "bit (take_bit 3 (q_access q)) n"
  proof -
    have "q_access q < 2 ^ 3"
      using \<open>request_ok q\<close> by (simp add: request_ok_def word_less_nat_alt word_le_nat_alt)
    then have "take_bit 3 (q_access q) = q_access q" by (simp add: less_mask_eq take_bit_eq_mask)
    then show ?thesis using \<open>bit (q_access q) n\<close> by simp
  qed
  then have "n < 3" by (simp add: bit_take_bit_iff)
  then show ?thesis by auto
qed

lemma access_matches_iff:
  assumes "request_ok q" and "bpf_access 0 (r_perms d) = Inr a"
  shows "access_matches q d \<longleftrightarrow> q_access q AND a = q_access q"
proof -
  have "q_access q AND a = q_access q \<longleftrightarrow> (\<forall>n. bit (q_access q) n \<longrightarrow> bit a n)"
    by (metis bit_and_iff bit_word_eqI)
  also have "\<dots> \<longleftrightarrow> access_matches q d"
    using bit_q_access [OF assms(1)] bit_bpf_access [OF assms(2)]
    by (auto simp: access_matches_def)
  finally show ?thesis ..
qed

lemma access_matches_full:
  assumes "request_ok q" and "bpf_access 0 (r_perms d) = Inr full_access"
  shows "access_matches q d"
proof -
  have "bit full_access n" if "n = 0 \<or> n = 1 \<or> n = 2" for n
    using that by (auto simp: full_access_def bit_or_iff bit_access_consts)
  then have "q_access q AND full_access = q_access q"
    using bit_q_access [OF assms(1)] by (auto simp: bit_eq_iff bit_and_iff)
  then show ?thesis by (simp add: access_matches_iff [OF assms])
qed

lemma uint_small:
  "0 \<le> i \<Longrightarrow> i < 2 ^ 31 \<Longrightarrow> uint (word_of_int i :: 32 word) = i"
  by (simp add: uint_word_of_int)

lemma number_guard:
  assumes "0 \<le> i" and "i < 2 ^ 31"
  shows "zext w = sext (word_of_int i) \<longleftrightarrow> uint w = i"
proof -
  have "zext w = sext (word_of_int i) \<longleftrightarrow> w = word_of_int i"
    using zext_eq_sext [of "word_of_int i" w] assms by (simp add: uint_small)
  also have "\<dots> \<longleftrightarrow> uint w = i"
    using uint_small [OF assms] by (metis word_of_int_uint)
  finally show ?thesis .
qed

lemma guard_check_ops:
  assumes code: "code_at prog pc (check_ops bt a d nxt @ rest)"
    and lab: "label_pos prog nxt = Some t" and fwd: "pc + length (check_ops bt a d nxt) < t"
    and q: "request_ok q"
    and bt: "bpf_type (r_type d) = Inr bt" and acc: "bpf_access 0 (r_perms d) = Inr a"
  shows "guard prog mem q pc (length (check_ops bt a d nxt)) t (compiled_matches q d)"
proof -
  define c1 where "c1 = (case bt of Some t \<Rightarrow> [JNEImm R2 t nxt] | None \<Rightarrow> [])"
  define c2 where "c2 = (if a \<noteq> full_access then [MovReg32 R1 R3, AndImm32 R1 a, JNEReg R1 R3 nxt] else [])"
  define c3 where "c3 = (if r_major d \<ge> 0 then [JNEImm R4 (word_of_int (r_major d)) nxt] else [])"
  define c4 where "c4 = (if r_minor d \<ge> 0 then [JNEImm R5 (word_of_int (r_minor d)) nxt] else [])"
  have ops: "check_ops bt a d nxt = c1 @ c2 @ c3 @ c4"
    by (simp add: check_ops_def c1_def c2_def c3_def c4_def)
  have code1: "code_at prog pc c1" and code2: "code_at prog (pc + length c1) c2"
    and code3: "code_at prog (pc + length c1 + length c2) c3"
    and code4: "code_at prog (pc + length c1 + length c2 + length c3) c4"
    using code code_at_append unfolding ops append_assoc by blast+
  have len: "pc + length c1 + length c2 + length c3 + length c4 < t" using fwd by (simp add: ops)
  have g1: "guard prog mem q pc (length c1) t (type_matches q d)"
  proof (cases bt)
    case None
    then have "r_type d = WildcardDevice" using bt by (auto simp: bpf_type_def split: if_splits)
    with None guard_Nil show ?thesis by (simp add: c1_def type_matches_def)
  next
    case (Some v)
    then have v: "type_matches q d \<longleftrightarrow> q_type q = v" "uint v < 2 ^ 31"
      using bt by (auto simp: bpf_type_def type_matches_def dev_type_defs BPF_DEVCG_DEV_CHAR_def
          BPF_DEVCG_DEV_BLOCK_def split: if_splits)
    with Some code1 lab len have "guard prog mem q pc 1 t (type_matches q d)"
      by (intro guard_JNEImm [where r = R2 and i = v]) (auto simp: c1_def regs_ok_def zext_eq_sext)
    with Some show ?thesis by (simp add: c1_def)
  qed
  have g2: "guard prog mem q (pc + length c1) (length c2) t (access_matches q d)"
  proof (cases "a = full_access")
    case True
    with access_matches_full [OF q] acc guard_Nil show ?thesis by (simp add: c2_def)
  next
    case False
    with code2 lab len guard_access [of prog "pc + length c1" a nxt t mem q] show ?thesis
      by (simp add: c2_def access_matches_iff [OF q acc] numeral_3_eq_3)
  qed
  have g3: "guard prog mem q (pc + length c1 + length c2) (length c3) t
      (number_test (r_major d) (q_major q))"
  proof (cases "r_major d \<ge> 0")
    case True
    with code3 lab len have "guard prog mem q (pc + length c1 + length c2) 1 t (number_test (r_major d) (q_major q))"
      by (intro guard_JNEImm [where r = R4]) (auto simp: c3_def regs_ok_def number_test_def)
    with True show ?thesis by (simp add: c3_def)
  qed (simp add: c3_def guard_Nil number_test_def)
  have g4: "guard prog mem q (pc + length c1 + length c2 + length c3) (length c4) t
      (number_test (r_minor d) (q_minor q))"
  proof (cases "r_minor d \<ge> 0")
    case True
    with code4 lab len have "guard prog mem q (pc + length c1 + length c2 + length c3) 1 t (number_test (r_minor d) (q_minor q))"
      by (intro guard_JNEImm [where r = R5]) (auto simp: c4_def regs_ok_def number_test_def)
    with True show ?thesis by (simp add: c4_def)
  qed (simp add: c4_def guard_Nil number_test_def)
  from guard_append [OF guard_append [OF guard_append [OF g1 g2]], of "length c3" _ "length c4"] g3 g4
  show ?thesis by (simp add: ops compiled_matches_def add.assoc conj_assoc)
qed

section \<open>Labels\<close>

lemma nat_digits_inj: "nat_digits m = nat_digits n \<Longrightarrow> m = n"
  by (metis digits_value_nat_digits)

lemma block_sym_inj: "0 \<le> i \<Longrightarrow> 0 \<le> j \<Longrightarrow> block_sym i = block_sym j \<longleftrightarrow> i = j"
  by (auto simp: block_sym_def Itoa_def dest: nat_digits_inj)

lemma label_pos_append:
  "label_pos (xs @ ys) l = (case label_pos xs l of Some t \<Rightarrow> Some t | None \<Rightarrow> map_option (\<lambda>t. length xs + t) (label_pos ys l))"
proof (induction xs)
  case Nil
  show ?case by (cases "label_pos ys l") auto
next
  case (Cons x xs)
  then show ?case by (cases "label_pos xs l"; cases "label_pos ys l") auto
qed

lemma label_pos_None: "label_pos xs l = None \<longleftrightarrow> Some l \<notin> fst ` set xs"
  by (induction xs) auto

text \<open>The labels of a program under construction are those of its blocks so far.\<close>

definition labels_ok :: "filter_program \<Rightarrow> bool" where
  "labels_ok p \<longleftrightarrow> 0 \<le> blockID p \<and>
     (\<forall>i \<in> set (insts p). \<forall>l. fst i = Some l \<longrightarrow> (\<exists>k. 0 \<le> k \<and> k < blockID p \<and> l = block_sym k))"

lemma labels_ok_fresh: "labels_ok p \<Longrightarrow> label_pos (insts p) (block_sym (blockID p)) = None"
  unfolding label_pos_None labels_ok_def
  by (clarsimp simp: block_sym_inj) (metis block_sym_inj less_irrefl fst_conv)

lemma next_label:
  "labels_ok p \<Longrightarrow> label_pos (insts p @ (Some (block_sym (blockID p)), x) # ys) (block_sym (blockID p)) = Some (length (insts p))"
  by (simp add: label_pos_append labels_ok_fresh)

section \<open>Correctness of the compiled filter\<close>

lemma no_sym_simps [simp]: "map snd (no_sym xs) = xs" "no_sym xs = [] \<longleftrightarrow> xs = []"
  by (simp_all add: no_sym_def comp_def)

lemma fst_no_sym: "i \<in> set (no_sym xs) \<Longrightarrow> fst i = None"
  by (auto simp: no_sym_def)

definition rule_block :: "32 word option \<Rightarrow> 32 word \<Rightarrow> rule \<Rightarrow> int \<Rightarrow> op list" where
  "rule_block bt a d k = check_ops bt a d (block_sym (k + 1)) @ acceptBlock (r_allow d)"

lemma appendDevice_cases:
  assumes "appendDevice d p = Inr p'" and "labels_ok p" and "\<not> hasWildCard p"
  obtains bt a x ys where
    "bpf_type (r_type d) = Inr bt" "bpf_access 0 (r_perms d) = Inr a"
    "insts p' = insts p @ (Some (block_sym (blockID p)), x) # ys"
    "x # map snd ys = rule_block bt a d (blockID p)"
    "blockID p' = blockID p + 1" "labels_ok p'"
    "hasWildCard p' \<longleftrightarrow> bt = None \<and> a = full_access \<and> r_major d < 0 \<and> r_minor d < 0"
proof -
  from assms obtain bt a where ba: "bpf_type (r_type d) = Inr bt" "bpf_access 0 (r_perms d) = Inr a"
    and p': "p' = p\<lparr>insts := insts p @ Sym (hd (no_sym (rule_block bt a d (blockID p)))) (block_sym (blockID p))
                 # tl (no_sym (rule_block bt a d (blockID p))),
               hasWildCard := hasWildCard p \<or> (bt = None \<and> a = full_access \<and> r_major d < 0 \<and> r_minor d < 0),
               blockID := blockID p + 1\<rparr>"
    by (auto simp: appendDevice_def go_res Let_def labels_ok_def rule_block_def split: if_splits)
  obtain b bs where b: "rule_block bt a d (blockID p) = b # bs"
    by (cases "rule_block bt a d (blockID p)") (auto simp: rule_block_def acceptBlock_def)
  have ins: "insts p' = insts p @ (Some (block_sym (blockID p)), b) # no_sym bs"
    by (simp add: p' b Sym_def no_sym_def)
  have "labels_ok p'"
    unfolding labels_ok_def ins
  proof (intro conjI ballI allI impI)
    show "0 \<le> blockID p'" using assms(2) by (simp add: labels_ok_def p')
    fix i l assume i: "i \<in> set (insts p @ (Some (block_sym (blockID p)), b) # no_sym bs)" "fst i = Some l"
    then consider "i \<in> set (insts p)" | "l = block_sym (blockID p)" by (auto dest: fst_no_sym)
    then show "\<exists>k. 0 \<le> k \<and> k < blockID p' \<and> l = block_sym k"
    proof cases
      case 1
      with assms(2) i(2) obtain k where "0 \<le> k" "k < blockID p" "l = block_sym k"
        by (auto simp: labels_ok_def)
      then show ?thesis by (intro exI [of _ k]) (simp add: p')
    next
      case 2
      with assms(2) show ?thesis by (intro exI [of _ "blockID p"]) (simp add: p' labels_ok_def)
    qed
  qed
  with ba ins b p' assms(3) show ?thesis
    by (intro that [of bt a b "no_sym bs"]) simp_all
qed

lemma wildcard_fold: "hasWildCard p \<Longrightarrow> 0 \<le> blockID p \<Longrightarrow> res_fold appendDevice ds p = Inr p"
  by (induction ds) (simp_all add: appendDevice_def)

lemma run_acceptBlock:
  assumes "code_at prog pc (acceptBlock v @ rest)"
  shows "bpf_run prog mem pc rs = Some (if v then 1 else 0)"
proof -
  have c1: "code_at prog pc (MovImm32 R0 (if v then 1 else 0) # Return # rest)"
    using assms by (simp add: acceptBlock_def)
  note c2 = code_at_Cons(3) [OF c1]
  show ?thesis by (simp add: run_step [OF c1] run_step [OF c2] zext_def)
qed

lemma code_at_middle: "prog = pre @ mid @ post \<Longrightarrow> code_at prog (length pre) (map snd mid @ map snd post)"
  unfolding code_at_def by (metis append_Nil2 append_assoc length_map map_append)

lemma wildcard_matches:
  assumes "request_ok q" and "bpf_type (r_type d) = Inr None" and "bpf_access 0 (r_perms d) = Inr full_access"
    and "r_major d < 0" and "r_minor d < 0"
  shows "compiled_matches q d"
proof -
  have "r_type d = WildcardDevice" using assms(2) by (auto simp: bpf_type_def split: if_splits)
  with assms access_matches_full show ?thesis by (simp add: compiled_matches_def type_matches_def number_test_def)
qed

lemma filter_fold:
  assumes "labels_ok p" and "\<not> hasWildCard p" and "res_fold appendDevice ds p = Inr p'"
    and q: "request_ok q"
  shows "label_pos (finalize p') (block_sym (blockID p)) = Some (length (insts p)) \<and>
    (\<exists>post. finalize p' = insts p @ post) \<and>
    (\<forall>rs. regs_ok q rs \<longrightarrow>
       bpf_run (finalize p') mem (length (insts p)) rs = Some (if first_match (compiled_matches q) ds then 1 else 0))"
  using assms(1-3)
proof (induction ds arbitrary: p)
  case Nil
  then have fin: "finalize p' = insts p @ (Some (block_sym (blockID p)), MovImm32 R0 0) # [(None, Return)]"
    by (simp add: finalize_def Sym_def)
  have "code_at (finalize p') (length (insts p)) (acceptBlock False @ [])"
    using code_at_middle [of _ "insts p" "(Some (block_sym (blockID p)), MovImm32 R0 0) # [(None, Return)]" "[]"]
    by (simp add: fin acceptBlock_def)
  then show ?case
    using next_label [OF Nil.prems(1)] run_acceptBlock [of "finalize p'" _ False "[]"] by (simp add: fin)
next
  case (Cons d ds)
  from Cons.prems(3) obtain p1 where p1: "appendDevice d p = Inr p1" "res_fold appendDevice ds p1 = Inr p'"
    by (auto split: sum.splits)
  obtain bt a x ys where blk: "bpf_type (r_type d) = Inr bt" "bpf_access 0 (r_perms d) = Inr a"
      "insts p1 = insts p @ (Some (block_sym (blockID p)), x) # ys"
      "x # map snd ys = rule_block bt a d (blockID p)" "blockID p1 = blockID p + 1" "labels_ok p1"
      "hasWildCard p1 \<longleftrightarrow> bt = None \<and> a = full_access \<and> r_major d < 0 \<and> r_minor d < 0"
    using appendDevice_cases [OF p1(1) Cons.prems(1,2)] by metis
  show ?case
  proof (cases "hasWildCard p1")
    case True
    then have fin: "finalize p' = insts p @ (Some (block_sym (blockID p)), x) # ys"
      using wildcard_fold [of p1 ds] p1(2) blk(3,6) by (auto simp: finalize_def labels_ok_def)
    have "rule_block bt a d (blockID p) = acceptBlock (r_allow d)"
      using True blk(7) by (simp add: rule_block_def check_ops_def)
    then have "code_at (finalize p') (length (insts p)) (acceptBlock (r_allow d) @ [])"
      using code_at_middle [of _ "insts p" "(Some (block_sym (blockID p)), x) # ys" "[]"] blk(4)
      by (simp add: fin)
    moreover have "compiled_matches q d" using wildcard_matches [OF q] True blk by simp
    ultimately show ?thesis
      using next_label [OF Cons.prems(1)] run_acceptBlock [of "finalize p'" _ "r_allow d" "[]"] by (simp add: fin)
  next
    case False
    obtain post where fin: "finalize p' = insts p1 @ post"
      and lab: "label_pos (finalize p') (block_sym (blockID p + 1)) = Some (length (insts p1))"
      and IH: "\<And>rs. regs_ok q rs \<Longrightarrow>
        bpf_run (finalize p') mem (length (insts p1)) rs = Some (if first_match (compiled_matches q) ds then 1 else 0)"
      using Cons.IH [OF blk(6) False p1(2)] blk(5) by auto
    have fin': "finalize p' = insts p @ (Some (block_sym (blockID p)), x) # ys @ post"
      by (simp add: fin blk(3))
    have code: "code_at (finalize p') (length (insts p))
        (check_ops bt a d (block_sym (blockID p + 1)) @ acceptBlock (r_allow d) @ map snd post)"
      using code_at_middle [of _ "insts p" "(Some (block_sym (blockID p)), x) # ys" post] blk(4)
      by (simp add: fin' rule_block_def)
    have len: "length (insts p1) = length (insts p) + length (check_ops bt a d (block_sym (blockID p + 1))) + 2"
      using arg_cong [OF blk(4), of length] blk(3) by (simp add: rule_block_def acceptBlock_def)
    have g: "guard (finalize p') mem q (length (insts p)) (length (check_ops bt a d (block_sym (blockID p + 1))))
        (length (insts p1)) (compiled_matches q d)"
      using guard_check_ops [OF code lab _ q blk(1,2)] len by simp
    have "bpf_run (finalize p') mem (length (insts p)) rs = Some (if first_match (compiled_matches q) (d # ds) then 1 else 0)"
      if "regs_ok q rs" for rs
      using g that IH run_acceptBlock [OF code_at_append(2) [OF code]]
      by (fastforce simp: guard_def)
    with next_label [OF Cons.prems(1)] fin' show ?thesis by simp
  qed
qed

lemma run_init_ops:
  assumes "code_at prog 0 (init_ops @ rest)"
  shows "\<exists>rs. regs_ok q rs \<and> run_filter prog addr q = bpf_run prog (ctx_mem addr q) 6 rs"
proof -
  note c0 = assms [unfolded init_ops_def append_Cons append_Nil]
  note c1 = code_at_Cons(3) [OF c0]
  note c2 = code_at_Cons(3) [OF c1]
  note c3 = code_at_Cons(3) [OF c2]
  note c4 = code_at_Cons(3) [OF c3]
  note c5 = code_at_Cons(3) [OF c4]
  have mem: "ctx_mem addr q addr = q_access_type q" "ctx_mem addr q (addr + 4) = q_major q"
    "ctx_mem addr q (addr + 8) = q_minor q"
    by (simp_all add: ctx_mem_def)
  let ?rs = "(\<lambda>_. 0)(R1 := addr, R2 := zext (q_type q), R3 := zext (q_access q),
    R4 := zext (q_major q), R5 := zext (q_minor q))"
  have "run_filter prog addr q = bpf_run prog (ctx_mem addr q) (Suc (Suc (Suc (Suc (Suc (Suc 0)))))) ?rs"
    unfolding run_filter_def
    by (simp add: run_step [OF c0] run_step [OF c1] run_step [OF c2] run_step [OF c3] run_step [OF c4]
        run_step [OF c5] mem q_type_def q_access_def)
  moreover have "Suc (Suc (Suc (Suc (Suc (Suc 0))))) = 6" by simp
  ultimately have "run_filter prog addr q = bpf_run prog (ctx_mem addr q) 6 ?rs" by (simp only:)
  moreover have "regs_ok q ?rs" by (simp add: regs_ok_def)
  ultimately show ?thesis by blast
qed

lemma DeviceFilter_run:
  assumes "DeviceFilter ds = Inr (prog, lic)" and "request_ok q"
  shows "run_filter prog addr q = Some (if first_match (compiled_matches q) (rev ds) then 1 else 0)"
proof -
  let ?p0 = "filter_init \<lparr>insts = [], hasWildCard = False, blockID = 0\<rparr>"
  obtain p' where p': "res_fold appendDevice (rev ds) ?p0 = Inr p'" "prog = finalize p'"
    using assms(1) by (auto simp: DeviceFilter_def split: sum.splits)
  have ok: "labels_ok ?p0" "\<not> hasWildCard ?p0" "length (insts ?p0) = 6"
    by (auto simp: labels_ok_def filter_init_def init_ops_def dest: fst_no_sym) (simp add: no_sym_def)
  from filter_fold [OF ok(1,2) p'(1) assms(2)] obtain post where
    "prog = insts ?p0 @ post" and
    run: "\<And>rs. regs_ok q rs \<Longrightarrow> bpf_run prog (ctx_mem addr q) 6 rs =
      Some (if first_match (compiled_matches q) (rev ds) then 1 else 0)"
    using p'(2) ok(3) by metis
  then have "code_at prog 0 (init_ops @ map snd post)"
    using code_at_middle [of prog "[]" "no_sym init_ops" post] by (simp add: filter_init_def)
  from run_init_ops [OF this] run show ?thesis by metis
qed

lemma compiled_matches_small: "small_numbers d \<Longrightarrow> compiled_matches q d = rule_matches q d"
  by (auto simp: compiled_matches_def rule_matches_def number_test_def small_numbers_def number_guard)

lemma number_test_large: "2 ^ 31 \<le> i \<Longrightarrow> i \<le> MaxUint32 \<Longrightarrow> \<not> number_test i w"
  using zext_neq_sext [of "word_of_int i" w]
  by (simp add: number_test_def MaxUint32_def uint_word_of_int)

text \<open>When compiling succeeds.\<close>

definition compilable :: "rule \<Rightarrow> bool" where
  "compilable d \<longleftrightarrow> type_CanCgroup (r_type d) \<and> r_major d \<le> MaxUint32 \<and> r_minor d \<le> MaxUint32 \<and>
     set (r_perms d) \<subseteq> rwm"

lemma bpf_access_total: "set p \<subseteq> rwm \<Longrightarrow> \<exists>a. bpf_access b p = Inr a"
  by (induction p arbitrary: b) (auto simp: rwm_def)

lemma appendDevice_total:
  assumes "compilable d" and "0 \<le> blockID p"
  shows "\<exists>p'. appendDevice d p = Inr p' \<and> 0 \<le> blockID p'"
proof -
  obtain a where "bpf_access 0 (r_perms d) = Inr a"
    using bpf_access_total [of "r_perms d" 0] assms(1) by (auto simp: compilable_def)
  moreover obtain bt where "bpf_type (r_type d) = Inr bt"
    using assms(1) by (auto simp: compilable_def type_CanCgroup_def bpf_type_def dev_type_defs)
  ultimately show ?thesis
    using assms by (cases "hasWildCard p") (auto simp: appendDevice_def compilable_def Let_def)
qed

lemma DeviceFilter_compiles:
  assumes "\<forall>d \<in> set ds. compilable d"
  shows "\<exists>prog. DeviceFilter ds = Inr (prog, ''Apache'')"
proof -
  have "\<exists>p. res_fold appendDevice (rev ds) (filter_init \<lparr>insts = [], hasWildCard = False, blockID = 0\<rparr>) = Inr p
      \<and> 0 \<le> blockID p"
    by (rule res_fold_ok) (use assms appendDevice_total in \<open>auto simp: filter_init_def\<close>)
  then show ?thesis by (auto simp: DeviceFilter_def license_def)
qed

lemma DeviceFilter_decides:
  assumes "\<forall>d \<in> set ds. compilable d" and "\<forall>d \<in> set ds. small_numbers d"
  shows "\<exists>prog. DeviceFilter ds = Inr (prog, ''Apache'') \<and>
    (\<forall>addr q. request_ok q \<longrightarrow> run_filter prog addr q = Some (if last_match_decision ds q then 1 else 0))"
proof -
  obtain prog where prog: "DeviceFilter ds = Inr (prog, ''Apache'')" using DeviceFilter_compiles [OF assms(1)] by blast
  have "run_filter prog addr q = Some (if last_match_decision ds q then 1 else 0)" if "request_ok q" for addr q
    using DeviceFilter_run [OF prog that] assms(2) compiled_matches_small
      first_match_cong [of "rev ds" "compiled_matches q" "rule_matches q"]
    by (simp add: last_match_decision_def)
  with prog show ?thesis by blast
qed

section \<open>Properties\<close>

text \<open>C8: The device filter compiles and is correct: every list of rules whose types are a, b or c, whose permissions use only
  r, w and m and whose numbers are below 2^31 compiles, and running the program on any request the kernel can pass, at any
  context address, returns 1 when the last rule that matches the request allows it and 0 otherwise.\<close>

theorem device_filter_correct:
  assumes "\<forall>d \<in> set ds. compilable d" and "\<forall>d \<in> set ds. small_numbers d"
  shows "\<exists>prog. DeviceFilter ds = Inr (prog, ''Apache'') \<and>
    (\<forall>addr q. request_ok q \<longrightarrow> run_filter prog addr q = Some (if last_match_decision ds q then 1 else 0))"
  using assms by (rule DeviceFilter_decides)

definition ex_rules :: "rule list" where
  "ex_rules =
     [\<lparr>r_type = WildcardDevice, r_major = -1, r_minor = -1, r_perms = ''rwm'', r_allow = False\<rparr>,
      \<lparr>r_type = CharDevice, r_major = 1, r_minor = 3, r_perms = ''rw'', r_allow = True\<rparr>]"

definition ex_request :: dev_request where
  "ex_request = \<lparr>q_access_type = 0x20002, q_major = 1, q_minor = 3\<rparr>"

theorem device_filter_correct_witness:
  "\<exists>prog. DeviceFilter ex_rules = Inr (prog, ''Apache'') \<and> run_filter prog 4096 ex_request = Some 1"
proof -
  have "\<forall>d \<in> set ex_rules. compilable d" "\<forall>d \<in> set ex_rules. small_numbers d" by code_simp+
  moreover have "request_ok ex_request" "last_match_decision ex_rules ex_request" by code_simp+
  ultimately show ?thesis using device_filter_correct [of ex_rules] by auto
qed

text \<open>A rule whose major number is 2^31 or more compiles but can never match: the emitted 64-bit
  comparison sign-extends its 32-bit immediate, while the request's number is zero-extended. A list
  holding only such an allow rule refuses every request, also those the rule names.\<close>

theorem device_filter_large_major:
  assumes "DeviceFilter [d] = Inr (prog, lic)" and "2 ^ 31 \<le> r_major d" and "request_ok q"
  shows "run_filter prog addr q = Some 0"
proof -
  have "r_major d \<le> MaxUint32"
    using assms(1,2) by (auto simp: DeviceFilter_def appendDevice_def go_res filter_init_def split: sum.splits if_splits)
  then have "\<not> compiled_matches q d"
    using number_test_large [OF assms(2)] by (simp add: compiled_matches_def)
  with DeviceFilter_run [OF assms(1,3)] show ?thesis by simp
qed

theorem device_filter_large_major_witness:
  "\<exists>prog. DeviceFilter [\<lparr>r_type = CharDevice, r_major = 2 ^ 31, r_minor = 0, r_perms = ''r'', r_allow = True\<rparr>]
      = Inr (prog, ''Apache'') \<and>
    run_filter prog 4096 \<lparr>q_access_type = 0x20002, q_major = 0x80000000, q_minor = 0\<rparr> = Some 0"
proof -
  let ?d = "\<lparr>r_type = CharDevice, r_major = 2 ^ 31, r_minor = 0, r_perms = ''r'', r_allow = True\<rparr>"
  obtain prog where prog: "DeviceFilter [?d] = Inr (prog, ''Apache'')"
    by (simp add: DeviceFilter_def appendDevice_def bpf_type_def dev_type_defs MaxUint32_def
        filter_init_def Let_def license_def)
  have "request_ok \<lparr>q_access_type = 0x20002, q_major = 0x80000000, q_minor = 0\<rparr>" by code_simp
  with device_filter_large_major [OF prog] prog show ?thesis by auto
qed

end
