(* ===== verification/Config.thy ===== *)
theory Config
  imports Go_Strings Device_Rules
begin

text \<open>The container configuration of \<^verbatim>\<open>libcontainer/configs\<close>: namespaces as the code's list of
  type and path with its \<^verbatim>\<open>index\<close>, \<^verbatim>\<open>Add\<close>, \<^verbatim>\<open>Remove\<close>, \<^verbatim>\<open>Contains\<close>, \<^verbatim>\<open>PathOf\<close> and
  \<^verbatim>\<open>CloneFlags\<close>, the user-namespace id mappings with \<^verbatim>\<open>HostUID\<close> and \<^verbatim>\<open>HostGID\<close>, and the record of
  the configuration fields the modelled operations read. A Go \<^verbatim>\<open>nil\<close> slice or pointer is \<^verbatim>\<open>None\<close>
  where the code tells it from an empty one. Go's \<^verbatim>\<open>int\<close> is 64 bits wide: its sums are written with
  \<^verbatim>\<open>wrap64\<close>.\<close>

section \<open>Machine integers\<close>

definition wrap64 :: "int \<Rightarrow> int" where
  "wrap64 x = signed_take_bit 63 x"

definition int64 :: "int \<Rightarrow> bool" where
  "int64 x \<longleftrightarrow> - (2 ^ 63) \<le> x \<and> x < 2 ^ 63"

lemma wrap64_id [simp]: "int64 x \<Longrightarrow> wrap64 x = x"
  by (simp add: wrap64_def int64_def signed_take_bit_int_eq_self)

lemma wrap64_code [code]:
  "wrap64 x = (if -9223372036854775808 \<le> x \<and> x < 9223372036854775808 then x else signed_take_bit 63 x)"
  using wrap64_id [of x] by (simp add: int64_def wrap64_def)

lemma int64_wrap64 [simp]: "int64 (wrap64 x)"
  using signed_take_bit_int_less_exp [of 63 x] signed_take_bit_int_greater_eq_minus_exp [of 63 x]
  by (simp add: wrap64_def int64_def)

section \<open>Namespaces\<close>

type_synonym namespace_type = string

definition NEWNET :: namespace_type where "NEWNET = ''NEWNET''"
definition NEWPID :: namespace_type where "NEWPID = ''NEWPID''"
definition NEWNS :: namespace_type where "NEWNS = ''NEWNS''"
definition NEWUTS :: namespace_type where "NEWUTS = ''NEWUTS''"
definition NEWIPC :: namespace_type where "NEWIPC = ''NEWIPC''"
definition NEWUSER :: namespace_type where "NEWUSER = ''NEWUSER''"
definition NEWCGROUP :: namespace_type where "NEWCGROUP = ''NEWCGROUP''"

lemmas ns_type_defs = NEWNET_def NEWPID_def NEWNS_def NEWUTS_def NEWIPC_def NEWUSER_def NEWCGROUP_def

definition NsName :: "namespace_type \<Rightarrow> string" where
  "NsName ns =
    (if ns = NEWNET then ''net'' else if ns = NEWNS then ''mnt'' else if ns = NEWPID then ''pid''
     else if ns = NEWIPC then ''ipc'' else if ns = NEWUSER then ''user'' else if ns = NEWUTS then ''uts''
     else if ns = NEWCGROUP then ''cgroup'' else [])"

definition NamespaceTypes :: "namespace_type list" where
  "NamespaceTypes = [NEWUSER, NEWIPC, NEWUTS, NEWNET, NEWPID, NEWNS, NEWCGROUP]"

text \<open>The cache of supported namespaces is the state; \<^verbatim>\<open>stat_ok\<close> says whether \<^verbatim>\<open>os.Stat\<close> of a path
  succeeds.\<close>

definition IsNamespaceSupported ::
  "(string \<Rightarrow> bool) \<Rightarrow> namespace_type \<Rightarrow> (namespace_type \<rightharpoonup> bool) \<Rightarrow> bool \<times> (namespace_type \<rightharpoonup> bool)" where
  "IsNamespaceSupported stat_ok ns cache =
    (case cache ns of
       Some b \<Rightarrow> (b, cache)
     | None \<Rightarrow>
         if NsName ns = [] then (False, cache)
         else let supported = stat_ok (''/proc/self/ns/'' @ NsName ns) in (supported, cache(ns \<mapsto> supported)))"

record namespace =
  ns_Type :: namespace_type
  ns_Path :: string

type_synonym namespaces = "namespace list"

definition ns_GetPath :: "namespace \<Rightarrow> int \<Rightarrow> string" where
  "ns_GetPath n pid = ''/proc/'' @ Itoa pid @ ''/ns/'' @ NsName (ns_Type n)"

fun ns_index_from :: "int \<Rightarrow> namespaces \<Rightarrow> namespace_type \<Rightarrow> int" where
  "ns_index_from i [] t = -1"
| "ns_index_from i (n # ns) t = (if ns_Type n = t then i else ns_index_from (i + 1) ns t)"

definition ns_index :: "namespaces \<Rightarrow> namespace_type \<Rightarrow> int" where
  "ns_index ns t = ns_index_from 0 ns t"

definition ns_Contains :: "namespaces \<Rightarrow> namespace_type \<Rightarrow> bool" where
  "ns_Contains ns t \<longleftrightarrow> ns_index ns t \<noteq> -1"

definition ns_PathOf :: "namespaces \<Rightarrow> namespace_type \<Rightarrow> string" where
  "ns_PathOf ns t = (let i = ns_index ns t in if i = -1 then [] else ns_Path (ns ! nat i))"

definition ns_Add :: "namespace_type \<Rightarrow> string \<Rightarrow> namespaces \<Rightarrow> namespaces" where
  "ns_Add t path ns =
    (let i = ns_index ns t in
     if i = -1 then ns @ [\<lparr>ns_Type = t, ns_Path = path\<rparr>]
     else ns[nat i := (ns ! nat i)\<lparr>ns_Path := path\<rparr>])"

definition ns_Remove :: "namespace_type \<Rightarrow> namespaces \<Rightarrow> bool \<times> namespaces" where
  "ns_Remove t ns =
    (let i = ns_index ns t in
     if i = -1 then (False, ns) else (True, take (nat i) ns @ drop (nat i + 1) ns))"

definition CLONE_NEWNS :: "64 word" where "CLONE_NEWNS = 0x00020000"
definition CLONE_NEWCGROUP :: "64 word" where "CLONE_NEWCGROUP = 0x02000000"
definition CLONE_NEWUTS :: "64 word" where "CLONE_NEWUTS = 0x04000000"
definition CLONE_NEWIPC :: "64 word" where "CLONE_NEWIPC = 0x08000000"
definition CLONE_NEWUSER :: "64 word" where "CLONE_NEWUSER = 0x10000000"
definition CLONE_NEWPID :: "64 word" where "CLONE_NEWPID = 0x20000000"
definition CLONE_NEWNET :: "64 word" where "CLONE_NEWNET = 0x40000000"

lemmas clone_defs = CLONE_NEWNS_def CLONE_NEWCGROUP_def CLONE_NEWUTS_def CLONE_NEWIPC_def
  CLONE_NEWUSER_def CLONE_NEWPID_def CLONE_NEWNET_def

text \<open>A lookup in the Go map of a type that is not there gives 0.\<close>

definition namespaceInfo :: "namespace_type \<Rightarrow> 64 word" where
  "namespaceInfo t =
    (if t = NEWNET then CLONE_NEWNET else if t = NEWNS then CLONE_NEWNS else if t = NEWUSER then CLONE_NEWUSER
     else if t = NEWIPC then CLONE_NEWIPC else if t = NEWUTS then CLONE_NEWUTS else if t = NEWPID then CLONE_NEWPID
     else if t = NEWCGROUP then CLONE_NEWCGROUP else 0)"

definition ns_Syscall :: "namespace \<Rightarrow> 64 word" where
  "ns_Syscall n = namespaceInfo (ns_Type n)"

fun CloneFlags_loop :: "64 word \<Rightarrow> namespaces \<Rightarrow> 64 word" where
  "CloneFlags_loop flag [] = flag"
| "CloneFlags_loop flag (v # ns) =
    (if ns_Path v \<noteq> [] then CloneFlags_loop flag ns
     else CloneFlags_loop (flag OR namespaceInfo (ns_Type v)) ns)"

definition CloneFlags :: "namespaces \<Rightarrow> 64 word" where
  "CloneFlags ns = CloneFlags_loop 0 ns"

section \<open>The configuration record\<close>

record IDMap =
  im_ContainerID :: int
  im_HostID :: int
  im_Size :: int

record mount =
  m_Source :: string
  m_Destination :: string
  m_Device :: string
  m_Flags :: int
  m_PropagationFlags :: "int list"
  m_Data :: string
  m_Relabel :: string
  m_Extensions :: int

record network =
  net_Type :: string
  net_Name :: string
  net_HostInterfaceName :: string

record intel_rdt =
  rdt_L3CacheSchema :: string
  rdt_MemBwSchema :: string

record blockIODevice =
  bd_Major :: int
  bd_Minor :: int

record weightDevice = blockIODevice +
  wd_Weight :: nat
  wd_LeafWeight :: nat

record throttleDevice = blockIODevice +
  td_Rate :: nat

record hugepageLimit =
  hp_Pagesize :: string
  hp_Limit :: nat

record ifPrioMap =
  ip_Interface :: string
  ip_Priority :: int

type_synonym freezer_state = string

definition Undefined :: freezer_state where "Undefined = []"
definition Frozen :: freezer_state where "Frozen = ''FROZEN''"
definition Thawed :: freezer_state where "Thawed = ''THAWED''"

lemmas freezer_defs = Undefined_def Frozen_def Thawed_def

text \<open>The unsigned fields are naturals and the signed ones integers of the
  ranges their Go types have.\<close>

record resources =
  r_Devices :: "rule list"
  r_Memory :: int
  r_MemoryReservation :: int
  r_MemorySwap :: int
  r_KernelMemory :: int
  r_KernelMemoryTCP :: int
  r_CpuShares :: nat
  r_CpuQuota :: int
  r_CpuPeriod :: nat
  r_CpuRtRuntime :: int
  r_CpuRtPeriod :: nat
  r_CpusetCpus :: string
  r_CpusetMems :: string
  r_PidsLimit :: int
  r_BlkioWeight :: nat
  r_BlkioLeafWeight :: nat
  r_BlkioWeightDevice :: "weightDevice list"
  r_BlkioThrottleReadBpsDevice :: "throttleDevice list"
  r_BlkioThrottleWriteBpsDevice :: "throttleDevice list"
  r_BlkioThrottleReadIOPSDevice :: "throttleDevice list"
  r_BlkioThrottleWriteIOPSDevice :: "throttleDevice list"
  r_Freezer :: freezer_state
  r_HugetlbLimit :: "hugepageLimit list"
  r_OomKillDisable :: bool
  r_MemorySwappiness :: "nat option"
  r_NetPrioIfpriomap :: "ifPrioMap list"
  r_NetClsClassid :: nat
  r_CpuWeight :: nat
  r_Unified :: "(string \<times> string) list option"
  r_SkipDevices :: bool

text \<open>The \<^verbatim>\<open>Resources\<close> pointer of a Go cgroup is embedded; the code reads it without a nil test.\<close>

record cgroup =
  cg_Name :: string
  cg_Parent :: string
  cg_Path :: string
  cg_ScopePrefix :: string
  cg_Paths :: "(string \<times> string) list option"
  cg_Resources :: resources

definition empty_resources :: resources where
  "empty_resources =
    \<lparr>r_Devices = [], r_Memory = 0, r_MemoryReservation = 0, r_MemorySwap = 0, r_KernelMemory = 0,
     r_KernelMemoryTCP = 0, r_CpuShares = 0, r_CpuQuota = 0, r_CpuPeriod = 0, r_CpuRtRuntime = 0,
     r_CpuRtPeriod = 0, r_CpusetCpus = [], r_CpusetMems = [], r_PidsLimit = 0, r_BlkioWeight = 0,
     r_BlkioLeafWeight = 0, r_BlkioWeightDevice = [], r_BlkioThrottleReadBpsDevice = [],
     r_BlkioThrottleWriteBpsDevice = [], r_BlkioThrottleReadIOPSDevice = [],
     r_BlkioThrottleWriteIOPSDevice = [], r_Freezer = Undefined, r_HugetlbLimit = [],
     r_OomKillDisable = False, r_MemorySwappiness = None, r_NetPrioIfpriomap = [], r_NetClsClassid = 0,
     r_CpuWeight = 0, r_Unified = None, r_SkipDevices = False\<rparr>"

type_synonym hook_name = string

text \<open>A hook is a command, or a function that the client of the library supplies, known by a name. A timeout is a
  number of nanoseconds.\<close>

record command =
  cmd_Path :: string
  cmd_Args :: "string list"
  cmd_Env :: "string list"
  cmd_Dir :: string
  cmd_Timeout :: "int option"

datatype hook = CommandHook command | FuncHook string

definition Prestart :: hook_name where "Prestart = ''prestart''"
definition CreateRuntime :: hook_name where "CreateRuntime = ''createRuntime''"
definition CreateContainer :: hook_name where "CreateContainer = ''createContainer''"
definition StartContainer :: hook_name where "StartContainer = ''startContainer''"
definition Poststart :: hook_name where "Poststart = ''poststart''"
definition Poststop :: hook_name where "Poststop = ''poststop''"

record config =
  c_Rootfs :: string
  c_Mounts :: "mount list"
  c_Devices :: "device list"
  c_Hostname :: string
  c_Namespaces :: namespaces
  c_Networks :: "network list"
  c_Routes :: "string list"
  c_Cgroups :: cgroup
  c_ProcessLabel :: string
  c_UidMappings :: "IDMap list option"
  c_GidMappings :: "IDMap list option"
  c_MaskPaths :: "string list"
  c_ReadonlyPaths :: "string list"
  c_Sysctl :: "(string \<times> string) list"
  c_Hooks :: "(hook_name \<Rightarrow> hook list) option"
  c_Labels :: "string list"
  c_IntelRdt :: "intel_rdt option"
  c_RootlessEUID :: bool
  c_RootlessCgroups :: bool

datatype config_err = NoUidMappings | NoUserMapping | NoGidMappings | NoGroupMapping

fun hostIDFromMapping :: "int \<Rightarrow> IDMap list \<Rightarrow> int \<times> bool" where
  "hostIDFromMapping containerID [] = (-1, False)"
| "hostIDFromMapping containerID (m # ms) =
    (if im_ContainerID m \<le> containerID \<and>
        containerID \<le> wrap64 (wrap64 (im_ContainerID m + im_Size m) - 1)
     then (wrap64 (im_HostID m + wrap64 (containerID - im_ContainerID m)), True)
     else hostIDFromMapping containerID ms)"

definition HostUID :: "config \<Rightarrow> int \<Rightarrow> (config_err, int) res" where
  "HostUID c containerId =
    (if ns_Contains (c_Namespaces c) NEWUSER then
       (case c_UidMappings c of
          None \<Rightarrow> Inl NoUidMappings
        | Some ms \<Rightarrow> (case hostIDFromMapping containerId ms of
              (hid, found) \<Rightarrow> if \<not> found then Inl NoUserMapping else Inr hid))
     else Inr containerId)"

definition HostRootUID :: "config \<Rightarrow> (config_err, int) res" where
  "HostRootUID c = HostUID c 0"

definition HostGID :: "config \<Rightarrow> int \<Rightarrow> (config_err, int) res" where
  "HostGID c containerId =
    (if ns_Contains (c_Namespaces c) NEWUSER then
       (case c_GidMappings c of
          None \<Rightarrow> Inl NoGidMappings
        | Some ms \<Rightarrow> (case hostIDFromMapping containerId ms of
              (hid, found) \<Rightarrow> if \<not> found then Inl NoGroupMapping else Inr hid))
     else Inr containerId)"

definition HostRootGID :: "config \<Rightarrow> (config_err, int) res" where
  "HostRootGID c = HostGID c 0"

section \<open>Namespaces as a partial map\<close>

text \<open>The contract of a keyed table: its abstraction is a partial map that the operations update
  pointwise. The client lemmas are what the callers of the namespace list rely on.\<close>

locale keyed_table =
  fixes empty :: 't
    and add :: "'k \<Rightarrow> 'v \<Rightarrow> 't \<Rightarrow> 't"
    and remove :: "'k \<Rightarrow> 't \<Rightarrow> bool \<times> 't"
    and abs :: "'t \<Rightarrow> 'k \<rightharpoonup> 'v"
    and inv :: "'t \<Rightarrow> bool"
  assumes abs_empty: "abs empty = Map.empty" and inv_empty: "inv empty"
    and abs_add: "abs (add k v t) = (abs t)(k \<mapsto> v)" and inv_add: "inv t \<Longrightarrow> inv (add k v t)"
    and abs_remove: "inv t \<Longrightarrow> abs (snd (remove k t)) = (abs t)(k := None)"
    and inv_remove: "inv t \<Longrightarrow> inv (snd (remove k t))"
    and fst_remove: "inv t \<Longrightarrow> fst (remove k t) \<longleftrightarrow> k \<in> dom (abs t)"
begin

lemma inv_build: "inv t \<Longrightarrow> inv (fold (\<lambda>(k, v). add k v) kvs t)"
  by (induction kvs arbitrary: t) (auto simp: inv_add)

lemma abs_build: "abs (fold (\<lambda>(k, v). add k v) kvs t) = abs t ++ map_of (rev kvs)"
  by (induction kvs arbitrary: t) (auto simp: abs_add)

lemma remove_twice: "inv t \<Longrightarrow> \<not> fst (remove k (snd (remove k t)))"
  by (simp add: fst_remove abs_remove inv_remove)

end

definition ns_abs :: "namespaces \<Rightarrow> namespace_type \<rightharpoonup> string" where
  "ns_abs ns = map_of (map (\<lambda>n. (ns_Type n, ns_Path n)) ns)"

definition ns_unique :: "namespaces \<Rightarrow> bool" where
  "ns_unique ns \<longleftrightarrow> distinct (map ns_Type ns)"

lemma ns_index_from_shift: "0 \<le> i \<Longrightarrow>
  ns_index_from i ns t = (if ns_index_from 0 ns t = -1 then -1 else i + ns_index_from 0 ns t)"
  "0 \<le> i \<Longrightarrow> ns_index_from i ns t = -1 \<or> i \<le> ns_index_from i ns t"
proof (induction ns arbitrary: i)
  case (Cons n ns)
  { case 1 then show ?case using Cons(1) [of "i + 1"] Cons(1) [of 1] Cons(2) [of 0] by auto
  next case 2 then show ?case using Cons(2) [of "i + 1"] by auto }
qed auto

lemma ns_index_Nil [simp]: "ns_index [] t = -1"
  by (simp add: ns_index_def)

lemma ns_index_Cons [simp]:
  "ns_index (n # ns) t = (if ns_Type n = t then 0 else if ns_index ns t = -1 then -1 else 1 + ns_index ns t)"
  using ns_index_from_shift(1) [of 1 ns t] by (auto simp: ns_index_def)

lemma ns_index_range: "ns_index ns t = -1 \<or> 0 \<le> ns_index ns t \<and> ns_index ns t < int (length ns)"
  by (induction ns) auto

lemma ns_index_nonneg: "ns_index ns t \<noteq> -1 \<Longrightarrow> 0 \<le> ns_index ns t"
  using ns_index_range [of ns t] by auto

lemma nat_ns_index_Suc: "ns_index ns t \<noteq> -1 \<Longrightarrow> nat (1 + ns_index ns t) = Suc (nat (ns_index ns t))"
  using ns_index_nonneg [of ns t] by simp

lemma ns_abs_simps [simp]: "ns_abs [] = Map.empty" "ns_abs (n # ns) = (ns_abs ns)(ns_Type n \<mapsto> ns_Path n)"
  by (simp_all add: ns_abs_def)

lemma ns_Contains_abs: "ns_Contains ns t \<longleftrightarrow> t \<in> dom (ns_abs ns)"
proof (induction ns)
  case (Cons n ns) then show ?case using ns_index_range [of ns t] by (auto simp: ns_Contains_def)
qed (simp add: ns_Contains_def)

lemma ns_PathOf_abs: "ns_PathOf ns t = (case ns_abs ns t of None \<Rightarrow> [] | Some p \<Rightarrow> p)"
proof (induction ns)
  case (Cons n ns) then show ?case using ns_index_range [of ns t] by (auto simp: ns_PathOf_def Let_def nat_ns_index_Suc)
qed (simp add: ns_PathOf_def)

lemma ns_Add_Cons: "ns_Add t p (n # ns) = (if ns_Type n = t then n\<lparr>ns_Path := p\<rparr> # ns else n # ns_Add t p ns)"
  using ns_index_nonneg [of ns t] by (auto simp: ns_Add_def Let_def nat_ns_index_Suc)

lemma ns_Add_Nil: "ns_Add t p [] = [\<lparr>ns_Type = t, ns_Path = p\<rparr>]"
  by (simp add: ns_Add_def)

lemma snd_ns_Remove_Cons: "snd (ns_Remove t (n # ns)) = (if ns_Type n = t then ns else n # snd (ns_Remove t ns))"
  using ns_index_nonneg [of ns t] by (auto simp: ns_Remove_def Let_def nat_ns_index_Suc)

lemma snd_ns_Remove_Nil: "snd (ns_Remove t []) = []"
  by (simp add: ns_Remove_def)

lemma ns_abs_Add: "ns_abs (ns_Add t p ns) = (ns_abs ns)(t \<mapsto> p)"
  by (induction ns) (auto simp: ns_Add_Cons ns_Add_Nil)

lemma types_ns_Add: "map ns_Type (ns_Add t p ns) = map ns_Type ns @ (if t \<in> ns_Type ` set ns then [] else [t])"
  by (induction ns) (auto simp: ns_Add_Cons ns_Add_Nil)

lemma ns_unique_Add: "ns_unique ns \<Longrightarrow> ns_unique (ns_Add t p ns)"
  by (auto simp: ns_unique_def types_ns_Add)

lemma types_ns_Remove: "map ns_Type (snd (ns_Remove t ns)) = remove1 t (map ns_Type ns)"
  by (induction ns) (auto simp: snd_ns_Remove_Cons snd_ns_Remove_Nil)

lemma ns_unique_Remove: "ns_unique ns \<Longrightarrow> ns_unique (snd (ns_Remove t ns))"
  by (simp add: ns_unique_def types_ns_Remove)

lemma dom_ns_abs: "dom (ns_abs ns) = ns_Type ` set ns"
  by (simp add: ns_abs_def dom_map_of_conv_image_fst image_image)

lemma ns_abs_Remove: "ns_unique ns \<Longrightarrow> ns_abs (snd (ns_Remove t ns)) = (ns_abs ns)(t := None)"
proof (induction ns)
  case (Cons n ns)
  then have "ns_Type n \<notin> dom (ns_abs ns)" by (auto simp: ns_unique_def dom_ns_abs)
  with Cons show ?case by (auto simp: ns_unique_def snd_ns_Remove_Cons fun_upd_twist)
qed (simp add: snd_ns_Remove_Nil)

lemma fst_ns_Remove: "fst (ns_Remove t ns) \<longleftrightarrow> ns_Contains ns t"
  by (simp add: ns_Remove_def ns_Contains_def Let_def)

interpretation nst: keyed_table "[]" ns_Add ns_Remove ns_abs ns_unique
  by unfold_locales
    (simp_all add: ns_abs_Add ns_unique_Add ns_abs_Remove ns_unique_Remove fst_ns_Remove ns_Contains_abs ns_unique_def [of "[]"])

section \<open>Clone flags\<close>

lemma CloneFlags_loop_OR: "CloneFlags_loop f ns = f OR CloneFlags_loop 0 ns"
proof (induction ns arbitrary: f)
  case (Cons v ns)
  show ?case using Cons [of f] Cons [of "f OR namespaceInfo (ns_Type v)"] Cons [of "namespaceInfo (ns_Type v)"]
    by (simp add: or.assoc)
qed simp

lemma bit_CloneFlags:
  "bit (CloneFlags ns) k \<longleftrightarrow> (\<exists>v \<in> set ns. ns_Path v = [] \<and> bit (namespaceInfo (ns_Type v)) k)"
proof (induction ns)
  case (Cons v ns)
  then show ?case
    using CloneFlags_loop_OR [of "namespaceInfo (ns_Type v)" ns] by (simp add: CloneFlags_def bit_or_iff)
qed (simp add: CloneFlags_def)

definition ns_bit :: "namespace_type \<Rightarrow> nat" where
  "ns_bit t =
    (if t = NEWNS then 17 else if t = NEWCGROUP then 25 else if t = NEWUTS then 26 else if t = NEWIPC then 27
     else if t = NEWUSER then 28 else if t = NEWPID then 29 else 30)"

lemma namespaceInfo_exp: "t \<in> set NamespaceTypes \<Longrightarrow> namespaceInfo t = 2 ^ ns_bit t"
  by (auto simp: NamespaceTypes_def namespaceInfo_def ns_bit_def ns_type_defs clone_defs)

lemma namespaceInfo_0: "t \<notin> set NamespaceTypes \<Longrightarrow> namespaceInfo t = 0"
  by (auto simp: NamespaceTypes_def namespaceInfo_def)

lemma inj_ns_bit: "inj_on ns_bit (set NamespaceTypes)"
  by (auto simp: inj_on_def NamespaceTypes_def ns_bit_def ns_type_defs)

lemma ns_bit_less: "ns_bit t < 64"
  by (simp add: ns_bit_def)

lemma bit_namespaceInfo:
  assumes "t \<in> set NamespaceTypes"
  shows "bit (namespaceInfo u) (ns_bit t) \<longleftrightarrow> u = t"
proof (cases "u \<in> set NamespaceTypes")
  case True
  then show ?thesis
    using assms inj_ns_bit ns_bit_less [of t] by (auto simp: namespaceInfo_exp bit_exp_iff inj_on_def)
next
  case False
  then show ?thesis using assms by (auto simp: namespaceInfo_0)
qed

section \<open>Host ids\<close>

definition idmap_ok :: "IDMap \<Rightarrow> bool" where
  "idmap_ok m \<longleftrightarrow> 0 \<le> im_ContainerID m \<and> 0 \<le> im_HostID m \<and> 0 \<le> im_Size m \<and>
     im_ContainerID m + im_Size m < 2 ^ 63 \<and> im_HostID m + im_Size m < 2 ^ 63"

definition container_range :: "IDMap \<Rightarrow> int set" where
  "container_range m = {im_ContainerID m ..< im_ContainerID m + im_Size m}"

definition host_range :: "IDMap \<Rightarrow> int set" where
  "host_range m = {im_HostID m ..< im_HostID m + im_Size m}"

fun host_disjoint :: "IDMap list \<Rightarrow> bool" where
  "host_disjoint [] = True"
| "host_disjoint (m # ms) \<longleftrightarrow>
    list_all (\<lambda>n. im_HostID m + im_Size m \<le> im_HostID n \<or> im_HostID n + im_Size n \<le> im_HostID m) ms \<and> host_disjoint ms"

lemma idmap_test:
  assumes "idmap_ok m"
  shows "im_ContainerID m \<le> i \<and> i \<le> wrap64 (wrap64 (im_ContainerID m + im_Size m) - 1) \<longleftrightarrow> i \<in> container_range m"
proof -
  have "int64 (im_ContainerID m + im_Size m)" "int64 (im_ContainerID m + im_Size m - 1)"
    using assms by (auto simp: idmap_ok_def int64_def)
  then show ?thesis by (auto simp: container_range_def)
qed

lemma idmap_value:
  assumes "idmap_ok m" and "i \<in> container_range m"
  shows "wrap64 (im_HostID m + wrap64 (i - im_ContainerID m)) = im_HostID m + (i - im_ContainerID m)"
proof -
  have "int64 (i - im_ContainerID m)" "int64 (im_HostID m + (i - im_ContainerID m))"
    using assms by (auto simp: idmap_ok_def container_range_def int64_def)
  then show ?thesis by simp
qed

lemma hostIDFromMapping_find:
  assumes "list_all idmap_ok ms"
  shows "hostIDFromMapping i ms =
    (case find (\<lambda>m. i \<in> container_range m) ms of
       None \<Rightarrow> (-1, False) | Some m \<Rightarrow> (im_HostID m + (i - im_ContainerID m), True))"
  using assms by (induction ms) (simp_all add: idmap_test idmap_value)

lemma hostIDFromMapping_found:
  assumes "list_all idmap_ok ms" and "hostIDFromMapping i ms = (h, True)"
  obtains m where "m \<in> set ms" "i \<in> container_range m" "h = im_HostID m + (i - im_ContainerID m)" "h \<in> host_range m"
proof -
  obtain m where m: "find (\<lambda>m. i \<in> container_range m) ms = Some m" "h = im_HostID m + (i - im_ContainerID m)"
    using assms by (auto simp: hostIDFromMapping_find split: option.splits)
  then have "m \<in> set ms" "i \<in> container_range m" by (auto simp: find_Some_iff)
  then show thesis using m that by (auto simp: container_range_def host_range_def)
qed

lemma hostIDFromMapping_inj:
  assumes "list_all idmap_ok ms" and "host_disjoint ms"
    and "hostIDFromMapping i ms = (h, True)" and "hostIDFromMapping j ms = (h, True)"
  shows "i = j"
  using assms
proof (induction ms)
  case (Cons m ms)
  have no_clash: False if "x \<in> container_range m" "h = im_HostID m + (x - im_ContainerID m)"
    and y: "hostIDFromMapping y ms = (h, True)" for x y
  proof -
    obtain n where "n \<in> set ms" "h \<in> host_range n"
      using hostIDFromMapping_found [OF _ y] Cons.prems(1) by auto
    then show False using Cons.prems(2) that(1,2) by (auto simp: list_all_iff host_range_def container_range_def)
  qed
  show ?case using Cons.prems Cons.IH no_clash by (auto simp: idmap_test idmap_value split: if_splits)
qed simp

section \<open>Properties\<close>

text \<open>C16: The namespace list refines a partial map from namespace type to path: Add updates one entry,
  Remove deletes one and reports whether it was there, Contains and PathOf are lookups, and the list
  keeps at most one entry per type.\<close>

theorem namespaces_refine_map:
  assumes "ns_unique ns"
  shows "ns_abs (ns_Add t p ns) = (ns_abs ns)(t \<mapsto> p) \<and> ns_unique (ns_Add t p ns) \<and>
    ns_abs (snd (ns_Remove t ns)) = (ns_abs ns)(t := None) \<and> ns_unique (snd (ns_Remove t ns)) \<and>
    (fst (ns_Remove t ns) \<longleftrightarrow> t \<in> dom (ns_abs ns)) \<and>
    (ns_Contains ns t \<longleftrightarrow> t \<in> dom (ns_abs ns)) \<and>
    ns_PathOf ns t = (case ns_abs ns t of None \<Rightarrow> [] | Some q \<Rightarrow> q)"
  by (simp add: assms nst.abs_add nst.inv_add nst.abs_remove nst.inv_remove nst.fst_remove
      ns_Contains_abs ns_PathOf_abs)

theorem namespaces_refine_map_witness:
  "ns_PathOf (ns_Add NEWNET ''/n'' [\<lparr>ns_Type = NEWPID, ns_Path = []\<rparr>]) NEWNET = ''/n'' \<and>
   \<not> ns_Contains (snd (ns_Remove NEWPID [\<lparr>ns_Type = NEWPID, ns_Path = []\<rparr>])) NEWPID"
proof -
  have u: "ns_unique [\<lparr>ns_Type = NEWPID, ns_Path = []\<rparr>]" by code_simp
  show ?thesis
    using namespaces_refine_map [OF u, of NEWNET "''/n''"] namespaces_refine_map [OF u, of NEWPID]
      namespaces_refine_map [of "ns_Add NEWNET ''/n'' [\<lparr>ns_Type = NEWPID, ns_Path = []\<rparr>]" NEWNET]
    by (auto simp: ns_Contains_abs)
qed



text \<open>C15: With a user namespace whose mappings are in range and have disjoint host ranges, two container
  users never share a host user, and a translated id lies in the host range of a mapping that holds
  the container id.\<close>

theorem host_uid_injective:
  assumes "ns_Contains (c_Namespaces c) NEWUSER" and "c_UidMappings c = Some ms"
    and "list_all idmap_ok ms" and "host_disjoint ms" and "HostUID c i = Inr h"
  shows "(\<exists>m \<in> set ms. i \<in> container_range m \<and> h \<in> host_range m) \<and> (\<forall>j. HostUID c j = Inr h \<longrightarrow> j = i)"
proof -
  have found: "hostIDFromMapping j ms = (h, True)" if "HostUID c j = Inr h" for j
    using that assms(1,2) by (auto simp: HostUID_def split: prod.splits if_splits)
  show ?thesis
    using hostIDFromMapping_found [OF assms(3) found [OF assms(5)]] hostIDFromMapping_inj [OF assms(3,4)] found assms(5)
    by metis
qed

definition ex_config :: config where
  "ex_config =
    \<lparr>c_Rootfs = ''/rootfs'', c_Mounts = [], c_Devices = [], c_Hostname = [],
     c_Namespaces = [\<lparr>ns_Type = NEWUSER, ns_Path = []\<rparr>, \<lparr>ns_Type = NEWPID, ns_Path = []\<rparr>],
     c_Networks = [], c_Routes = [],
     c_Cgroups = \<lparr>cg_Name = [], cg_Parent = [], cg_Path = ''/c'', cg_ScopePrefix = [], cg_Paths = None, cg_Resources = empty_resources\<rparr>,
     c_ProcessLabel = [],
     c_UidMappings = Some [\<lparr>im_ContainerID = 0, im_HostID = 1000, im_Size = 1\<rparr>, \<lparr>im_ContainerID = 1, im_HostID = 100000, im_Size = 65536\<rparr>],
     c_GidMappings = Some [\<lparr>im_ContainerID = 0, im_HostID = 1000, im_Size = 1\<rparr>],
     c_MaskPaths = [], c_ReadonlyPaths = [], c_Sysctl = [], c_Hooks = None, c_Labels = [], c_IntelRdt = None,
     c_RootlessEUID = False, c_RootlessCgroups = False\<rparr>"

theorem host_uid_injective_witness:
  "HostUID ex_config 5 = Inr 100004 \<and> HostUID ex_config 6 \<noteq> Inr 100004"
proof -
  have h: "HostUID ex_config 5 = Inr 100004"
    by (simp add: HostUID_def ex_config_def ns_Contains_def ns_type_defs int64_def)
  have "ns_Contains (c_Namespaces ex_config) NEWUSER" by code_simp
  moreover obtain ms where ms: "c_UidMappings ex_config = Some ms" "list_all idmap_ok ms" "host_disjoint ms"
    by (simp add: ex_config_def idmap_ok_def)
  ultimately show ?thesis using host_uid_injective [OF _ ms h] h by force
qed

end
