(* ===== verification/Go_Paths.thy ===== *)
theory Go_Paths
  imports Go_Strings "HOL-Library.Sublist"
begin

text \<open>What the modelled code uses of Go's \<^verbatim>\<open>path/filepath\<close> on Linux (\<^verbatim>\<open>Clean\<close>, \<^verbatim>\<open>Join\<close>, \<^verbatim>\<open>IsAbs\<close>,
  \<^verbatim>\<open>Dir\<close>, \<^verbatim>\<open>Base\<close> and \<^verbatim>\<open>Rel\<close> from the root), and the path and label helpers of
  \<^verbatim>\<open>libcontainer/utils/utils.go\<close> built on them. Cleaning is lexical: the path is read component by
  component over a stack.\<close>

section \<open>Lexical path processing\<close>

abbreviation slash :: char where "slash \<equiv> CHR ''/''"

text \<open>The stack holds the components kept so far, last one first.\<close>

fun clean_step :: "bool \<Rightarrow> string \<Rightarrow> string list \<Rightarrow> string list" where
  "clean_step rooted c stack =
    (if c = [] \<or> c = ''.'' then stack
     else if c = ''..'' then
       (case stack of
          [] \<Rightarrow> if rooted then [] else [c]
        | a # as \<Rightarrow> if a = ''..'' then c # stack else as)
     else c # stack)"

definition clean_stack :: "bool \<Rightarrow> string list \<Rightarrow> string list \<Rightarrow> string list" where
  "clean_stack rooted cs stack = fold (clean_step rooted) cs stack"

definition IsAbs :: "string \<Rightarrow> bool" where
  "IsAbs p \<longleftrightarrow> p \<noteq> [] \<and> hd p = slash"

definition comps :: "string \<Rightarrow> string list" where
  "comps p = rev (clean_stack (IsAbs p) (split_on slash p) [])"

definition Clean :: "string \<Rightarrow> string" where
  "Clean p =
    (let body = join_with slash (comps p) in
     if IsAbs p then slash # body else if body = [] then ''.'' else body)"

fun Join :: "string list \<Rightarrow> string" where
  "Join [] = []"
| "Join (e # es) = (if e \<noteq> [] then Clean (join_with slash (e # es)) else Join es)"

definition Dir :: "string \<Rightarrow> string" where
  "Dir p = Clean (rev (dropWhile (\<lambda>c. c \<noteq> slash) (rev p)))"

definition Base :: "string \<Rightarrow> string" where
  "Base p =
    (if p = [] then ''.''
     else let q = dropWhile (\<lambda>c. c = slash) (rev p) in
       if q = [] then ''/'' else rev (takeWhile (\<lambda>c. c \<noteq> slash) q))"

text \<open>\<^verbatim>\<open>filepath.Rel("/", p)\<close> of an absolute path\<close>

definition Rel_root :: "string \<Rightarrow> string" where
  "Rel_root p = (if Clean p = ''/'' then ''.'' else tl (Clean p))"

text \<open>\<^verbatim>\<open>filepath.Rel\<close>: the common leading components are dropped, what is left of the base is climbed. The base
  must not have parent components that the target does not share.\<close>

fun drop_common :: "'a list \<Rightarrow> 'a list \<Rightarrow> 'a list \<times> 'a list" where
  "drop_common (x # xs) (y # ys) = (if x = y then drop_common xs ys else (x # xs, y # ys))"
| "drop_common xs ys = (xs, ys)"

definition Rel :: "string \<Rightarrow> string \<Rightarrow> (go_err, string) res" where
  "Rel base targ =
    (if Clean targ = Clean base then Inr ''.''
     else if IsAbs base \<noteq> IsAbs targ then Inl (ErrText (''Rel: cannot make '' @ targ @ '' relative to '' @ base))
     else case drop_common (comps base) (if Clean targ = ''.'' then [''.''] else comps targ) of
       (b, t) \<Rightarrow>
         if b \<noteq> [] \<and> hd b = ''..'' \<and> t \<noteq> [] then Inl (ErrText (''Rel: cannot make '' @ targ @ '' relative to '' @ base))
         else Inr (join_with slash (replicate (length b) ''..'' @ t)))"

section \<open>The helpers of the utils package\<close>

definition CleanPath :: "string \<Rightarrow> string" where
  "CleanPath path =
    (if path = [] then []
     else let p = Clean path;
              q = (if \<not> IsAbs p then Rel_root (Clean (slash # p)) else p)
          in Clean q)"

fun SearchLabels :: "string list \<Rightarrow> string \<Rightarrow> string" where
  "SearchLabels [] query = []"
| "SearchLabels (l # ls) query =
    (case splitn2 CHR ''='' l of
       [k, v] \<Rightarrow> if k = query then v else SearchLabels ls query
     | _ \<Rightarrow> SearchLabels ls query)"

text \<open>The annotations map is kept in the order of its insertions, later ones overriding.\<close>

fun Annotations_loop :: "string list \<Rightarrow> string \<Rightarrow> (string \<rightharpoonup> string) \<Rightarrow> string \<times> (string \<rightharpoonup> string)" where
  "Annotations_loop [] bundle ann = (bundle, ann)"
| "Annotations_loop (l # ls) bundle ann =
    (case splitn2 CHR ''='' l of
       [k, v] \<Rightarrow> if k = ''bundle'' then Annotations_loop ls v ann else Annotations_loop ls bundle (ann(k \<mapsto> v))
     | _ \<Rightarrow> Annotations_loop ls bundle ann)"

definition Annotations :: "string list \<Rightarrow> string \<times> (string \<rightharpoonup> string)" where
  "Annotations labels = Annotations_loop labels [] Map.empty"

text \<open>\<^verbatim>\<open>unix.WaitStatus\<close> keeps the signal in its low seven bits and the exit code in the next byte; 0x7f
  marks a stopped process.\<close>

definition ws_signal :: "32 word \<Rightarrow> int" where
  "ws_signal s = uint (s AND 0x7F)"

definition ws_Signaled :: "32 word \<Rightarrow> bool" where
  "ws_Signaled s \<longleftrightarrow> s AND 0x7F \<noteq> 0x7F \<and> s AND 0x7F \<noteq> 0"

definition ws_ExitStatus :: "32 word \<Rightarrow> int" where
  "ws_ExitStatus s = (if s AND 0x7F = 0 then uint (drop_bit 8 s AND 0xFF) else -1)"

definition exitSignalOffset :: int where "exitSignalOffset = 128"

definition ExitStatus :: "32 word \<Rightarrow> int" where
  "ExitStatus s = (if ws_Signaled s then exitSignalOffset + ws_signal s else ws_ExitStatus s)"

section \<open>Clean components\<close>

definition plain :: "string \<Rightarrow> bool" where
  "plain c \<longleftrightarrow> c \<noteq> [] \<and> c \<noteq> ''.'' \<and> c \<noteq> ''..'' \<and> slash \<notin> set c"

lemma clean_stack_simps [simp]:
  "clean_stack r [] st = st" "clean_stack r (c # cs) st = clean_stack r cs (clean_step r c st)"
  "clean_stack r (cs @ ds) st = clean_stack r ds (clean_stack r cs st)"
  by (simp_all add: clean_stack_def)

lemma clean_step_skip [simp]: "clean_step r [] st = st" "clean_step r ''.'' st = st"
  by simp_all

lemma clean_step_plain: "plain c \<Longrightarrow> clean_step r c st = c # st"
  by (simp add: plain_def)

lemma clean_stack_plain: "list_all plain cs \<Longrightarrow> clean_stack r cs st = rev cs @ st"
  by (induction cs arbitrary: st) (simp_all add: clean_step_plain del: clean_step.simps)

declare clean_step.simps [simp del]

lemma split_on_no_slash: "c \<in> set (split_on d s) \<Longrightarrow> d \<notin> set c"
  by (induction s arbitrary: c) (auto split: list.splits if_splits)

lemma split_on_append_sep: "split_on d (s @ d # t) = split_on d s @ split_on d t"
  by (induction s) (auto split: list.splits)

text \<open>The stack of a rooted path holds plain components only; that of a relative path may have
  parent components below them.\<close>

definition ups :: "string list \<Rightarrow> bool" where
  "ups cs \<longleftrightarrow> list_all (\<lambda>c. c = ''..'') cs"

definition stack_ok :: "bool \<Rightarrow> string list \<Rightarrow> bool" where
  "stack_ok r st \<longleftrightarrow> (\<exists>ps us. st = ps @ us \<and> list_all plain ps \<and> ups us \<and> (r \<longrightarrow> us = []))"

lemma stack_ok_step:
  assumes "stack_ok r st" and "slash \<notin> set c"
  shows "stack_ok r (clean_step r c st)"
proof -
  obtain ps us where st: "st = ps @ us" "list_all plain ps" "ups us" "r \<longrightarrow> us = []"
    using assms(1) by (auto simp: stack_ok_def)
  consider "c = [] \<or> c = ''.''" | "c = ''..''" "ps = []" | "c = ''..''" "ps \<noteq> []" | "plain c"
    using assms(2) by (auto simp: plain_def)
  then show ?thesis
  proof cases
    case 1 then show ?thesis using assms(1) by (auto simp: clean_step.simps)
  next
    case 2
    then have "clean_step r c st = (if r then [] else ''..'' # us)"
      using st by (cases us) (auto simp: clean_step.simps ups_def)
    moreover have "stack_ok False (''..'' # us)"
      using st(3) unfolding stack_ok_def by (intro exI [of _ "[]"] exI [of _ "''..'' # us"]) (simp add: ups_def)
    moreover have "stack_ok True []" by (simp add: stack_ok_def ups_def)
    ultimately show ?thesis by simp
  next
    case 3
    then obtain q qs where "ps = q # qs" by (cases ps) auto
    then show ?thesis using st 3 by (auto simp: clean_step.simps stack_ok_def plain_def [of q])
  next
    case 4
    then have "clean_step r c st = (c # ps) @ us" using st by (simp add: clean_step_plain)
    moreover have "list_all plain (c # ps)" using st(2) 4 by simp
    ultimately show ?thesis using st(3,4) unfolding stack_ok_def by blast
  qed
qed

lemma stack_ok_stack:
  "stack_ok r st \<Longrightarrow> \<forall>c \<in> set cs. slash \<notin> set c \<Longrightarrow> stack_ok r (clean_stack r cs st)"
  by (induction cs arbitrary: st) (simp_all add: stack_ok_step)

lemma clean_stack_ups: "ups us \<Longrightarrow> clean_stack False us (replicate n ''..'') = replicate (n + length us) ''..''"
proof (induction us arbitrary: n)
  case (Cons u us)
  have "clean_step False u (replicate n ''..'') = replicate (Suc n) ''..''"
    using Cons.prems by (cases n) (simp_all add: clean_step.simps ups_def)
  then show ?case using Cons.IH [of "Suc n"] Cons.prems by (simp add: ups_def)
qed simp

lemma ups_replicate: "ups us \<Longrightarrow> us = replicate (length us) ''..''"
  by (induction us) (auto simp: ups_def)

lemma clean_stack_fixed:
  assumes "stack_ok r st"
  shows "clean_stack r (rev st) [] = st"
proof -
  obtain ps us where st: "st = ps @ us" "list_all plain ps" "ups us" "r \<longrightarrow> us = []"
    using assms by (auto simp: stack_ok_def)
  have "ups (rev us)" using st(3) by (simp add: ups_def)
  then have "clean_stack r (rev us) [] = us"
    using clean_stack_ups [of "rev us" 0] st(4) ups_replicate [OF st(3)] by (cases r) auto
  then show ?thesis using st clean_stack_plain [of "rev ps" r us] by simp
qed

lemma stack_ok_comps: "stack_ok (IsAbs p) (rev (comps p))"
  unfolding comps_def using stack_ok_stack [of "IsAbs p" "[]" "split_on slash p"] split_on_no_slash [of _ slash p]
  by (auto simp: stack_ok_def ups_def)

lemma stack_ok_members: "stack_ok r st \<Longrightarrow> c \<in> set st \<Longrightarrow> plain c \<or> c = ''..''"
  by (auto simp: stack_ok_def ups_def list_all_iff)

lemma comps_members: "c \<in> set (comps p) \<Longrightarrow> plain c \<or> c = ''..''"
  using stack_ok_members [OF stack_ok_comps, of c p] by simp

lemma comps_no_slash: "c \<in> set (comps p) \<Longrightarrow> slash \<notin> set c"
  using comps_members [of c p] by (auto simp: plain_def)

lemma comps_nonempty: "c \<in> set (comps p) \<Longrightarrow> c \<noteq> []"
  using comps_members [of c p] by (auto simp: plain_def)

lemma hd_join_with: "cs \<noteq> [] \<Longrightarrow> hd cs \<noteq> [] \<Longrightarrow> join_with d cs \<noteq> [] \<and> hd (join_with d cs) = hd (hd cs)"
  by (cases cs; cases "tl cs") auto

lemma IsAbs_join: "\<forall>c \<in> set cs. slash \<notin> set c \<and> c \<noteq> [] \<Longrightarrow> \<not> IsAbs (join_with slash cs)"
proof (cases cs)
  case (Cons a as)
  assume "\<forall>c \<in> set cs. slash \<notin> set c \<and> c \<noteq> []"
  then have "a \<noteq> []" "hd a \<noteq> slash" using Cons by (auto dest: hd_in_set)
  then show ?thesis using hd_join_with [of cs slash] Cons by (simp add: IsAbs_def)
qed (simp add: IsAbs_def)

lemma IsAbs_Clean [simp]: "IsAbs (Clean p) = IsAbs p"
  using IsAbs_join [of "comps p"] comps_no_slash [of _ p] comps_nonempty [of _ p]
  by (auto simp: Clean_def Let_def IsAbs_def [of "_ # _"])

lemma split_Clean: "\<exists>pre. set pre \<subseteq> {[], ''.''} \<and> split_on slash (Clean p) = pre @ comps p"
proof (cases "comps p = []")
  case True
  then show ?thesis by (auto simp: Clean_def)
next
  case False
  then have "split_on slash (join_with slash (comps p)) = comps p"
    by (simp add: split_on_join_with comps_no_slash)
  moreover have "join_with slash (comps p) \<noteq> []"
    using hd_join_with [OF False] comps_nonempty [of "hd (comps p)" p] False by simp
  ultimately show ?thesis by (auto simp: Clean_def Let_def intro: exI [of _ "[[]]"])
qed

lemma clean_stack_skips: "set pre \<subseteq> {[], ''.''} \<Longrightarrow> clean_stack r pre st = st"
  by (induction pre) (auto simp: )

lemma comps_Clean [simp]: "comps (Clean p) = comps p"
proof -
  obtain pre where pre: "set pre \<subseteq> {[], ''.''}" "split_on slash (Clean p) = pre @ comps p"
    using split_Clean by blast
  then show ?thesis
    using clean_stack_fixed [OF stack_ok_comps, of p] clean_stack_skips [OF pre(1)] by (simp add: comps_def [of "Clean p"])
qed

lemma Clean_idem: "Clean (Clean p) = Clean p"
  by (simp only: Clean_def [of "Clean p"] comps_Clean IsAbs_Clean) (simp only: Clean_def)

section \<open>Properties\<close>

lemma plain_comps_rooted: "IsAbs p \<Longrightarrow> list_all plain (comps p)"
  using stack_ok_comps [of p] by (auto simp: stack_ok_def list_all_iff)

lemma comps_join_plain:
  assumes "list_all plain cs"
  shows "comps (join_with slash cs) = cs" "\<not> IsAbs (join_with slash cs)"
proof -
  have mem: "\<forall>c \<in> set cs. slash \<notin> set c \<and> c \<noteq> []" using assms by (auto simp: list_all_iff plain_def)
  then show abs: "\<not> IsAbs (join_with slash cs)" by (rule IsAbs_join)
  show "comps (join_with slash cs) = cs"
  proof (cases "cs = []")
    case True then show ?thesis by (simp add: comps_def)
  next
    case False
    then have "split_on slash (join_with slash cs) = cs" using mem by (intro split_on_join_with) auto
    then show ?thesis using clean_stack_plain [OF assms, of False "[]"] abs by (simp add: comps_def)
  qed
qed

lemma Clean_cong: "IsAbs p = IsAbs q \<Longrightarrow> comps p = comps q \<Longrightarrow> Clean p = Clean q"
  by (simp add: Clean_def)

lemma Clean_rooted: "IsAbs p \<Longrightarrow> Clean p = slash # join_with slash (comps p)"
  by (simp add: Clean_def)

lemma join_with_eq_Nil: "list_all plain cs \<Longrightarrow> join_with d cs = [] \<longleftrightarrow> cs = []"
  using hd_join_with [of cs d] by (cases cs) (auto simp: plain_def)

lemma Rel_root_rooted:
  assumes "IsAbs p"
  shows "comps (Rel_root p) = comps p" "\<not> IsAbs (Rel_root p)"
proof -
  have pl: "list_all plain (comps p)" by (rule plain_comps_rooted [OF assms])
  have "comps ''.'' = []" "\<not> IsAbs ''.''" by (simp_all add: comps_def IsAbs_def)
  then show "comps (Rel_root p) = comps p" "\<not> IsAbs (Rel_root p)"
    using comps_join_plain [OF pl] join_with_eq_Nil [OF pl]
    by (auto simp: Rel_root_def Clean_rooted [OF assms])
qed

text \<open>The rooted reading of a path decides CleanPath: it has the components of the path read from
  the root.\<close>

lemma CleanPath_parts:
  assumes "p \<noteq> []"
  shows "IsAbs (CleanPath p) = IsAbs p" "comps (CleanPath p) = comps (if IsAbs p then p else slash # Clean p)"
    "Clean (CleanPath p) = CleanPath p"
proof -
  have abs: "IsAbs (Clean (slash # Clean p))" by (simp add: IsAbs_def [of "_ # _"])
  show "IsAbs (CleanPath p) = IsAbs p" "comps (CleanPath p) = comps (if IsAbs p then p else slash # Clean p)"
    "Clean (CleanPath p) = CleanPath p"
    using assms Rel_root_rooted [OF abs] by (auto simp: CleanPath_def Let_def Clean_idem)
qed

lemma plain_comps_CleanPath: "list_all plain (comps (CleanPath p))"
proof (cases "p = []")
  case False
  then show ?thesis
    using plain_comps_rooted [of p] plain_comps_rooted [of "slash # Clean p"]
    by (simp add: CleanPath_parts IsAbs_def [of "_ # _"])
qed (simp add: CleanPath_def comps_def)

lemma comps_slash_plain: "list_all plain (comps q) \<Longrightarrow> comps (slash # Clean q) = comps q"
proof -
  assume pl: "list_all plain (comps q)"
  obtain pre where pre: "set pre \<subseteq> {[], ''.''}" "split_on slash (Clean q) = pre @ comps q"
    using split_Clean by blast
  then show ?thesis
    using clean_stack_plain [OF pl, of True "[]"] clean_stack_skips [OF pre(1)]
    by (simp add: comps_def [of "slash # Clean q"] IsAbs_def)
qed

lemma CleanPath_idem: "CleanPath (CleanPath p) = CleanPath p"
proof (cases "p = []")
  case False
  let ?c = "CleanPath p"
  have ne: "?c \<noteq> []" using CleanPath_parts(3) [OF False] by (auto simp: Clean_def comps_def IsAbs_def)
  have "comps (CleanPath ?c) = comps ?c"
    using CleanPath_parts(2) [OF ne] comps_slash_plain [OF plain_comps_CleanPath, of p] by simp
  then have "Clean (CleanPath ?c) = Clean ?c" by (intro Clean_cong) (simp_all add: CleanPath_parts(1) [OF ne])
  then show ?thesis by (simp add: CleanPath_parts(3) [OF ne] CleanPath_parts(3) [OF False])
qed (simp add: CleanPath_def)

lemma split_CleanPath: "\<exists>pre. set pre \<subseteq> {[], ''.''} \<and> split_on slash (CleanPath p) = pre @ comps (CleanPath p)"
proof (cases "p = []")
  case False then show ?thesis using split_Clean [of "CleanPath p"] by (simp add: CleanPath_parts(3))
qed (auto simp: CleanPath_def comps_def)

text \<open>Components that are plain and written in clean form are appended when the path is joined to a rooted one.\<close>

definition joinable :: "string \<Rightarrow> bool" where
  "joinable p \<longleftrightarrow> list_all plain (comps p) \<and> (p = [] \<or> Clean p = p)"

lemma joinable_CleanPath [simp]: "joinable (CleanPath p)"
  by (cases "p = []") (simp_all add: joinable_def plain_comps_CleanPath CleanPath_parts(3), simp add: CleanPath_def)

lemma joinable_Clean_rooted: "IsAbs p \<Longrightarrow> joinable (Clean p)"
  by (simp add: joinable_def plain_comps_rooted Clean_idem)

lemma split_joinable: "joinable p \<Longrightarrow> \<exists>pre. set pre \<subseteq> {[], ''.''} \<and> split_on slash p = pre @ comps p"
  using split_Clean [of p] by (auto simp: joinable_def comps_def)

lemma clean_stack_joinable: "joinable p \<Longrightarrow> clean_stack r (split_on slash p) st = rev (comps p) @ st"
  using split_joinable [of p] clean_stack_plain [of "comps p" r st] clean_stack_skips
  by (auto simp: joinable_def)

lemma joinable_Join:
  assumes "joinable a" and "joinable b"
  shows "joinable (Join [a, b])"
proof (cases "a = []")
  case True
  then show ?thesis using assms(2) by (cases "b = []") (auto simp: joinable_def)
next
  case False
  have "IsAbs (a @ slash # b) = IsAbs a" using False by (simp add: IsAbs_def)
  then have "comps (a @ slash # b) = comps a @ comps b"
    using clean_stack_joinable [OF assms(1), of "IsAbs a" "[]"] clean_stack_joinable [OF assms(2), of "IsAbs a" "rev (comps a)"]
    by (simp add: comps_def [of "a @ slash # b"] split_on_append_sep)
  then show ?thesis using False assms by (simp add: joinable_def Clean_idem)
qed

lemma joinable_Dir: "IsAbs p \<Longrightarrow> joinable (Dir p)"
proof -
  assume p: "IsAbs p"
  let ?d = "rev (dropWhile (\<lambda>c. c \<noteq> slash) (rev p))"
  obtain q where q: "p = slash # q" using p by (cases p) (auto simp: IsAbs_def)
  have "p = ?d @ rev (takeWhile (\<lambda>c. c \<noteq> slash) (rev p))" by (metis rev_append rev_rev_ident takeWhile_dropWhile_id)
  moreover have "?d \<noteq> []" using q by (auto simp: dropWhile_eq_Nil_conv)
  ultimately have "IsAbs ?d" using q unfolding IsAbs_def by (metis hd_append2 list.sel(1))
  then show ?thesis unfolding Dir_def by (rule joinable_Clean_rooted)
qed

lemma comps_Join_rooted:
  assumes "IsAbs root" and "joinable p"
  shows "comps (Join [root, p]) = comps root @ comps p" "IsAbs (Join [root, p])"
proof -
  have root: "root \<noteq> []" and abs: "IsAbs (root @ slash # p)" using assms(1) by (simp_all add: IsAbs_def)
  show "comps (Join [root, p]) = comps root @ comps p"
    using root abs assms clean_stack_joinable [OF assms(2), of True "rev (comps root)"]
    by (simp add: comps_def [of "root @ slash # p"] split_on_append_sep) (simp add: comps_def)
  show "IsAbs (Join [root, p])" using root abs by simp
qed

lemma comps_Join3_rooted:
  assumes "IsAbs root" and "joinable p" and "joinable q"
  shows "comps (Join [root, p, q]) = comps root @ comps p @ comps q"
proof -
  have root: "root \<noteq> []" and abs: "IsAbs (root @ slash # p @ slash # q)" using assms(1) by (simp_all add: IsAbs_def)
  have "comps (Join [root, p, q]) = comps (root @ slash # p @ slash # q)" using root by simp
  also have "\<dots> = rev (clean_stack True (split_on slash q) (clean_stack True (split_on slash p) (rev (comps root))))"
    using abs assms(1) by (simp add: comps_def split_on_append_sep)
  also have "\<dots> = comps root @ comps p @ comps q" by (simp add: clean_stack_joinable [OF assms(2)] clean_stack_joinable [OF assms(3)])
  finally show ?thesis .
qed

end
