(* ===== verification/Config_Validate.thy ===== *)
theory Config_Validate
  imports Config Go_Paths
begin

text \<open>The validator of container configurations, \<^verbatim>\<open>libcontainer/configs/validate\<close>: every check of
  \<^verbatim>\<open>ConfigValidator.Validate\<close> in its order and the rootless checks. What the checks ask of the host is
  the record \<^verbatim>\<open>host\<close>: \<^verbatim>\<open>stat\<close>, the working directory, \<^verbatim>\<open>filepath.EvalSymlinks\<close>, whether SELinux is
  enabled and the Intel RDT features. The sysctl loop visits the Go map in the order of the list, with
  its \<^verbatim>\<open>sync.Once\<close> as loop state. The main result is that the validator accepts exactly the configurations
  a declarative predicate describes, in which no order of checks appears.\<close>

section \<open>The checks\<close>

record stat_t =
  st_Dev :: nat
  st_Ino :: nat

record host =
  h_stat :: "string \<Rightarrow> (go_err, stat_t) res"
  h_wd :: "(go_err, string) res"
  h_evalSymlinks :: "string \<Rightarrow> (go_err, string) res"
  h_selinux :: bool
  h_cat :: bool
  h_mba :: bool

datatype validate_err =
    RootfsMissing string | RootfsErr go_err | RootfsNotClean string
  | NetworkWithoutNS | HostnameWithoutNS | SysWithoutNS | NoSelinux
  | NoUserNS | MappingsWithoutNS | NoCgroupNS
  | SysctlHostIpc string | SysctlNetErr string go_err | SysctlHostNet string | SysctlHostname string | SysctlNotNamespaced string
  | NoRdt | L3WithoutCAT | MemBwWithoutMBA | L3Missing | MemBwMissing
  | RootlessNoUserNS | RootlessNoUid | RootlessNoGid | UnmappedUid | UnmappedGid

definition Abs :: "host \<Rightarrow> string \<Rightarrow> (go_err, string) res" where
  "Abs h p = (if IsAbs p then Inr (Clean p) else res_map (\<lambda>wd. Join [wd, p]) (h_wd h))"

definition v_rootfs :: "host \<Rightarrow> config \<Rightarrow> validate_err option" where
  "v_rootfs h c =
    (case h_stat h (c_Rootfs c) of
       Inl e \<Rightarrow> Some (if IsNotExist e then RootfsMissing (c_Rootfs c) else RootfsErr e)
     | Inr _ \<Rightarrow>
         (case Abs h (c_Rootfs c) of
            Inl e \<Rightarrow> Some (RootfsErr e)
          | Inr cleaned \<Rightarrow>
              (case h_evalSymlinks h cleaned of
                 Inl e \<Rightarrow> Some (RootfsErr e)
               | Inr resolved \<Rightarrow>
                   if Clean (c_Rootfs c) \<noteq> resolved then Some (RootfsNotClean (c_Rootfs c)) else None)))"

definition v_network :: "config \<Rightarrow> validate_err option" where
  "v_network c =
    (if \<not> ns_Contains (c_Namespaces c) NEWNET \<and> (c_Networks c \<noteq> [] \<or> c_Routes c \<noteq> []) then Some NetworkWithoutNS
     else None)"

definition v_hostname :: "config \<Rightarrow> validate_err option" where
  "v_hostname c =
    (if c_Hostname c \<noteq> [] \<and> \<not> ns_Contains (c_Namespaces c) NEWUTS then Some HostnameWithoutNS else None)"

definition v_security :: "host \<Rightarrow> config \<Rightarrow> validate_err option" where
  "v_security h c =
    (if (c_MaskPaths c \<noteq> [] \<or> c_ReadonlyPaths c \<noteq> []) \<and> \<not> ns_Contains (c_Namespaces c) NEWNS then Some SysWithoutNS
     else if c_ProcessLabel c \<noteq> [] \<and> \<not> h_selinux h then Some NoSelinux
     else None)"

definition stat_missing :: "host \<Rightarrow> string \<Rightarrow> bool" where
  "stat_missing h p = (case h_stat h p of Inl e \<Rightarrow> IsNotExist e | Inr _ \<Rightarrow> False)"

definition v_usernamespace :: "host \<Rightarrow> config \<Rightarrow> validate_err option" where
  "v_usernamespace h c =
    (if ns_Contains (c_Namespaces c) NEWUSER then
       (if stat_missing h ''/proc/self/ns/user'' then Some NoUserNS else None)
     else if c_UidMappings c \<noteq> None \<or> c_GidMappings c \<noteq> None then Some MappingsWithoutNS
     else None)"

definition v_cgroupnamespace :: "host \<Rightarrow> config \<Rightarrow> validate_err option" where
  "v_cgroupnamespace h c =
    (if ns_Contains (c_Namespaces c) NEWCGROUP \<and> stat_missing h ''/proc/self/ns/cgroup'' then Some NoCgroupNS else None)"

definition validSysctlMap :: "string list" where
  "validSysctlMap =
    [''kernel.msgmax'', ''kernel.msgmnb'', ''kernel.msgmni'', ''kernel.sem'', ''kernel.shmall'', ''kernel.shmmax'',
     ''kernel.shmmni'', ''kernel.shm_rmid_forced'']"

definition isHostNetNS :: "host \<Rightarrow> string \<Rightarrow> bool \<times> (string \<times> go_err) option" where
  "isHostNetNS h path =
    (case h_stat h ''/proc/self/ns/net'' of
       Inl e \<Rightarrow> (False, Some (''/proc/self/ns/net'', e))
     | Inr st1 \<Rightarrow>
         (case h_stat h path of
            Inl e \<Rightarrow> (False, Some (path, e))
          | Inr st2 \<Rightarrow> (st_Dev st1 = st_Dev st2 \<and> st_Ino st1 = st_Ino st2, None)))"

type_synonym once = "(bool \<times> (string \<times> go_err) option) option"

definition net_once :: "host \<Rightarrow> config \<Rightarrow> bool \<times> (string \<times> go_err) option" where
  "net_once h c =
    (if \<not> ns_Contains (c_Namespaces c) NEWNET then (True, None)
     else let path = ns_PathOf (c_Namespaces c) NEWNET in
       if path = [] then (False, None) else isHostNetNS h path)"

definition once_do :: "(bool \<times> (string \<times> go_err) option) \<Rightarrow> once \<Rightarrow> bool \<times> (string \<times> go_err) option" where
  "once_do f o1 = (case o1 of None \<Rightarrow> f | Some r \<Rightarrow> r)"

fun sysctl_loop :: "host \<Rightarrow> config \<Rightarrow> once \<Rightarrow> string list \<Rightarrow> validate_err option" where
  "sysctl_loop h c o1 [] = None"
| "sysctl_loop h c o1 (s # ss) =
    (if s \<in> set validSysctlMap \<or> has_prefix s ''fs.mqueue.'' then
       (if ns_Contains (c_Namespaces c) NEWIPC then sysctl_loop h c o1 ss else Some (SysctlHostIpc s))
     else if has_prefix s ''net.'' then
       (let r = once_do (net_once h c) o1 in
        case r of
          (_, Some (p, e)) \<Rightarrow> Some (SysctlNetErr p e)
        | (hostnet, None) \<Rightarrow> if hostnet then Some (SysctlHostNet s) else sysctl_loop h c (Some r) ss)
     else if ns_Contains (c_Namespaces c) NEWUTS \<and> s = ''kernel.domainname'' then sysctl_loop h c o1 ss
     else if ns_Contains (c_Namespaces c) NEWUTS \<and> s = ''kernel.hostname'' then Some (SysctlHostname s)
     else Some (SysctlNotNamespaced s))"

definition v_sysctl :: "host \<Rightarrow> config \<Rightarrow> validate_err option" where
  "v_sysctl h c = sysctl_loop h c None (map fst (c_Sysctl c))"

definition v_intelrdt :: "host \<Rightarrow> config \<Rightarrow> validate_err option" where
  "v_intelrdt h c =
    (case c_IntelRdt c of
       None \<Rightarrow> None
     | Some r \<Rightarrow>
         if \<not> h_cat h \<and> \<not> h_mba h then Some NoRdt
         else if \<not> h_cat h \<and> rdt_L3CacheSchema r \<noteq> [] then Some L3WithoutCAT
         else if \<not> h_mba h \<and> rdt_MemBwSchema r \<noteq> [] then Some MemBwWithoutMBA
         else if h_cat h \<and> rdt_L3CacheSchema r = [] then Some L3Missing
         else if h_mba h \<and> rdt_MemBwSchema r = [] then Some MemBwMissing
         else None)"

section \<open>Rootless checks\<close>

fun hasIDMapping :: "int \<Rightarrow> IDMap list \<Rightarrow> bool" where
  "hasIDMapping i [] = False"
| "hasIDMapping i (m # ms) =
    (if im_ContainerID m \<le> i \<and> i < wrap64 (im_ContainerID m + im_Size m) then True else hasIDMapping i ms)"

abbreviation mappings :: "IDMap list option \<Rightarrow> IDMap list" where
  "mappings m \<equiv> (case m of None \<Rightarrow> [] | Some ms \<Rightarrow> ms)"

definition rootlessEUIDMappings :: "config \<Rightarrow> validate_err option" where
  "rootlessEUIDMappings c =
    (if \<not> ns_Contains (c_Namespaces c) NEWUSER then Some RootlessNoUserNS
     else if mappings (c_UidMappings c) = [] then Some RootlessNoUid
     else if mappings (c_GidMappings c) = [] then Some RootlessNoGid
     else None)"

text \<open>\<^verbatim>\<open>fmt.Sscanf\<close> of one \<^verbatim>\<open>%d\<close> after a literal that is known to match: blanks but no newline are skipped, a
  sign and at least one digit are read, what follows is left over, and a value that does not fit is an
  error.\<close>

definition scan_int :: "string \<Rightarrow> int option" where
  "scan_int s =
    (let t = dropWhile (\<lambda>c. is_space c \<and> c \<noteq> CHR 0x0A) s;
         sg = takeWhile (\<lambda>c. c = CHR ''+'' \<or> c = CHR ''-'') (take 1 t);
         ds = takeWhile is_digit (drop (length sg) t)
     in if ds = [] then None
        else case ParseInt 64 (sg @ ds) of (v, None) \<Rightarrow> Some v | (v, Some e) \<Rightarrow> None)"

definition opt_id :: "string \<Rightarrow> string \<Rightarrow> int option" where
  "opt_id pre opt = (if has_prefix opt pre then scan_int (drop (length pre) opt) else None)"

text \<open>An option that has the prefix but does not scan is skipped; the two prefixes exclude each other, so
  skipping after the first test and falling through to the second are the same.\<close>

definition check_opt :: "config \<Rightarrow> string \<Rightarrow> validate_err option" where
  "check_opt c opt =
    (if has_prefix opt ''uid='' then
       (case opt_id ''uid='' opt of
          None \<Rightarrow> None
        | Some uid \<Rightarrow> if \<not> hasIDMapping uid (mappings (c_UidMappings c)) then Some UnmappedUid else None)
     else if has_prefix opt ''gid='' then
       (case opt_id ''gid='' opt of
          None \<Rightarrow> None
        | Some gid \<Rightarrow> if \<not> hasIDMapping gid (mappings (c_GidMappings c)) then Some UnmappedGid else None)
     else None)"

fun first_err :: "('a \<Rightarrow> 'e option) \<Rightarrow> 'a list \<Rightarrow> 'e option" where
  "first_err f [] = None"
| "first_err f (x # xs) = (case f x of Some e \<Rightarrow> Some e | None \<Rightarrow> first_err f xs)"

definition rootlessEUIDMount :: "config \<Rightarrow> validate_err option" where
  "rootlessEUIDMount c = first_err (\<lambda>m. first_err (check_opt c) (split_on CHR '','' (m_Data m))) (c_Mounts c)"

definition rootlessEUID :: "config \<Rightarrow> validate_err option" where
  "rootlessEUID c =
    (case rootlessEUIDMappings c of Some e \<Rightarrow> Some e | None \<Rightarrow> rootlessEUIDMount c)"

definition Validate :: "host \<Rightarrow> config \<Rightarrow> validate_err option" where
  "Validate h c =
    (case v_rootfs h c of Some e \<Rightarrow> Some e | None \<Rightarrow>
    (case v_network c of Some e \<Rightarrow> Some e | None \<Rightarrow>
    (case v_hostname c of Some e \<Rightarrow> Some e | None \<Rightarrow>
    (case v_security h c of Some e \<Rightarrow> Some e | None \<Rightarrow>
    (case v_usernamespace h c of Some e \<Rightarrow> Some e | None \<Rightarrow>
    (case v_cgroupnamespace h c of Some e \<Rightarrow> Some e | None \<Rightarrow>
    (case v_sysctl h c of Some e \<Rightarrow> Some e | None \<Rightarrow>
    (case v_intelrdt h c of Some e \<Rightarrow> Some e | None \<Rightarrow>
     if c_RootlessEUID c then rootlessEUID c else None))))))))"

section \<open>What a valid configuration is\<close>

definition rootfs_ok :: "host \<Rightarrow> config \<Rightarrow> bool" where
  "rootfs_ok h c \<longleftrightarrow> is_ok (h_stat h (c_Rootfs c)) \<and> IsAbs (c_Rootfs c) \<and>
     h_evalSymlinks h (Clean (c_Rootfs c)) = Inr (Clean (c_Rootfs c))"

definition private_net :: "host \<Rightarrow> config \<Rightarrow> bool" where
  "private_net h c \<longleftrightarrow> ns_Contains (c_Namespaces c) NEWNET \<and>
    (let p = ns_PathOf (c_Namespaces c) NEWNET in
     p = [] \<or> (case (h_stat h ''/proc/self/ns/net'', h_stat h p) of
                   (Inr a, Inr b) \<Rightarrow> (st_Dev a, st_Ino a) \<noteq> (st_Dev b, st_Ino b) | _ \<Rightarrow> False))"

definition ipc_key :: "string \<Rightarrow> bool" where
  "ipc_key s \<longleftrightarrow> s \<in> set validSysctlMap \<or> has_prefix s ''fs.mqueue.''"

definition sysctl_ok :: "host \<Rightarrow> config \<Rightarrow> string \<Rightarrow> bool" where
  "sysctl_ok h c s \<longleftrightarrow>
    (if ipc_key s then ns_Contains (c_Namespaces c) NEWIPC
     else if has_prefix s ''net.'' then private_net h c
     else ns_Contains (c_Namespaces c) NEWUTS \<and> s = ''kernel.domainname'')"

definition rdt_ok :: "host \<Rightarrow> intel_rdt \<Rightarrow> bool" where
  "rdt_ok h r \<longleftrightarrow> (h_cat h \<or> h_mba h) \<and> (h_cat h \<longleftrightarrow> rdt_L3CacheSchema r \<noteq> []) \<and>
     (h_mba h \<longleftrightarrow> rdt_MemBwSchema r \<noteq> [])"

definition mount_ids_ok :: "config \<Rightarrow> string \<Rightarrow> bool" where
  "mount_ids_ok c opt \<longleftrightarrow>
     (\<forall>i. opt_id ''uid='' opt = Some i \<longrightarrow> hasIDMapping i (mappings (c_UidMappings c))) \<and>
     (\<forall>i. opt_id ''gid='' opt = Some i \<longrightarrow> hasIDMapping i (mappings (c_GidMappings c)))"

definition rootless_ok :: "config \<Rightarrow> bool" where
  "rootless_ok c \<longleftrightarrow> ns_Contains (c_Namespaces c) NEWUSER \<and> mappings (c_UidMappings c) \<noteq> [] \<and>
     mappings (c_GidMappings c) \<noteq> [] \<and>
     (\<forall>m \<in> set (c_Mounts c). \<forall>opt \<in> set (split_on CHR '','' (m_Data m)). mount_ids_ok c opt)"

definition valid_config :: "host \<Rightarrow> config \<Rightarrow> bool" where
  "valid_config h c \<longleftrightarrow>
     rootfs_ok h c \<and>
     (c_Networks c \<noteq> [] \<or> c_Routes c \<noteq> [] \<longrightarrow> ns_Contains (c_Namespaces c) NEWNET) \<and>
     (c_Hostname c \<noteq> [] \<longrightarrow> ns_Contains (c_Namespaces c) NEWUTS) \<and>
     (c_MaskPaths c \<noteq> [] \<or> c_ReadonlyPaths c \<noteq> [] \<longrightarrow> ns_Contains (c_Namespaces c) NEWNS) \<and>
     (c_ProcessLabel c \<noteq> [] \<longrightarrow> h_selinux h) \<and>
     (ns_Contains (c_Namespaces c) NEWUSER \<longrightarrow> \<not> stat_missing h ''/proc/self/ns/user'') \<and>
     (\<not> ns_Contains (c_Namespaces c) NEWUSER \<longrightarrow> c_UidMappings c = None \<and> c_GidMappings c = None) \<and>
     (ns_Contains (c_Namespaces c) NEWCGROUP \<longrightarrow> \<not> stat_missing h ''/proc/self/ns/cgroup'') \<and>
     (\<forall>s \<in> fst ` set (c_Sysctl c). sysctl_ok h c s) \<and>
     (\<forall>r. c_IntelRdt c = Some r \<longrightarrow> rdt_ok h r) \<and>
     (c_RootlessEUID c \<longrightarrow> rootless_ok c)"

text \<open>\<^verbatim>\<open>filepath.EvalSymlinks\<close> of an absolute path is absolute when it succeeds.\<close>

definition host_ok :: "host \<Rightarrow> bool" where
  "host_ok h \<longleftrightarrow> (\<forall>p q. h_evalSymlinks h p = Inr q \<and> IsAbs p \<longrightarrow> IsAbs q) \<and> (\<forall>d. h_wd h = Inr d \<longrightarrow> IsAbs d)"

lemma IsAbs_Abs: "host_ok h \<Longrightarrow> Abs h p = Inr q \<Longrightarrow> IsAbs q"
proof -
  assume h: "host_ok h" and q: "Abs h p = Inr q"
  have "IsAbs (Join [wd, p])" if "h_wd h = Inr wd" for wd
  proof -
    have "IsAbs wd" using h that by (simp add: host_ok_def)
    then show ?thesis by (cases wd) (auto simp: IsAbs_def [of wd] IsAbs_def [of "_ # _"] IsAbs_def [of "[]"])
  qed
  then show "IsAbs q" using q by (auto simp: Abs_def res_map_def split: if_splits sum.splits)
qed

lemma v_rootfs_None:
  assumes "host_ok h"
  shows "v_rootfs h c = None \<longleftrightarrow> rootfs_ok h c"
proof (cases "IsAbs (c_Rootfs c)")
  case True
  then show ?thesis by (auto simp: v_rootfs_def rootfs_ok_def Abs_def is_ok_def split: sum.splits)
next
  case False
  have "Clean (c_Rootfs c) \<noteq> q" if "h_evalSymlinks h p = Inr q" "Abs h (c_Rootfs c) = Inr p" for p q
  proof -
    have "IsAbs q" using IsAbs_Abs [OF assms that(2)] that(1) assms unfolding host_ok_def by blast
    then show ?thesis using False IsAbs_Clean [of "c_Rootfs c"] by metis
  qed
  then show ?thesis using False by (auto simp: v_rootfs_def rootfs_ok_def split: sum.splits)
qed

lemma net_once_private: "net_once h c = (False, None) \<longleftrightarrow> private_net h c"
  by (auto simp: net_once_def private_net_def isHostNetNS_def Let_def split: sum.splits)

lemma net_once_err: "net_once h c = (b, Some pe) \<Longrightarrow> \<not> b"
  by (auto simp: net_once_def isHostNetNS_def Let_def split: sum.splits if_splits)

lemma sysctl_loop_None:
  assumes "o1 = None \<or> o1 = Some (net_once h c)"
  shows "sysctl_loop h c o1 ss = None \<longleftrightarrow> (\<forall>s \<in> set ss. sysctl_ok h c s)"
  using assms
proof (induction ss arbitrary: o1)
  case (Cons s ss)
  have once: "once_do (net_once h c) o1 = net_once h c" using Cons.prems by (auto simp: once_do_def)
  obtain b e where r: "net_once h c = (b, e)" by (cases "net_once h c")
  show ?case
  proof (cases "\<not> ipc_key s \<and> has_prefix s ''net.''")
    case True
    then have "sysctl_loop h c o1 (s # ss) = None \<longleftrightarrow> private_net h c \<and> sysctl_loop h c (Some (net_once h c)) ss = None"
      using once r net_once_private [of h c] by (auto simp: ipc_key_def split: option.splits)
    then show ?thesis using True Cons.IH by (simp add: sysctl_ok_def)
  next
    case False
    then show ?thesis using Cons by (auto simp: sysctl_ok_def ipc_key_def)
  qed
qed simp

lemma v_intelrdt_None: "v_intelrdt h c = None \<longleftrightarrow> (\<forall>r. c_IntelRdt c = Some r \<longrightarrow> rdt_ok h r)"
  by (auto simp: v_intelrdt_def rdt_ok_def split: option.splits)

lemma first_err_None: "first_err f xs = None \<longleftrightarrow> (\<forall>x \<in> set xs. f x = None)"
  by (induction xs) (auto split: option.splits)

lemma uid_gid_exclusive: "has_prefix s ''uid='' \<Longrightarrow> \<not> has_prefix s ''gid=''"
  by (auto simp: has_prefix_def)

lemma check_opt_None: "check_opt c opt = None \<longleftrightarrow> mount_ids_ok c opt"
  using uid_gid_exclusive [of opt] by (auto simp: check_opt_def mount_ids_ok_def opt_id_def split: option.splits)

lemma rootlessEUID_None: "rootlessEUID c = None \<longleftrightarrow> rootless_ok c"
  by (auto simp: rootlessEUID_def rootlessEUIDMappings_def rootlessEUIDMount_def rootless_ok_def first_err_None
      check_opt_None split: option.splits)

lemma hasIDMapping_host:
  assumes "list_all idmap_ok ms"
  shows "hasIDMapping i ms \<longleftrightarrow> (\<exists>m \<in> set ms. i \<in> container_range m)"
  using assms
proof (induction ms)
  case (Cons m ms)
  have "int64 (im_ContainerID m + im_Size m)" using Cons.prems by (simp add: idmap_ok_def int64_def)
  then show ?case using Cons by (auto simp: container_range_def)
qed simp

section \<open>Properties\<close>

lemma option_chain: "(case x of Some e \<Rightarrow> Some e | None \<Rightarrow> y) = None \<longleftrightarrow> x = None \<and> y = None"
  by (auto split: option.splits)

lemma Validate_iff:
  assumes "host_ok h"
  shows "Validate h c = None \<longleftrightarrow> valid_config h c"
proof -
  have "v_network c = None \<longleftrightarrow> (c_Networks c \<noteq> [] \<or> c_Routes c \<noteq> [] \<longrightarrow> ns_Contains (c_Namespaces c) NEWNET)"
    "v_hostname c = None \<longleftrightarrow> (c_Hostname c \<noteq> [] \<longrightarrow> ns_Contains (c_Namespaces c) NEWUTS)"
    "v_security h c = None \<longleftrightarrow> (c_MaskPaths c \<noteq> [] \<or> c_ReadonlyPaths c \<noteq> [] \<longrightarrow> ns_Contains (c_Namespaces c) NEWNS) \<and>
       (c_ProcessLabel c \<noteq> [] \<longrightarrow> h_selinux h)"
    "v_usernamespace h c = None \<longleftrightarrow> (ns_Contains (c_Namespaces c) NEWUSER \<longrightarrow> \<not> stat_missing h ''/proc/self/ns/user'') \<and>
       (\<not> ns_Contains (c_Namespaces c) NEWUSER \<longrightarrow> c_UidMappings c = None \<and> c_GidMappings c = None)"
    "v_cgroupnamespace h c = None \<longleftrightarrow> (ns_Contains (c_Namespaces c) NEWCGROUP \<longrightarrow> \<not> stat_missing h ''/proc/self/ns/cgroup'')"
    by (auto simp: v_network_def v_hostname_def v_security_def v_usernamespace_def v_cgroupnamespace_def)
  moreover have "v_sysctl h c = None \<longleftrightarrow> (\<forall>s \<in> fst ` set (c_Sysctl c). sysctl_ok h c s)"
    by (simp add: v_sysctl_def sysctl_loop_None)
  ultimately show ?thesis
    unfolding Validate_def option_chain valid_config_def v_rootfs_None [OF assms] v_intelrdt_None
    by (simp add: rootlessEUID_None)
qed


text \<open>In a validated rootless container every user id named by a uid= mount option translates
  to a host user, provided the mappings are in range.\<close>

theorem rootless_mount_uids_translate:
  assumes "Validate h c = None" and "host_ok h" and "c_RootlessEUID c"
    and "c_UidMappings c = Some ms" and "list_all idmap_ok ms"
    and "m \<in> set (c_Mounts c)" and "opt \<in> set (split_on CHR '','' (m_Data m))" and "opt_id ''uid='' opt = Some uid"
  shows "\<exists>hostuid. HostUID c uid = Inr hostuid"
proof -
  have "rootless_ok c" using assms(1-3) by (simp add: Validate_iff valid_config_def)
  then have ns: "ns_Contains (c_Namespaces c) NEWUSER" and "hasIDMapping uid ms"
    using assms(4,6-8) by (auto simp: rootless_ok_def mount_ids_ok_def)
  then obtain n where "n \<in> set ms" "uid \<in> container_range n" using hasIDMapping_host [OF assms(5)] by auto
  then obtain n' where "find (\<lambda>m. uid \<in> container_range m) ms = Some n'"
    by (cases "find (\<lambda>m. uid \<in> container_range m) ms") (auto simp: find_None_iff)
  then show ?thesis using ns assms(4) by (simp add: HostUID_def hostIDFromMapping_find [OF assms(5)])
qed

definition ex_host :: host where
  "ex_host = \<lparr>h_stat = (\<lambda>p. Inr \<lparr>st_Dev = 1, st_Ino = length p\<rparr>), h_wd = Inr ''/'', h_evalSymlinks = (\<lambda>p. Inr p),
     h_selinux = False, h_cat = False, h_mba = False\<rparr>"

definition ex_rootless :: config where
  "ex_rootless = ex_config\<lparr>c_RootlessEUID := True, c_Sysctl := [(''net.ipv4.ip_forward'', ''1'')],
     c_Namespaces := [\<lparr>ns_Type = NEWUSER, ns_Path = []\<rparr>, \<lparr>ns_Type = NEWNET, ns_Path = []\<rparr>],
     c_Mounts := [\<lparr>m_Source = ''t'', m_Destination = ''/t'', m_Device = ''tmpfs'', m_Flags = 0, m_PropagationFlags = [],
       m_Data = ''mode=755,uid=7'', m_Relabel = [], m_Extensions = 0\<rparr>]\<rparr>"

lemma host_ok_ex: "host_ok ex_host"
  by (simp add: host_ok_def ex_host_def IsAbs_def)

lemma opt_id_ex: "opt_id ''uid='' ''uid=7'' = Some 7"
  by (simp add: opt_id_def has_prefix_def scan_int_def is_space_def is_digit_def ParseInt_def ParseUint_def
      signed_result_def digit_val_def Let_def)

lemma options_ex: "split_on CHR '','' ''mode=755,uid=7'' = [''mode=755'', ''uid=7'']"
  by code_simp

lemma rootless_ex: "rootlessEUID ex_rootless = None"
proof -
  have "check_opt ex_rootless ''uid=7'' = None" "check_opt ex_rootless ''mode=755'' = None"
    by (simp_all add: check_opt_def opt_id_ex has_prefix_def ex_rootless_def ex_config_def int64_def)
  then have "rootlessEUIDMount ex_rootless = None"
    using options_ex by (simp add: rootlessEUIDMount_def ex_rootless_def)
  moreover have "rootlessEUIDMappings ex_rootless = None" by code_simp
  ultimately show ?thesis by (simp add: rootlessEUID_def)
qed

lemma validate_ex: "Validate ex_host ex_rootless = None"
proof -
  have "v_rootfs ex_host ex_rootless = None" "v_network ex_rootless = None" "v_hostname ex_rootless = None"
    "v_security ex_host ex_rootless = None" "v_usernamespace ex_host ex_rootless = None"
    "v_cgroupnamespace ex_host ex_rootless = None" "v_sysctl ex_host ex_rootless = None"
    "v_intelrdt ex_host ex_rootless = None" by code_simp+
  then show ?thesis by (simp add: Validate_def rootless_ex)
qed


theorem rootless_mount_uids_translate_witness: "\<exists>hostuid. HostUID ex_rootless 7 = Inr hostuid"
proof -
  let ?m = "hd (c_Mounts ex_rootless)"
  have r: "c_RootlessEUID ex_rootless" by (simp add: ex_rootless_def)
  obtain ms where ms: "c_UidMappings ex_rootless = Some ms" "list_all idmap_ok ms"
    by (simp add: ex_rootless_def ex_config_def idmap_ok_def)
  have m: "?m \<in> set (c_Mounts ex_rootless)" by (simp add: ex_rootless_def)
  have "''uid=7'' \<in> set (split_on CHR '','' (m_Data ?m))" using options_ex by (simp add: ex_rootless_def)
  from rootless_mount_uids_translate [OF validate_ex host_ok_ex r ms m this opt_id_ex] show ?thesis .
qed

end
