(* ===== verification/Container_State.thy ===== *)
theory Container_State
  imports Config Go_Paths
begin

text \<open>The life cycle of a container in libcontainer: the state objects of \<^verbatim>\<open>state_linux.go\<close> with their
  \<^verbatim>\<open>status\<close>, \<^verbatim>\<open>transition\<close> and \<^verbatim>\<open>destroy\<close>, and the operations of \<^verbatim>\<open>linuxContainer\<close> in
  \<^verbatim>\<open>container_linux.go\<close> that read or change them. An operation is a function of the container and the
  outside world that returns its result and both updated. What the operations call outside the modelled
  code (the cgroup manager, the process table, the file system, hooks) is the record \<^verbatim>\<open>sys\<close>, with a
  type variable for the world, so that every theorem holds for every such environment.\<close>

section \<open>State and environment\<close>

datatype status = Created | Running | Pausing | Paused | Stopped

definition status_String :: "status \<Rightarrow> string" where
  "status_String s =
    (case s of Created \<Rightarrow> ''created'' | Running \<Rightarrow> ''running'' | Pausing \<Rightarrow> ''pausing'' | Paused \<Rightarrow> ''paused''
     | Stopped \<Rightarrow> ''stopped'')"

text \<open>One constructor per Go type that implements \<^verbatim>\<open>containerState\<close>\<close>

datatype container_state =
    StoppedState | RunningState | CreatedState | PausedState | RestoredState string | LoadedState status

fun state_status :: "container_state \<Rightarrow> status" where
  "state_status StoppedState = Stopped"
| "state_status RunningState = Running"
| "state_status CreatedState = Created"
| "state_status PausedState = Paused"
| "state_status (RestoredState d) = Running"
| "state_status (LoadedState s) = s"

datatype error_code =
    ContainerNotStopped | ContainerPaused | ContainerNotRunning | ContainerNotPaused | ConfigInvalid | SystemError

datatype cerr =
    StateTransition status status
  | Generic error_code string
  | System go_err string
  | Wrapped cerr string
  | Plain go_err
  | HookFailed nat go_err
  | ConfigErr config_err
  | NilPanic

record parent_process =
  pp_pid :: int
  pp_startTime :: nat
  pp_fds :: "string list"

record container =
  cn_id :: string
  cn_root :: string
  cn_config :: config
  cn_criuPath :: string
  cn_criuVersion :: int
  cn_rdt :: bool
  cn_initProcess :: "parent_process option"
  cn_initProcessStartTime :: nat
  cn_state :: container_state
  cn_created :: int

record proc_stat =
  ps_State :: char
  ps_StartTime :: nat

definition Zombie :: char where "Zombie = CHR ''Z''"
definition Dead :: char where "Dead = CHR ''X''"

record oci_state =
  oci_ID :: string
  oci_Status :: string
  oci_Pid :: int
  oci_Bundle :: string
  oci_Annotations :: "string \<rightharpoonup> string"

record saved_state =
  sv_ID :: string
  sv_Config :: config
  sv_InitProcessPid :: int
  sv_InitProcessStartTime :: nat
  sv_Created :: int
  sv_Rootless :: bool
  sv_CgroupPaths :: "(string \<times> string) list"
  sv_IntelRdtPath :: string
  sv_NamespacePaths :: "namespace_type \<rightharpoonup> string"
  sv_ExternalDescriptors :: "string list"

text \<open>The \<^verbatim>\<open>cgroups.Manager\<close> interface\<close>

record 'w cgroup_manager =
  cg_Freeze :: "freezer_state \<Rightarrow> 'w \<Rightarrow> go_err option \<times> 'w"
  cg_GetFreezerState :: "'w \<Rightarrow> (go_err, freezer_state) res"
  cg_Destroy :: "'w \<Rightarrow> go_err option \<times> 'w"
  cg_Exists :: "'w \<Rightarrow> bool"
  cg_GetAllPids :: "'w \<Rightarrow> (go_err, int list) res"
  cg_Set :: "config \<Rightarrow> 'w \<Rightarrow> go_err option \<times> 'w"
  cg_GetPaths :: "'w \<Rightarrow> (string \<times> string) list"

text \<open>The rest of the outside world: \<^verbatim>\<open>/proc\<close>, files, signals, hooks, Intel RDT\<close>

record 'w sys = "'w cgroup_manager" +
  s_Stat :: "int \<Rightarrow> 'w \<Rightarrow> (go_err, proc_stat) res"
  s_osStat :: "string \<Rightarrow> 'w \<Rightarrow> go_err option"
  s_signal :: "int \<Rightarrow> int \<Rightarrow> 'w \<Rightarrow> go_err option \<times> 'w"
  s_subreaper :: "'w \<Rightarrow> (go_err, int) res"
  s_isWaitable :: "int \<Rightarrow> 'w \<Rightarrow> (go_err, bool) res"
  s_wait :: "int \<Rightarrow> 'w \<Rightarrow> 'w"
  s_RemoveAll :: "string \<Rightarrow> 'w \<Rightarrow> go_err option \<times> 'w"
  s_rdtDestroy :: "'w \<Rightarrow> go_err option \<times> 'w"
  s_rdtSet :: "config \<Rightarrow> 'w \<Rightarrow> go_err option \<times> 'w"
  s_rdtPath :: "string \<Rightarrow> (go_err, string) res"
  s_runHook :: "hook \<Rightarrow> oci_state \<Rightarrow> 'w \<Rightarrow> go_err option \<times> 'w"
  s_nsSupported :: "namespace_type \<Rightarrow> bool"
  s_TempFile :: "string \<Rightarrow> string \<Rightarrow> 'w \<Rightarrow> (go_err, string) res \<times> 'w"
  s_WriteJSON :: "string \<Rightarrow> saved_state \<Rightarrow> 'w \<Rightarrow> go_err option \<times> 'w"
  s_Close :: "string \<Rightarrow> 'w \<Rightarrow> go_err option \<times> 'w"
  s_Remove :: "string \<Rightarrow> 'w \<Rightarrow> go_err option \<times> 'w"
  s_Rename :: "string \<Rightarrow> string \<Rightarrow> 'w \<Rightarrow> go_err option \<times> 'w"
  s_Mkfifo :: "string \<Rightarrow> 'w \<Rightarrow> go_err option \<times> 'w"
  s_Chown :: "string \<Rightarrow> int \<Rightarrow> int \<Rightarrow> 'w \<Rightarrow> go_err option \<times> 'w"

type_synonym ('a, 'w) act = "container \<Rightarrow> 'w \<Rightarrow> (cerr, 'a) res \<times> container \<times> 'w"

text \<open>\<^verbatim>\<open>if err != nil { return err }\<close>\<close>

definition act_bind :: "('a, 'w) act \<Rightarrow> ('a \<Rightarrow> ('b, 'w) act) \<Rightarrow> ('b, 'w) act" where
  "act_bind m f c w =
    (case m c w of (Inl e, c', w') \<Rightarrow> (Inl e, c', w') | (Inr a, c', w') \<Rightarrow> f a c' w')"

definition act_return :: "'a \<Rightarrow> ('a, 'w) act" where
  "act_return a c w = (Inr a, c, w)"

definition act_fail :: "cerr \<Rightarrow> ('a, 'w) act" where
  "act_fail e c w = (Inl e, c, w)"

definition act_world :: "(go_err \<Rightarrow> cerr) \<Rightarrow> ('w \<Rightarrow> go_err option \<times> 'w) \<Rightarrow> (unit, 'w) act" where
  "act_world wrap f c w =
    (case f w of (None, w') \<Rightarrow> (Inr (), c, w') | (Some e, w') \<Rightarrow> (Inl (wrap e), c, w'))"

lemmas act_defs = act_bind_def act_return_def act_fail_def act_world_def

section \<open>Observing the container\<close>

definition execFifoFilename :: string where "execFifoFilename = ''exec.fifo''"

definition runType :: "('w, 'z) sys_scheme \<Rightarrow> container \<Rightarrow> 'w \<Rightarrow> status" where
  "runType s c w =
    (case cn_initProcess c of
       None \<Rightarrow> Stopped
     | Some p \<Rightarrow>
         (case s_Stat s (pp_pid p) w of
            Inl _ \<Rightarrow> Stopped
          | Inr st \<Rightarrow>
              if ps_StartTime st \<noteq> cn_initProcessStartTime c \<or> ps_State st = Zombie \<or> ps_State st = Dead then Stopped
              else if s_osStat s (Join [cn_root c, execFifoFilename]) w = None then Created
              else Running))"

definition isPaused :: "('w, 'z) sys_scheme \<Rightarrow> 'w \<Rightarrow> (go_err, bool) res" where
  "isPaused s w = res_map (\<lambda>st. st = Frozen) (cg_GetFreezerState s w)"

section \<open>Transitions\<close>

text \<open>The \<^verbatim>\<open>transition\<close> method of the current state; \<^verbatim>\<open>t\<close> is the requested one.\<close>

definition transition :: "('w, 'z) sys_scheme \<Rightarrow> container_state \<Rightarrow> (unit, 'w) act" where
  "transition s t c w =
    (let set_state = (Inr (), c\<lparr>cn_state := t\<rparr>, w);
         keep = (Inr (), c, w);
         bad = (Inl (StateTransition (state_status (cn_state c)) (state_status t)), c, w)
     in case cn_state c of
          StoppedState \<Rightarrow>
            (case t of RunningState \<Rightarrow> set_state | RestoredState _ \<Rightarrow> set_state | StoppedState \<Rightarrow> keep | _ \<Rightarrow> bad)
        | RunningState \<Rightarrow>
            (case t of
               StoppedState \<Rightarrow>
                 if runType s c w = Running then (Inl (Generic ContainerNotStopped ''container still running''), c, w)
                 else set_state
             | PausedState \<Rightarrow> set_state | RunningState \<Rightarrow> keep | _ \<Rightarrow> bad)
        | CreatedState \<Rightarrow>
            (case t of RunningState \<Rightarrow> set_state | PausedState \<Rightarrow> set_state | StoppedState \<Rightarrow> set_state
             | CreatedState \<Rightarrow> keep | _ \<Rightarrow> bad)
        | PausedState \<Rightarrow>
            (case t of RunningState \<Rightarrow> set_state | StoppedState \<Rightarrow> set_state | PausedState \<Rightarrow> keep | _ \<Rightarrow> bad)
        | RestoredState _ \<Rightarrow> (case t of StoppedState \<Rightarrow> keep | RunningState \<Rightarrow> keep | _ \<Rightarrow> bad)
        | LoadedState _ \<Rightarrow> set_state)"

definition refreshState :: "('w, 'z) sys_scheme \<Rightarrow> (unit, 'w) act" where
  "refreshState s c w =
    (case isPaused s w of
       Inl e \<Rightarrow> (Inl (Plain e), c, w)
     | Inr True \<Rightarrow> transition s PausedState c w
     | Inr False \<Rightarrow>
         (case runType s c w of
            Created \<Rightarrow> transition s CreatedState c w
          | Running \<Rightarrow> transition s RunningState c w
          | _ \<Rightarrow> transition s StoppedState c w))"

definition currentStatus :: "('w, 'z) sys_scheme \<Rightarrow> (status, 'w) act" where
  "currentStatus s = act_bind (refreshState s) (\<lambda>_ c w. (Inr (state_status (cn_state c)), c, w))"

definition currentOCIState :: "('w, 'z) sys_scheme \<Rightarrow> (oci_state, 'w) act" where
  "currentOCIState s =
    act_bind (currentStatus s) (\<lambda>st c w.
      (case Annotations (c_Labels (cn_config c)) of (bundle, ann) \<Rightarrow>
        (Inr \<lparr>oci_ID = cn_id c, oci_Status = status_String st,
              oci_Pid = (if st \<noteq> Stopped then (case cn_initProcess c of None \<Rightarrow> 0 | Some p \<Rightarrow> pp_pid p) else 0),
              oci_Bundle = bundle, oci_Annotations = ann\<rparr>, c, w)))"

section \<open>Hooks and destruction\<close>

fun RunHooks :: "('w, 'z) sys_scheme \<Rightarrow> nat \<Rightarrow> hook list \<Rightarrow> oci_state \<Rightarrow> (unit, 'w) act" where
  "RunHooks s i [] st c w = (Inr (), c, w)"
| "RunHooks s i (h # hs) st c w =
    (case s_runHook s h st w of
       (Some e, w') \<Rightarrow> (Inl (HookFailed i e), c, w')
     | (None, w') \<Rightarrow> RunHooks s (i + 1) hs st c w')"

definition runPoststopHooks :: "('w, 'z) sys_scheme \<Rightarrow> (unit, 'w) act" where
  "runPoststopHooks s c w =
    (case c_Hooks (cn_config c) of
       None \<Rightarrow> (Inr (), c, w)
     | Some hooks \<Rightarrow>
         act_bind (currentOCIState s) (\<lambda>st. RunHooks s 0 (hooks Poststop) (st\<lparr>oci_Status := ''stopped''\<rparr>)) c w)"

definition SIGKILL :: int where "SIGKILL = 9"

fun signal_each :: "('w, 'z) sys_scheme \<Rightarrow> int \<Rightarrow> int list \<Rightarrow> 'w \<Rightarrow> 'w" where
  "signal_each s sig [] w = w"
| "signal_each s sig (p # ps) w = signal_each s sig ps (snd (s_signal s p sig w))"

fun wait_each :: "('w, 'z) sys_scheme \<Rightarrow> int \<Rightarrow> bool \<Rightarrow> int list \<Rightarrow> 'w \<Rightarrow> 'w" where
  "wait_each s sig reap [] w = w"
| "wait_each s sig reap (p # ps) w =
    wait_each s sig reap ps
      (if (sig = SIGKILL \<or> s_isWaitable s p w = Inr True) \<and> reap then s_wait s p w else w)"

text \<open>\<^verbatim>\<open>os.FindProcess\<close> never fails on Unix; errors of \<^verbatim>\<open>Freeze\<close>, \<^verbatim>\<open>Signal\<close> and \<^verbatim>\<open>Wait\<close> are only logged.\<close>

definition signalAllProcesses :: "('w, 'z) sys_scheme \<Rightarrow> int \<Rightarrow> 'w \<Rightarrow> go_err option \<times> 'w" where
  "signalAllProcesses s sig w =
    (let w1 = snd (cg_Freeze s Frozen w) in
     case cg_GetAllPids s w1 of
       Inl e \<Rightarrow> (Some e, snd (cg_Freeze s Thawed w1))
     | Inr pids \<Rightarrow>
         (let w2 = snd (cg_Freeze s Thawed (signal_each s sig pids w1));
              subreaper = (case s_subreaper s w2 of Inl _ \<Rightarrow> 0 | Inr r \<Rightarrow> r)
          in (None, wait_each s sig (subreaper = 0) pids w2)))"

definition first_error :: "'e option \<Rightarrow> 'e option \<Rightarrow> 'e option" where
  "first_error err later = (case err of None \<Rightarrow> later | Some e \<Rightarrow> Some e)"

definition own_pid_ns :: "config \<Rightarrow> bool" where
  "own_pid_ns cf \<longleftrightarrow> ns_Contains (c_Namespaces cf) NEWPID \<and> ns_PathOf (c_Namespaces cf) NEWPID = []"

definition destroy :: "('w, 'z) sys_scheme \<Rightarrow> (unit, 'w) act" where
  "destroy s c w =
    (let w1 = (if own_pid_ns (cn_config c) then w else snd (signalAllProcesses s SIGKILL w)) in
     case cg_Destroy s w1 of (err1, w2) \<Rightarrow>
     (case (if cn_rdt c then s_rdtDestroy s w2 else (None, w2)) of (ierr, w3) \<Rightarrow>
     (case s_RemoveAll s (cn_root c) w3 of (rerr, w4) \<Rightarrow>
     (case runPoststopHooks s (c\<lparr>cn_initProcess := None\<rparr>) w4 of (hres, c5, w5) \<Rightarrow>
       (let herr = (case hres of Inl e \<Rightarrow> Some e | Inr _ \<Rightarrow> None);
            err = first_error (map_option Plain (first_error (first_error err1 ierr) rerr)) herr
        in (case err of None \<Rightarrow> Inr () | Some e \<Rightarrow> Inl e, c5\<lparr>cn_state := StoppedState\<rparr>, w5))))))"

text \<open>The \<^verbatim>\<open>destroy\<close> method of the current state. A loaded state refreshes itself first, which always
  replaces it, so the method it then calls is not its own.\<close>

lemma transition_loaded: "cn_state c = LoadedState st \<Longrightarrow> transition s t c w = (Inr (), c\<lparr>cn_state := t\<rparr>, w)"
  by (simp add: transition_def Let_def)

lemma refreshState_loaded:
  assumes "(Inr u, c', w') = refreshState s c w" and "cn_state c = LoadedState st"
  shows "cn_state c' \<noteq> LoadedState st'"
  using assms(1) [symmetric] assms(2) by (auto simp: refreshState_def transition_loaded split: sum.splits bool.splits status.splits)

function state_destroy :: "('w, 'z) sys_scheme \<Rightarrow> container \<Rightarrow> 'w \<Rightarrow> (cerr, unit) res \<times> container \<times> 'w" where
  "state_destroy s c w =
    (case cn_state c of
       StoppedState \<Rightarrow> destroy s c w
     | RunningState \<Rightarrow>
         if runType s c w = Running then (Inl (Generic ContainerNotStopped ''container is not destroyed''), c, w)
         else destroy s c w
     | CreatedState \<Rightarrow>
         (case cn_initProcess c of
            None \<Rightarrow> (Inl NilPanic, c, w)
          | Some p \<Rightarrow> destroy s c (snd (s_signal s (pp_pid p) SIGKILL w)))
     | PausedState \<Rightarrow>
         (let t = runType s c w in
          if t \<noteq> Running \<and> t \<noteq> Created then
            (case cg_Freeze s Thawed w of
               (Some e, w') \<Rightarrow> (Inl (Plain e), c, w')
             | (None, w') \<Rightarrow> destroy s c w')
          else (Inl (Generic ContainerPaused ''container is paused''), c, w))
     | RestoredState d \<Rightarrow>
         (case s_osStat s (Join [cn_root c, ''checkpoint'']) w of
            Some e \<Rightarrow> if IsNotExist e then destroy s c w else (Inl (Plain e), c, w)
          | None \<Rightarrow> destroy s c w)
     | LoadedState st \<Rightarrow>
         (case refreshState s c w of
            (Inl e, c', w') \<Rightarrow> (Inl e, c', w')
          | (Inr u, c', w') \<Rightarrow> state_destroy s c' w'))"
  by pat_completeness auto
termination
  by (relation "measure (\<lambda>(s, c, w). case cn_state c of LoadedState _ \<Rightarrow> 1 | _ \<Rightarrow> 0)")
    (auto dest: refreshState_loaded split: container_state.splits)

declare state_destroy.simps [simp del]

section \<open>Container operations\<close>

definition Status :: "('w, 'z) sys_scheme \<Rightarrow> (status, 'w) act" where
  "Status s = currentStatus s"

definition Processes :: "('w, 'z) sys_scheme \<Rightarrow> (int list, 'w) act" where
  "Processes s =
    act_bind (currentStatus s) (\<lambda>st c w.
      if st = Stopped \<and> \<not> cg_Exists s w then (Inr [], c, w)
      else (case cg_GetAllPids s w of
              Inl e \<Rightarrow> (Inl (System e ''getting all container pids from cgroups''), c, w)
            | Inr pids \<Rightarrow> (Inr pids, c, w)))"

definition Destroy :: "('w, 'z) sys_scheme \<Rightarrow> (unit, 'w) act" where
  "Destroy s = state_destroy s"

definition Pause :: "('w, 'z) sys_scheme \<Rightarrow> (unit, 'w) act" where
  "Pause s =
    act_bind (currentStatus s) (\<lambda>st.
      if st = Running \<or> st = Created then
        act_bind (act_world Plain (cg_Freeze s Frozen)) (\<lambda>_. transition s PausedState)
      else act_fail (Generic ContainerNotRunning (''container not running or created: '' @ status_String st)))"

definition Resume :: "('w, 'z) sys_scheme \<Rightarrow> (unit, 'w) act" where
  "Resume s =
    act_bind (currentStatus s) (\<lambda>st.
      if st \<noteq> Paused then act_fail (Generic ContainerNotPaused ''container not paused'')
      else act_bind (act_world Plain (cg_Freeze s Thawed)) (\<lambda>_. transition s RunningState))"

definition Signal :: "('w, 'z) sys_scheme \<Rightarrow> int \<Rightarrow> bool \<Rightarrow> (unit, 'w) act" where
  "Signal s sig all =
    act_bind (currentStatus s) (\<lambda>st c w.
      if all then
        (if st = Stopped \<and> \<not> cg_Exists s w then (Inr (), c, w)
         else act_world Plain (signalAllProcesses s sig) c w)
      else if st = Running \<or> st = Created \<or> st = Paused then
        (case cn_initProcess c of
           None \<Rightarrow> (Inl NilPanic, c, w)
         | Some p \<Rightarrow> act_world (\<lambda>e. System e ''signaling init process'') (s_signal s (pp_pid p) sig) c w)
      else (Inl (Generic ContainerNotRunning ''container not running''), c, w))"

section \<open>Saving the state\<close>

fun fill_paths :: "(namespace_type \<Rightarrow> bool) \<Rightarrow> int \<Rightarrow> namespace_type list \<Rightarrow> (namespace_type \<rightharpoonup> string) \<Rightarrow>
  namespace_type \<rightharpoonup> string" where
  "fill_paths ok pid [] m = m"
| "fill_paths ok pid (t # ts) m =
    (if \<not> ok t then fill_paths ok pid ts m
     else case m t of
       Some _ \<Rightarrow> fill_paths ok pid ts m
     | None \<Rightarrow> fill_paths ok pid ts (m(t \<mapsto> ns_GetPath \<lparr>ns_Type = t, ns_Path = []\<rparr> pid)))"

definition namespace_paths :: "(namespace_type \<Rightarrow> bool) \<Rightarrow> int \<Rightarrow> namespaces \<Rightarrow> namespace_type \<rightharpoonup> string" where
  "namespace_paths ok pid ns =
    fill_paths ok pid NamespaceTypes (fold (\<lambda>n m. m(ns_Type n \<mapsto> ns_GetPath n pid)) ns Map.empty)"

definition currentState :: "('w, 'z) sys_scheme \<Rightarrow> container \<Rightarrow> 'w \<Rightarrow> saved_state" where
  "currentState s c w =
    (let pid = (case cn_initProcess c of None \<Rightarrow> -1 | Some p \<Rightarrow> pp_pid p) in
     \<lparr>sv_ID = cn_id c, sv_Config = cn_config c, sv_InitProcessPid = pid,
      sv_InitProcessStartTime = (case cn_initProcess c of None \<Rightarrow> 0 | Some p \<Rightarrow> pp_startTime p),
      sv_Created = cn_created c,
      sv_Rootless = (c_RootlessEUID (cn_config c) \<and> c_RootlessCgroups (cn_config c)),
      sv_CgroupPaths = cg_GetPaths s w,
      sv_IntelRdtPath = (case s_rdtPath s (cn_id c) of Inl _ \<Rightarrow> [] | Inr p \<Rightarrow> p),
      sv_NamespacePaths =
        (if pid > 0 then namespace_paths (s_nsSupported s) pid (c_Namespaces (cn_config c)) else Map.empty),
      sv_ExternalDescriptors = (case cn_initProcess c of None \<Rightarrow> [] | Some p \<Rightarrow> pp_fds p)\<rparr>)"

definition stateFilename :: string where "stateFilename = ''state.json''"

text \<open>The deferred clean-up closes and removes the temporary file on every error after its creation.\<close>

definition saveState :: "('w, 'z) sys_scheme \<Rightarrow> string \<Rightarrow> saved_state \<Rightarrow> 'w \<Rightarrow> go_err option \<times> 'w" where
  "saveState s root st w =
    (case s_TempFile s root ''state-'' w of
       (Inl e, w1) \<Rightarrow> (Some e, w1)
     | (Inr tmp, w1) \<Rightarrow>
         (let cleanup = (\<lambda>w. snd (s_Remove s tmp (snd (s_Close s tmp w)))) in
          case s_WriteJSON s tmp st w1 of
            (Some e, w2) \<Rightarrow> (Some e, cleanup w2)
          | (None, w2) \<Rightarrow>
              (case s_Close s tmp w2 of
                 (Some e, w3) \<Rightarrow> (Some e, cleanup w3)
               | (None, w3) \<Rightarrow>
                   (case s_Rename s tmp (Join [root, stateFilename]) w3 of
                      (Some e, w4) \<Rightarrow> (Some e, cleanup w4)
                    | (None, w4) \<Rightarrow> (None, w4)))))"

definition updateState :: "('w, 'z) sys_scheme \<Rightarrow> parent_process option \<Rightarrow> (saved_state, 'w) act" where
  "updateState s process c w =
    (let c1 = (case process of None \<Rightarrow> c | Some p \<Rightarrow> c\<lparr>cn_initProcess := Some p\<rparr>);
         st = currentState s c1 w
     in case saveState s (cn_root c1) st w of
          (Some e, w1) \<Rightarrow> (Inl (Plain e), c1, w1)
        | (None, w1) \<Rightarrow> (Inr st, c1, w1))"

definition Set :: "('w, 'z) sys_scheme \<Rightarrow> config \<Rightarrow> (unit, 'w) act" where
  "Set s cf =
    act_bind (currentStatus s) (\<lambda>st c w.
      if st = Stopped then (Inl (Generic ContainerNotRunning ''container not running''), c, w)
      else case cg_Set s cf w of
        (Some e, w1) \<Rightarrow> (Inl (Plain e), c, snd (cg_Set s (cn_config c) w1))
      | (None, w1) \<Rightarrow>
          (case (if cn_rdt c then s_rdtSet s cf w1 else (None, w1)) of
             (Some e, w2) \<Rightarrow>
               (Inl (Plain e), c, snd (s_rdtSet s (cn_config c) (snd (cg_Set s (cn_config c) w2))))
           | (None, w2) \<Rightarrow>
               act_bind (updateState s None) (\<lambda>_. act_return ()) (c\<lparr>cn_config := cf\<rparr>) w2))"

section \<open>Starting\<close>

definition exec_fifo :: "container \<Rightarrow> string" where
  "exec_fifo c = Join [cn_root c, execFifoFilename]"

definition createExecFifo :: "('w, 'z) sys_scheme \<Rightarrow> (unit, 'w) act" where
  "createExecFifo s c w =
    (case HostRootUID (cn_config c) of Inl e \<Rightarrow> (Inl (ConfigErr e), c, w) | Inr rootuid \<Rightarrow>
    (case HostRootGID (cn_config c) of Inl e \<Rightarrow> (Inl (ConfigErr e), c, w) | Inr rootgid \<Rightarrow>
     if s_osStat s (exec_fifo c) w = None
     then (Inl (Plain (ErrText (''exec fifo '' @ exec_fifo c @ '' already exists''))), c, w)
     else act_bind (act_world Plain (s_Mkfifo s (exec_fifo c)))
            (\<lambda>_. act_world Plain (s_Chown s (exec_fifo c) rootuid rootgid)) c w))"

definition deleteExecFifo :: "('w, 'z) sys_scheme \<Rightarrow> container \<Rightarrow> 'w \<Rightarrow> 'w" where
  "deleteExecFifo s c w = snd (s_Remove s (exec_fifo c) w)"

text \<open>The parent process of \<^verbatim>\<open>process_linux.go\<close>: how it is made, started and terminated\<close>

record 'w launcher =
  l_new :: "(unit, 'w) act"
  l_start :: "(unit, 'w) act"
  l_terminate :: "'w \<Rightarrow> 'w"

definition wrap_system :: "string \<Rightarrow> ('a, 'w) act \<Rightarrow> ('a, 'w) act" where
  "wrap_system cause m c w =
    (case m c w of
       (Inl e, c', w') \<Rightarrow> (Inl (Wrapped e cause), c', w')
     | r \<Rightarrow> r)"

definition cont_start :: "('w, 'z) sys_scheme \<Rightarrow> 'w launcher \<Rightarrow> bool \<Rightarrow> (unit, 'w) act" where
  "cont_start s l init =
    act_bind (wrap_system ''creating new parent process'' (l_new l)) (\<lambda>_.
    act_bind (wrap_system ''starting container process'' (l_start l)) (\<lambda>_ c w.
      case c_Hooks (cn_config c) of
        Some hooks \<Rightarrow>
          if init then
            act_bind (currentOCIState s) (\<lambda>st c w.
              case RunHooks s 0 (hooks Poststart) st c w of
                (Inl e, c', w') \<Rightarrow> (Inl e, c', l_terminate l w')
              | r \<Rightarrow> r) c w
          else (Inr (), c, w)
      | None \<Rightarrow> (Inr (), c, w)))"

definition Start :: "('w, 'z) sys_scheme \<Rightarrow> 'w launcher \<Rightarrow> bool \<Rightarrow> (unit, 'w) act" where
  "Start s l init c w =
    (if r_SkipDevices (cg_Resources (c_Cgroups (cn_config c)))
     then (Inl (Generic ConfigInvalid ''can't start container with SkipDevices set''), c, w)
     else case (if init then createExecFifo s c w else (Inr (), c, w)) of
       (Inl e, c1, w1) \<Rightarrow> (Inl e, c1, w1)
     | (Inr _, c1, w1) \<Rightarrow>
         (case cont_start s l init c1 w1 of
            (Inl e, c2, w2) \<Rightarrow> (Inl e, c2, if init then deleteExecFifo s c2 w2 else w2)
          | (Inr _, c2, w2) \<Rightarrow> (Inr (), c2, w2)))"

text \<open>What opening the exec fifo yields, and what the wait loop sees: the blocking open returned, or
  100 ms passed. \<^verbatim>\<open>None\<close> as the result of \<^verbatim>\<open>exec_loop\<close> means it is still waiting after these events.\<close>

datatype open_result = OpenErr go_err | Opened "string + go_err"

datatype exec_event = FifoOpen open_result | Tick "(go_err, proc_stat) res" open_result

definition readFromExecFifo :: "string + go_err \<Rightarrow> cerr option" where
  "readFromExecFifo r =
    (case r of
       Inr e \<Rightarrow> Some (Plain e)
     | Inl data \<Rightarrow> if data = [] then Some (Plain (ErrText ''cannot start an already running container'')) else None)"

definition handleFifoResult :: "('w, 'z) sys_scheme \<Rightarrow> open_result \<Rightarrow> (unit, 'w) act" where
  "handleFifoResult s r c w =
    (case r of
       OpenErr e \<Rightarrow> (Inl (System e ''open exec fifo for reading''), c, w)
     | Opened f \<Rightarrow>
         (case readFromExecFifo f of
            Some e \<Rightarrow> (Inl e, c, w)
          | None \<Rightarrow> act_world Plain (s_Remove s (exec_fifo c)) c w))"

fun exec_loop :: "('w, 'z) sys_scheme \<Rightarrow> exec_event list \<Rightarrow> container \<Rightarrow> 'w \<Rightarrow> ((cerr, unit) res \<times> container \<times> 'w) option" where
  "exec_loop s [] c w = None"
| "exec_loop s (FifoOpen r # es) c w = Some (handleFifoResult s r c w)"
| "exec_loop s (Tick st r # es) c w =
    (if (case st of Inl _ \<Rightarrow> True | Inr x \<Rightarrow> ps_State x = Zombie) then
       Some (case handleFifoResult s r c w of
               (Inl e, c', w') \<Rightarrow> (Inl (Plain (ErrText ''container process is already dead'')), c', w')
             | (Inr _, c', w') \<Rightarrow> (Inr (), c', w'))
     else exec_loop s es c w)"

definition cont_exec :: "('w, 'z) sys_scheme \<Rightarrow> exec_event list \<Rightarrow> container \<Rightarrow> 'w \<Rightarrow> ((cerr, unit) res \<times> container \<times> 'w) option" where
  "cont_exec s es c w =
    (case cn_initProcess c of None \<Rightarrow> Some (Inl NilPanic, c, w) | Some _ \<Rightarrow> exec_loop s es c w)"

definition Run :: "('w, 'z) sys_scheme \<Rightarrow> 'w launcher \<Rightarrow> bool \<Rightarrow> exec_event list \<Rightarrow> container \<Rightarrow> 'w \<Rightarrow>
  ((cerr, unit) res \<times> container \<times> 'w) option" where
  "Run s l init es c w =
    (case Start s l init c w of
       (Inl e, c1, w1) \<Rightarrow> Some (Inl e, c1, w1)
     | (Inr _, c1, w1) \<Rightarrow> if init then cont_exec s es c1 w1 else Some (Inr (), c1, w1))"

section \<open>Namespace paths to join\<close>

fun orderNamespacePaths_loop :: "(string \<Rightarrow> go_err option) \<Rightarrow> (namespace_type \<Rightarrow> bool) \<Rightarrow> namespaces \<Rightarrow>
  (namespace_type \<rightharpoonup> string) \<Rightarrow> namespace_type list \<Rightarrow> string list \<Rightarrow> (cerr, string list) res" where
  "orderNamespacePaths_loop lstat ok cfg m [] paths = Inr paths"
| "orderNamespacePaths_loop lstat ok cfg m (t # ts) paths =
    (if \<not> ns_Contains cfg t then orderNamespacePaths_loop lstat ok cfg m ts paths
     else case m t of
       None \<Rightarrow> orderNamespacePaths_loop lstat ok cfg m ts paths
     | Some p \<Rightarrow>
         if p = [] then orderNamespacePaths_loop lstat ok cfg m ts paths
         else if \<not> ok t then Inl (System (ErrText (''namespace '' @ t @ '' is not supported'')) [])
         else case lstat p of
           Some e \<Rightarrow> Inl (System e (''running lstat on namespace path '' @ p))
         | None \<Rightarrow>
             if CHR '','' \<in> set p then Inl (System (ErrText (''invalid path '' @ p)) [])
             else orderNamespacePaths_loop lstat ok cfg m ts (paths @ [NsName t @ '':'' @ p]))"

definition orderNamespacePaths :: "(string \<Rightarrow> go_err option) \<Rightarrow> (namespace_type \<Rightarrow> bool) \<Rightarrow> namespaces \<Rightarrow>
  (namespace_type \<rightharpoonup> string) \<Rightarrow> (cerr, string list) res" where
  "orderNamespacePaths lstat ok cfg m = orderNamespacePaths_loop lstat ok cfg m NamespaceTypes []"

definition encodeIDMapping :: "IDMap list \<Rightarrow> string" where
  "encodeIDMapping ms =
    concat (map (\<lambda>m. Itoa (im_ContainerID m) @ '' '' @ Itoa (im_HostID m) @ '' '' @ Itoa (im_Size m) @ [CHR 0x0A]) ms)"

section \<open>Frames\<close>

text \<open>An action keeps a predicate of the container.\<close>

definition keeps :: "(container \<Rightarrow> bool) \<Rightarrow> ('a, 'w) act \<Rightarrow> bool" where
  "keeps P m \<longleftrightarrow> (\<forall>c w. P c \<longrightarrow> P (fst (snd (m c w))))"

lemma keepsD: "keeps P m \<Longrightarrow> P c \<Longrightarrow> m c w = (r, c', w') \<Longrightarrow> P c'"
  unfolding keeps_def by (metis fst_conv snd_conv)

lemma keeps_bind: "keeps P m \<Longrightarrow> (\<And>a. keeps P (f a)) \<Longrightarrow> keeps P (act_bind m f)"
  by (auto simp: keeps_def act_bind_def split: prod.splits sum.splits) (metis fst_conv snd_conv)+

lemma keeps_basic [simp]:
  "keeps P (act_return a)" "keeps P (act_fail e)" "keeps P (act_world g f)"
  by (auto simp: keeps_def act_defs split: prod.splits option.splits)

lemma runType_state [simp]: "runType s (c\<lparr>cn_state := x\<rparr>) w = runType s c w"
  by (simp add: runType_def cong: option.case_cong sum.case_cong if_cong del: Join.simps)

lemma transition_frame:
  "\<exists>st r. transition s t c w = (r, c\<lparr>cn_state := st\<rparr>, w)"
  by (auto simp: transition_def Let_def split: container_state.splits intro: exI [of _ "cn_state c"])

lemma refreshState_frame: "\<exists>st r. refreshState s c w = (r, c\<lparr>cn_state := st\<rparr>, w)"
  using transition_frame [of s _ c w]
  by (auto simp: refreshState_def split: sum.splits bool.splits status.splits intro: exI [of _ "cn_state c"])

lemma currentStatus_frame: "\<exists>st r. currentStatus s c w = (r, c\<lparr>cn_state := st\<rparr>, w)"
  using refreshState_frame [of s c w] by (auto simp: currentStatus_def act_defs split: sum.splits)

lemma currentOCIState_frame: "\<exists>st r. currentOCIState s c w = (r, c\<lparr>cn_state := st\<rparr>, w)"
  using currentStatus_frame [of s c w]
  by (auto simp: currentOCIState_def act_defs split: sum.splits prod.splits)

definition unloaded :: "container_state \<Rightarrow> bool" where
  "unloaded x \<longleftrightarrow> (\<forall>st. x \<noteq> LoadedState st)"

lemma unloaded_simps [simp]: "unloaded StoppedState" "unloaded RunningState" "unloaded CreatedState" "unloaded PausedState"
  "unloaded (RestoredState d)" "\<not> unloaded (LoadedState st)"
  by (simp_all add: unloaded_def)

lemma transition_ok:
  assumes "transition s t c w = (Inr (), c', w')" and "unloaded t"
  obtains x where "c' = c\<lparr>cn_state := x\<rparr>" "w' = w" "unloaded x" "x = t \<or> (x = cn_state c \<and> c' = c)"
proof -
  have "w' = w \<and> (c' = c \<and> unloaded (cn_state c) \<or> c' = c\<lparr>cn_state := t\<rparr>)"
    using assms(1) unfolding transition_def Let_def by (cases "cn_state c"; cases t) (simp_all split: if_splits)
  then consider "w' = w" "c' = c" "unloaded (cn_state c)" | "w' = w" "c' = c\<lparr>cn_state := t\<rparr>" by blast
  then show thesis
  proof cases
    case 1
    then show thesis by (intro that [of "cn_state c"]) (cases c, simp_all)
  next
    case 2
    then show thesis using assms(2) by (intro that [of t]) simp_all
  qed
qed

lemma refreshState_ok:
  assumes "refreshState s c w = (Inr (), c', w')"
  obtains x where "c' = c\<lparr>cn_state := x\<rparr>" "w' = w" "unloaded x"
  using assms by (auto simp: refreshState_def split: sum.splits bool.splits status.splits elim!: transition_ok)

lemma currentStatus_ok:
  assumes "currentStatus s c w = (Inr st, c', w')"
  obtains x where "c' = c\<lparr>cn_state := x\<rparr>" "w' = w" "unloaded x" "state_status x = st"
  using assms by (auto simp: currentStatus_def act_defs split: sum.splits prod.splits elim!: refreshState_ok)

lemma RunHooks_frame: "fst (snd (RunHooks s i hs st c w)) = c"
  by (induction s i hs st c w rule: RunHooks.induct) (auto split: prod.splits option.splits)

definition no_process :: "container \<Rightarrow> bool" where
  "no_process c \<longleftrightarrow> cn_initProcess c = None"

definition gone :: "container \<Rightarrow> bool" where
  "gone c \<longleftrightarrow> cn_state c = StoppedState \<and> cn_initProcess c = None"

lemma no_process_state [simp]: "no_process (c\<lparr>cn_state := st\<rparr>) = no_process c"
  by (simp add: no_process_def)

lemma keeps_no_process:
  "keeps no_process (transition s t)" "keeps no_process (currentStatus s)" "keeps no_process (currentOCIState s)"
  unfolding keeps_def using transition_frame currentStatus_frame currentOCIState_frame
  by (metis fst_conv snd_conv no_process_state)+

lemma keeps_RunHooks: "keeps P (RunHooks s i hs st)"
  by (simp add: keeps_def RunHooks_frame)

lemma keeps_runPoststopHooks: "keeps no_process (runPoststopHooks s)"
proof -
  have "keeps no_process (act_bind (currentOCIState s) (\<lambda>st. RunHooks s 0 hs (st\<lparr>oci_Status := ''stopped''\<rparr>)))" for hs
    by (intro keeps_bind keeps_no_process keeps_RunHooks)
  then show ?thesis by (auto simp: keeps_def runPoststopHooks_def split: option.splits)
qed

lemma destroy_gone:
  assumes "destroy s c w = (r, c', w')"
  shows "gone c'"
proof -
  have "no_process (fst (snd (runPoststopHooks s (c\<lparr>cn_initProcess := None\<rparr>) v)))" for v
    using keeps_runPoststopHooks [of s] by (simp add: keeps_def no_process_def)
  then show ?thesis
    using assms unfolding destroy_def Let_def gone_def no_process_def
    by (auto split: prod.splits) (metis fst_conv snd_conv)+
qed

text \<open>A container with no process is observed as stopped.\<close>

lemma runType_no_process: "no_process c \<Longrightarrow> runType s c w = Stopped"
  by (simp add: runType_def no_process_def)

lemma keeps_gone_refresh: "keeps gone (refreshState s)"
  by (auto simp: keeps_def gone_def refreshState_def runType_no_process no_process_def transition_def
      split: sum.splits bool.splits)

lemma keeps_gone_status: "keeps gone (currentStatus s)"
  unfolding currentStatus_def by (intro keeps_bind keeps_gone_refresh) (simp add: keeps_def)

lemma status_of_gone:
  assumes "gone c" and "currentStatus s c w = (Inr st, c', w')"
  shows "st = Stopped"
  using keepsD [OF keeps_gone_status assms] assms(2)
  by (auto simp: currentStatus_def act_defs gone_def split: sum.splits prod.splits)

text \<open>An action that starts with the status check keeps a destroyed container so, if it does for the
  status Stopped.\<close>

lemma keeps_gone_bind:
  assumes "keeps gone (f Stopped)"
  shows "keeps gone (act_bind (currentStatus s) f)"
proof -
  { fix c w assume c: "gone c"
    obtain r c1 w1 where r: "currentStatus s c w = (r, c1, w1)" by (cases "currentStatus s c w")
    have "gone c1" using keepsD [OF keeps_gone_status c r] .
    moreover have "st = Stopped" if "r = Inr st" for st using status_of_gone [OF c, of s w st c1 w1] r that by simp
    ultimately have "gone (fst (snd (act_bind (currentStatus s) f c w)))"
      using r assms by (cases r) (auto simp: act_bind_def keeps_def) }
  then show ?thesis by (simp add: keeps_def)
qed

lemma keeps_gone_destroy: "keeps gone (state_destroy s)"
proof -
  { fix c :: container and w assume c: "gone c"
    then have "state_destroy s c w = destroy s c w" by (subst state_destroy.simps) (simp add: gone_def)
    moreover obtain r c' w' where "destroy s c w = (r, c', w')" by (cases "destroy s c w")
    ultimately have "gone (fst (snd (state_destroy s c w)))" using destroy_gone by simp }
  then show ?thesis by (simp add: keeps_def)
qed

section \<open>The container as a state machine\<close>

text \<open>A step is one public operation, or a change of the outside world between two of them: processes
  exit, other programs freeze and thaw the cgroup.\<close>

inductive cstep :: "('w, 'z) sys_scheme \<Rightarrow> container \<times> 'w \<Rightarrow> container \<times> 'w \<Rightarrow> bool" for s where
  environment: "cstep s (c, w) (c, w')"
| status: "Status s c w = (r, c', w') \<Longrightarrow> cstep s (c, w) (c', w')"
| processes: "Processes s c w = (r, c', w') \<Longrightarrow> cstep s (c, w) (c', w')"
| pause: "Pause s c w = (r, c', w') \<Longrightarrow> cstep s (c, w) (c', w')"
| resume: "Resume s c w = (r, c', w') \<Longrightarrow> cstep s (c, w) (c', w')"
| signal: "Signal s sig all c w = (r, c', w') \<Longrightarrow> cstep s (c, w) (c', w')"
| set_config: "Set s cf c w = (r, c', w') \<Longrightarrow> cstep s (c, w) (c', w')"
| destroy: "Destroy s c w = (r, c', w') \<Longrightarrow> cstep s (c, w) (c', w')"

inductive_cases cstep_cases: "cstep s (c, w) (c', w')"

lemma keeps_gone_ops:
  "keeps gone (Status s)" "keeps gone (Processes s)" "keeps gone (Pause s)" "keeps gone (Resume s)"
  "keeps gone (Signal s sig all)" "keeps gone (Set s cf)" "keeps gone (Destroy s)"
proof -
  show "keeps gone (Status s)" by (simp add: Status_def keeps_gone_status)
  show "keeps gone (Processes s)"
    unfolding Processes_def by (rule keeps_gone_bind) (auto simp: keeps_def split: sum.splits)
  show "keeps gone (Pause s)" unfolding Pause_def by (rule keeps_gone_bind) simp
  show "keeps gone (Resume s)" unfolding Resume_def by (rule keeps_gone_bind) simp
  show "keeps gone (Signal s sig all)"
    unfolding Signal_def by (rule keeps_gone_bind) (auto simp: keeps_def act_world_def split: prod.splits option.splits)
  show "keeps gone (Set s cf)" unfolding Set_def by (rule keeps_gone_bind) (simp add: keeps_def)
  show "keeps gone (Destroy s)" by (simp add: Destroy_def keeps_gone_destroy)
qed

lemma cstep_gone: "cstep s (c, w) (c', w') \<Longrightarrow> gone c \<Longrightarrow> gone c'"
  by (erule cstep_cases) (auto dest: keeps_gone_ops [THEN keepsD])

section \<open>A faithful freezer\<close>

text \<open>What pausing relies on: a successful \<^verbatim>\<open>Freeze\<close> is visible in \<^verbatim>\<open>GetFreezerState\<close>, and freezing changes
  neither the process table nor the files that tell a created container from a running one.\<close>

locale faithful_freezer =
  fixes s :: "('w, 'z) sys_scheme"
  assumes freeze_frozen: "cg_Freeze s Frozen w = (None, w') \<Longrightarrow> cg_GetFreezerState s w' = Inr Frozen"
    and freeze_thawed: "cg_Freeze s Thawed w = (None, w') \<Longrightarrow> cg_GetFreezerState s w' \<noteq> Inr Frozen"
    and freeze_stat: "cg_Freeze s x w = (e, w') \<Longrightarrow> s_Stat s p w' = s_Stat s p w"
    and freeze_osStat: "cg_Freeze s x w = (e, w') \<Longrightarrow> s_osStat s f w' = s_osStat s f w"
begin

lemma runType_freeze:
  assumes "cg_Freeze s x w = (e, w')"
  shows "runType s c w' = runType s c w"
  unfolding runType_def freeze_stat [OF assms] freeze_osStat [OF assms] ..

lemma pause_effect:
  assumes "Pause s c w = (Inr (), c1, w1)"
  shows "c1 = c\<lparr>cn_state := PausedState\<rparr> \<and> cg_GetFreezerState s w1 = Inr Frozen \<and> (\<forall>d. runType s d w1 = runType s d w)"
proof -
  obtain st r where cur: "currentStatus s c w = (r, c\<lparr>cn_state := st\<rparr>, w)" using currentStatus_frame [of s c w] by auto
  then obtain v where f: "cg_Freeze s Frozen w = (None, v)" "transition s PausedState (c\<lparr>cn_state := st\<rparr>) v = (Inr (), c1, w1)"
    using assms by (auto simp: Pause_def act_defs split: sum.splits if_splits prod.splits option.splits)
  have st: "state_status st = Running \<or> state_status st = Created"
    using assms cur by (auto simp: Pause_def act_defs currentStatus_def split: sum.splits if_splits prod.splits)
  have "c1 = c\<lparr>cn_state := PausedState\<rparr>" "w1 = v"
    using f(2) st by (auto simp: transition_def Let_def split: container_state.splits)
  then show ?thesis using freeze_frozen [OF f(1)] runType_freeze [OF f(1)] by simp
qed

lemma resume_effect:
  assumes "cn_state c = PausedState" and "Resume s c w = (Inr (), c1, w1)"
  shows "c1 = c\<lparr>cn_state := RunningState\<rparr> \<and> cg_GetFreezerState s w1 \<noteq> Inr Frozen \<and> (\<forall>d. runType s d w1 = runType s d w)"
proof -
  obtain c0 w0 where cur: "currentStatus s c w = (Inr Paused, c0, w0)"
    using assms by (auto simp: Resume_def act_defs split: sum.splits if_splits prod.splits)
  then obtain st where st: "c0 = c\<lparr>cn_state := st\<rparr>" "w0 = w" "unloaded st" "state_status st = Paused"
    by (rule currentStatus_ok)
  then have "st = PausedState" by (cases st) (auto simp: unloaded_def)
  then obtain v where f: "cg_Freeze s Thawed w = (None, v)" "c1 = c\<lparr>cn_state := RunningState\<rparr>" "w1 = v"
    using assms cur st by (auto simp: Resume_def act_defs transition_def Let_def split: sum.splits if_splits prod.splits option.splits)
  then show ?thesis using freeze_thawed [OF f(1)] runType_freeze [OF f(1)] by simp
qed

lemma paused_status:
  assumes "Pause s c w = (Inr (), c1, w1)"
  shows "Status s c1 w1 = (Inr Paused, c1, w1)"
  using pause_effect [OF assms]
  by (simp add: Status_def currentStatus_def act_defs refreshState_def isPaused_def transition_def res_map_def)

text \<open>Pausing and resuming gives back what is observed of a running container; a created one is put in the
  running state, from which its next observation is an invalid transition.\<close>

lemma resumed_status:
  assumes "Pause s c w = (Inr (), c1, w1)" and "Resume s c1 w1 = (Inr (), c2, w2)" and "cg_GetFreezerState s w2 = Inr f"
  shows "Status s c2 w2 =
    (case runType s c w of
       Created \<Rightarrow> (Inl (StateTransition Running Created), c2, w2)
     | Running \<Rightarrow> (Inr Running, c2, w2)
     | _ \<Rightarrow> (Inr Stopped, c2\<lparr>cn_state := StoppedState\<rparr>, w2))"
proof -
  have 1: "c1 = c\<lparr>cn_state := PausedState\<rparr>" "runType s d w1 = runType s d w" for d using pause_effect [OF assms(1)] by auto
  have 2: "c2 = c1\<lparr>cn_state := RunningState\<rparr>" "cg_GetFreezerState s w2 \<noteq> Inr Frozen" "runType s d w2 = runType s d w1" for d
    using resume_effect [OF _ assms(2)] 1(1) by auto
  have "isPaused s w2 = Inr False" using 2(2) assms(3) by (simp add: isPaused_def res_map_def)
  moreover have "runType s c2 w2 = runType s c w" using 1 2 by simp
  ultimately show ?thesis
    using 2(1) by (cases "runType s c w")
      (simp_all add: Status_def currentStatus_def act_defs refreshState_def transition_def)
qed

end

section \<open>Properties\<close>



text \<open>A container whose init process is alive is not destroyed: in the running, the paused and the
  freshly loaded state, Destroy returns an error, touches nothing outside and keeps the init process.\<close>

theorem destroy_refused_while_running:
  assumes "runType s c w = Running" and "isPaused s w = Inr b"
    and "cn_state c = RunningState \<or> cn_state c = PausedState \<or> cn_state c = LoadedState st"
  shows "\<exists>e c'. Destroy s c w = (Inl e, c', w) \<and> cn_initProcess c' = cn_initProcess c"
proof -
  have "\<exists>c'. refreshState s c w = (Inr (), c', w) \<and> (c' = c\<lparr>cn_state := PausedState\<rparr> \<or> c' = c\<lparr>cn_state := RunningState\<rparr>)"
    if "cn_state c = LoadedState st"
    using that assms(1,2) by (cases b) (simp_all add: refreshState_def transition_loaded)
  then show ?thesis
    using assms unfolding Destroy_def
    by (subst state_destroy.simps, auto simp: state_destroy.simps [of s "c\<lparr>cn_state := _\<rparr>"] Let_def)
qed

text \<open>C12: Unless the container was just restored, a status that is reported is the one observed: paused
  exactly when the cgroup is frozen, and otherwise what the process table and the exec fifo tell.\<close>

theorem status_reports_observation:
  assumes "Status s c w = (Inr st, c', w')" and "\<forall>d. cn_state c \<noteq> RestoredState d"
  shows "isPaused s w = Inr (st = Paused) \<and> (st \<noteq> Paused \<longrightarrow> st = runType s c w) \<and> w' = w \<and> cn_initProcess c' = cn_initProcess c"
proof -
  have rt: "runType s c w \<in> {Created, Running, Stopped}"
    by (auto simp: runType_def split: option.splits sum.splits)
  show ?thesis
    using assms rt by (auto simp: Status_def currentStatus_def act_defs refreshState_def transition_def Let_def
        split: sum.splits prod.splits bool.splits status.splits container_state.splits if_splits)
qed

text \<open>C13: A restored container is reported running for as long as the process that restored it
  looks, also after its init process has exited: the restored state accepts the transition to stopped but
  does not make it.\<close>

theorem restored_status_stale:
  assumes "cn_state c = RestoredState d" and "isPaused s w = Inr False" and "runType s c w = Stopped"
  shows "Status s c w = (Inr Running, c, w)"
  using assms by (simp add: Status_def currentStatus_def act_defs refreshState_def transition_def)

definition ex_sys :: "freezer_state sys" where
  "ex_sys =
    \<lparr>cg_Freeze = (\<lambda>x w. (None, x)), cg_GetFreezerState = (\<lambda>w. Inr w), cg_Destroy = (\<lambda>w. (None, w)),
     cg_Exists = (\<lambda>w. True), cg_GetAllPids = (\<lambda>w. Inr []), cg_Set = (\<lambda>c w. (None, w)), cg_GetPaths = (\<lambda>w. []),
     s_Stat = (\<lambda>p w. if p = 7 then Inr \<lparr>ps_State = CHR ''S'', ps_StartTime = 5\<rparr> else Inl (Errno ENOENT)),
     s_osStat = (\<lambda>p w. Some (Errno ENOENT)), s_signal = (\<lambda>p sig w. (None, w)), s_subreaper = (\<lambda>w. Inr 0),
     s_isWaitable = (\<lambda>p w. Inr True), s_wait = (\<lambda>p w. w), s_RemoveAll = (\<lambda>p w. (Some (Errno EACCES), w)),
     s_rdtDestroy = (\<lambda>w. (None, w)), s_rdtSet = (\<lambda>c w. (None, w)), s_rdtPath = (\<lambda>x. Inl (Errno ENOENT)),
     s_runHook = (\<lambda>h st w. (None, w)), s_nsSupported = (\<lambda>t. True),
     s_TempFile = (\<lambda>d p w. (Inr (d @ p), w)), s_WriteJSON = (\<lambda>f st w. (None, w)), s_Close = (\<lambda>f w. (None, w)),
     s_Remove = (\<lambda>f w. (None, w)), s_Rename = (\<lambda>f g w. (None, w)), s_Mkfifo = (\<lambda>f w. (None, w)),
     s_Chown = (\<lambda>f u g w. (None, w))\<rparr>"

definition ex_container :: container where
  "ex_container =
    \<lparr>cn_id = ''c1'', cn_root = ''/run/c1'', cn_config = ex_config, cn_criuPath = ''criu'', cn_criuVersion = 0, cn_rdt = False,
     cn_initProcess = Some \<lparr>pp_pid = 7, pp_startTime = 5, pp_fds = []\<rparr>, cn_initProcessStartTime = 5,
     cn_state = RunningState, cn_created = 0\<rparr>"

lemma ex_destroy: "destroy ex_sys ex_container Thawed =
  (Inl (Plain (Errno EACCES)), ex_container\<lparr>cn_initProcess := None, cn_state := StoppedState\<rparr>, Thawed)"
proof -
  have "own_pid_ns (cn_config ex_container)" by code_simp
  then show ?thesis
    by (simp add: destroy_def runPoststopHooks_def ex_sys_def ex_container_def ex_config_def first_error_def Let_def)
qed



lemma ex_runType: "runType ex_sys ex_container w = Running"
  by (simp add: runType_def ex_sys_def ex_container_def Zombie_def Dead_def del: Join.simps)

theorem destroy_refused_while_running_witness:
  "\<exists>e c'. Destroy ex_sys ex_container Thawed = (Inl e, c', Thawed) \<and> cn_initProcess c' = cn_initProcess ex_container"
proof -
  have "isPaused ex_sys Thawed = Inr False" by code_simp
  moreover have "cn_state ex_container = RunningState" by (simp add: ex_container_def)
  ultimately show ?thesis using destroy_refused_while_running [OF ex_runType] by blast
qed

theorem status_reports_observation_witness:
  "Status ex_sys ex_container Thawed = (Inr Running, ex_container, Thawed) \<and> isPaused ex_sys Thawed = Inr False"
proof -
  have "isPaused ex_sys Thawed = Inr False" by code_simp
  then have "Status ex_sys ex_container Thawed = (Inr Running, ex_container, Thawed)"
    using ex_runType [of Thawed]
    by (simp add: Status_def currentStatus_def act_defs refreshState_def transition_def ex_container_def [THEN arg_cong, of cn_state])
  then show ?thesis using status_reports_observation [of ex_sys ex_container Thawed Running] by (simp add: ex_container_def)
qed

theorem restored_status_stale_witness:
  "Status ex_sys (ex_container\<lparr>cn_state := RestoredState ''/img'', cn_initProcess := None\<rparr>) Thawed =
     (Inr Running, ex_container\<lparr>cn_state := RestoredState ''/img'', cn_initProcess := None\<rparr>, Thawed)"
proof -
  have "isPaused ex_sys Thawed = Inr False" by code_simp
  then show ?thesis by (intro restored_status_stale) (simp_all add: runType_def)
qed

end
