(* ===== verification/Cgroup_V2.thy ===== *)
theory Cgroup_V2
  imports Container_State Device_Filter
begin

text \<open>The cgroup v2 manager, \<^verbatim>\<open>libcontainer/cgroups/fs2\<close>, with the file helpers of \<^verbatim>\<open>cgroups/fscommon\<close> and the
  value conversions of \<^verbatim>\<open>cgroups/utils.go\<close>. The control files are a parameter: the record \<^verbatim>\<open>cgfs\<close> says what
  opening, reading and one write of a file do to a world. Writes that are interrupted are retried; the number of
  interruptions a run can have is the fuel of the record. The manager is put behind the container operations of
  the life cycle, for which its freezer is shown to meet the contract that pausing relies on.\<close>

section \<open>Control files\<close>

record 'w cgfs =
  k_open :: "string \<Rightarrow> string \<Rightarrow> bool \<Rightarrow> 'w \<Rightarrow> go_err option"
  k_read :: "string \<Rightarrow> string \<Rightarrow> 'w \<Rightarrow> (go_err, string) res"
  k_write :: "string \<Rightarrow> string \<Rightarrow> string \<Rightarrow> 'w \<Rightarrow> go_err option \<times> 'w"
  k_opendir :: "string \<Rightarrow> 'w \<Rightarrow> go_err option"
  k_attach :: "insn list \<Rightarrow> string \<Rightarrow> string \<Rightarrow> 'w \<Rightarrow> go_err option \<times> 'w"
  k_userns :: bool
  k_fuel :: nat

text \<open>\<^verbatim>\<open>OpenFile\<close>: the empty directory is refused; resolving the name below the cgroup mount (openat2 or
  securejoin) is left to the file system.\<close>

definition OpenFile :: "('w, 'z) cgfs_scheme \<Rightarrow> string \<Rightarrow> string \<Rightarrow> bool \<Rightarrow> 'w \<Rightarrow> go_err option" where
  "OpenFile k dir file write w =
    (if dir = [] then Some (ErrText (''no directory specified for '' @ file)) else k_open k dir file write w)"

fun retryingWriteFile :: "nat \<Rightarrow> ('w, 'z) cgfs_scheme \<Rightarrow> string \<Rightarrow> string \<Rightarrow> string \<Rightarrow> 'w \<Rightarrow> go_err option \<times> 'w" where
  "retryingWriteFile 0 k dir file data w = (Some OutOfFuel, w)"
| "retryingWriteFile (Suc n) k dir file data w =
    (case k_write k dir file data w of
       (Some e, w') \<Rightarrow> if errors_Is e EINTR then retryingWriteFile n k dir file data w' else (Some e, w')
     | (None, w') \<Rightarrow> (None, w'))"

definition WriteFile :: "('w, 'z) cgfs_scheme \<Rightarrow> string \<Rightarrow> string \<Rightarrow> string \<Rightarrow> 'w \<Rightarrow> go_err option \<times> 'w" where
  "WriteFile k dir file data w =
    (case OpenFile k dir file True w of
       Some e \<Rightarrow> (Some e, w)
     | None \<Rightarrow>
         (case retryingWriteFile (k_fuel k) k dir file data w of
            (Some e, w') \<Rightarrow> (Some (ErrWrap (''failed to write '' @ data) e), w')
          | (None, w') \<Rightarrow> (None, w')))"

definition ReadFile :: "('w, 'z) cgfs_scheme \<Rightarrow> string \<Rightarrow> string \<Rightarrow> 'w \<Rightarrow> (go_err, string) res" where
  "ReadFile k dir file w =
    (case OpenFile k dir file False w of Some e \<Rightarrow> Inl e | None \<Rightarrow> k_read k dir file w)"

section \<open>Values of control files\<close>

text \<open>\<^verbatim>\<open>fscommon.ParseUint\<close> with base 10 and 64 bits: negative values count as zero.\<close>

definition cg_ParseUint :: "string \<Rightarrow> nat \<times> num_err option" where
  "cg_ParseUint s =
    (case ParseUint 64 s of
       (v, None) \<Rightarrow> (v, None)
     | (v, Some e) \<Rightarrow>
         (case ParseInt 64 s of
            (i, None) \<Rightarrow> if i < 0 then (0, None) else (v, Some e)
          | (i, Some ie) \<Rightarrow> if ie = ErrRange \<and> i < 0 then (0, None) else (v, Some e)))"

definition MaxUint64 :: nat where "MaxUint64 = 2 ^ 64 - 1"

definition GetCgroupParamString :: "('w, 'z) cgfs_scheme \<Rightarrow> string \<Rightarrow> string \<Rightarrow> 'w \<Rightarrow> (go_err, string) res" where
  "GetCgroupParamString k path file w = res_map TrimSpace (ReadFile k path file w)"

definition GetCgroupParamUint :: "('w, 'z) cgfs_scheme \<Rightarrow> string \<Rightarrow> string \<Rightarrow> 'w \<Rightarrow> (go_err, nat) res" where
  "GetCgroupParamUint k path file w =
    (case GetCgroupParamString k path file w of
       Inl e \<Rightarrow> Inl e
     | Inr s \<Rightarrow>
         (let contents = TrimSpace s in
          if contents = ''max'' then Inr MaxUint64
          else case cg_ParseUint contents of
            (v, None) \<Rightarrow> Inr v
          | (v, Some _) \<Rightarrow> Inl (ErrText (''unable to parse file '' @ path @ ''/'' @ file))))"

fun find_key :: "string \<Rightarrow> string list \<Rightarrow> string option" where
  "find_key key [] = None"
| "find_key key (l # ls) =
    (case split_on CHR '' '' l of [a, v] \<Rightarrow> if a = key then Some v else find_key key ls | _ \<Rightarrow> find_key key ls)"

definition GetValueByKey :: "('w, 'z) cgfs_scheme \<Rightarrow> string \<Rightarrow> string \<Rightarrow> string \<Rightarrow> 'w \<Rightarrow> (go_err, nat) res" where
  "GetValueByKey k path file key w =
    (case ReadFile k path file w of
       Inl e \<Rightarrow> Inl e
     | Inr content \<Rightarrow>
         (case find_key key (split_on CHR 0x0A content) of
            None \<Rightarrow> Inr 0
          | Some v \<Rightarrow> (case cg_ParseUint v of (n, None) \<Rightarrow> Inr n | (n, Some _) \<Rightarrow> Inl (ErrText ''strconv.ParseUint''))))"

section \<open>Converting cgroup v1 values\<close>

text \<open>The arithmetic is on \<^verbatim>\<open>uint64\<close> and wraps.\<close>

definition ConvertCPUSharesToCgroupV2Value :: "64 word \<Rightarrow> 64 word" where
  "ConvertCPUSharesToCgroupV2Value cpuShares =
    (if cpuShares = 0 then 0 else 1 + ((cpuShares - 2) * 9999) div 262142)"

definition ConvertMemorySwapToCgroupV2Value :: "int \<Rightarrow> int \<Rightarrow> (go_err, int) res" where
  "ConvertMemorySwapToCgroupV2Value memorySwap memory =
    (if memory = -1 \<and> memorySwap = 0 then Inr (-1)
     else if memorySwap = -1 \<or> memorySwap = 0 then Inr memorySwap
     else if memory = 0 \<or> memory = -1 then Inl (ErrText ''unable to set swap limit without memory limit'')
     else if memory < 0 then Inl (ErrText (''invalid memory value: '' @ Itoa memory))
     else if memorySwap < memory then Inl (ErrText ''memory+swap limit should be >= memory limit'')
     else Inr (wrap64 (memorySwap - memory)))"

definition numToStr :: "int \<Rightarrow> string" where
  "numToStr value = (if value = 0 then [] else if value = -1 then ''max'' else Itoa value)"

section \<open>Writing the limits\<close>

text \<open>A setter is a list of files and contents, written in order up to the first error.\<close>

fun write_all :: "('w, 'z) cgfs_scheme \<Rightarrow> string \<Rightarrow> (string \<times> string) list \<Rightarrow> 'w \<Rightarrow> go_err option \<times> 'w" where
  "write_all k dir [] w = (None, w)"
| "write_all k dir ((f, d) # fs) w =
    (case WriteFile k dir f d w of (Some e, w') \<Rightarrow> (Some e, w') | (None, w') \<Rightarrow> write_all k dir fs w')"

definition isPidsSet :: "resources \<Rightarrow> bool" where
  "isPidsSet r \<longleftrightarrow> r_PidsLimit r \<noteq> 0"

definition pids_files :: "resources \<Rightarrow> (string \<times> string) list" where
  "pids_files r =
    (if \<not> isPidsSet r then [] else if numToStr (r_PidsLimit r) \<noteq> [] then [(''pids.max'', numToStr (r_PidsLimit r))] else [])"

definition isMemorySet :: "resources \<Rightarrow> bool" where
  "isMemorySet r \<longleftrightarrow> r_MemoryReservation r \<noteq> 0 \<or> r_Memory r \<noteq> 0 \<or> r_MemorySwap r \<noteq> 0"

definition swap_str :: "int \<Rightarrow> int \<Rightarrow> string" where
  "swap_str swap memorySwap =
    (let s = numToStr swap in if s = [] \<and> swap = 0 \<and> memorySwap > 0 then ''0'' else s)"

definition memory_files :: "resources \<Rightarrow> (go_err, (string \<times> string) list) res" where
  "memory_files r =
    (if \<not> isMemorySet r then Inr []
     else case ConvertMemorySwapToCgroupV2Value (r_MemorySwap r) (r_Memory r) of
       Inl e \<Rightarrow> Inl e
     | Inr swap \<Rightarrow>
         Inr (filter (\<lambda>(f, d). d \<noteq> [])
           [(''memory.swap.max'', swap_str swap (r_MemorySwap r)), (''memory.max'', numToStr (r_Memory r)),
            (''memory.low'', numToStr (r_MemoryReservation r))]))"

definition isIoSet :: "resources \<Rightarrow> bool" where
  "isIoSet r \<longleftrightarrow> r_BlkioWeight r \<noteq> 0 \<or> r_BlkioThrottleReadBpsDevice r \<noteq> [] \<or> r_BlkioThrottleWriteBpsDevice r \<noteq> [] \<or>
     r_BlkioThrottleReadIOPSDevice r \<noteq> [] \<or> r_BlkioThrottleWriteIOPSDevice r \<noteq> []"

definition td_StringName :: "throttleDevice \<Rightarrow> string \<Rightarrow> string" where
  "td_StringName td name =
    Itoa (bd_Major td) @ '':'' @ Itoa (bd_Minor td) @ '' '' @ name @ ''='' @ Itoa (int (td_Rate td))"

definition io_files :: "resources \<Rightarrow> (string \<times> string) list" where
  "io_files r =
    (if \<not> isIoSet r then []
     else (if r_BlkioWeight r \<noteq> 0 then [(''io.bfq.weight'', Itoa (int (r_BlkioWeight r)))] else [])
       @ map (\<lambda>td. (''io.max'', td_StringName td ''rbps'')) (r_BlkioThrottleReadBpsDevice r)
       @ map (\<lambda>td. (''io.max'', td_StringName td ''wbps'')) (r_BlkioThrottleWriteBpsDevice r)
       @ map (\<lambda>td. (''io.max'', td_StringName td ''riops'')) (r_BlkioThrottleReadIOPSDevice r)
       @ map (\<lambda>td. (''io.max'', td_StringName td ''wiops'')) (r_BlkioThrottleWriteIOPSDevice r))"

definition isCpuSet :: "resources \<Rightarrow> bool" where
  "isCpuSet r \<longleftrightarrow> r_CpuWeight r \<noteq> 0 \<or> r_CpuQuota r \<noteq> 0 \<or> r_CpuPeriod r \<noteq> 0"

definition cpu_max_str :: "resources \<Rightarrow> string" where
  "cpu_max_str r =
    (if r_CpuQuota r > 0 then Itoa (r_CpuQuota r) else ''max'') @ '' '' @
    Itoa (int (if r_CpuPeriod r = 0 then 100000 else r_CpuPeriod r))"

definition cpu_files :: "resources \<Rightarrow> (string \<times> string) list" where
  "cpu_files r =
    (if \<not> isCpuSet r then []
     else (if r_CpuWeight r \<noteq> 0 then [(''cpu.weight'', Itoa (int (r_CpuWeight r)))] else [])
       @ (if r_CpuQuota r \<noteq> 0 \<or> r_CpuPeriod r \<noteq> 0 then [(''cpu.max'', cpu_max_str r)] else []))"

definition isCpusetSet :: "resources \<Rightarrow> bool" where
  "isCpusetSet r \<longleftrightarrow> r_CpusetCpus r \<noteq> [] \<or> r_CpusetMems r \<noteq> []"

definition cpuset_files :: "resources \<Rightarrow> (string \<times> string) list" where
  "cpuset_files r =
    (if \<not> isCpusetSet r then []
     else (if r_CpusetCpus r \<noteq> [] then [(''cpuset.cpus'', r_CpusetCpus r)] else [])
       @ (if r_CpusetMems r \<noteq> [] then [(''cpuset.mems'', r_CpusetMems r)] else []))"

definition isHugeTlbSet :: "resources \<Rightarrow> bool" where
  "isHugeTlbSet r \<longleftrightarrow> r_HugetlbLimit r \<noteq> []"

definition hugetlb_files :: "resources \<Rightarrow> (string \<times> string) list" where
  "hugetlb_files r = map (\<lambda>h. (''hugetlb.'' @ hp_Pagesize h @ ''.max'', Itoa (int (hp_Limit h)))) (r_HugetlbLimit r)"

definition containsDomainController :: "resources \<Rightarrow> bool" where
  "containsDomainController r \<longleftrightarrow> isMemorySet r \<or> isIoSet r \<or> isCpuSet r \<or> isHugeTlbSet r"

section \<open>The freezer\<close>

definition getFreezer :: "('w, 'z) cgfs_scheme \<Rightarrow> string \<Rightarrow> 'w \<Rightarrow> (go_err, freezer_state) res" where
  "getFreezer k dir w =
    (case ReadFile k dir ''cgroup.freeze'' w of
       Inl e \<Rightarrow> if IsNotExist e \<or> errors_Is e ENODEV then Inr Undefined else Inl e
     | Inr s \<Rightarrow>
         if TrimSpace s = ''0'' then Inr Thawed else if TrimSpace s = ''1'' then Inr Frozen
         else Inl (ErrText (''unknown cgroup.freeze state: '' @ s)))"

definition setFreezer :: "('w, 'z) cgfs_scheme \<Rightarrow> string \<Rightarrow> freezer_state \<Rightarrow> 'w \<Rightarrow> go_err option \<times> 'w" where
  "setFreezer k dir st w =
    (case ReadFile k dir ''cgroup.freeze'' w of
       Inl e \<Rightarrow> if st = Undefined \<or> st = Thawed then (None, w) else (Some (ErrWrap ''freezer not supported'' e), w)
     | Inr _ \<Rightarrow>
         if st = Undefined then (None, w)
         else if st \<noteq> Frozen \<and> st \<noteq> Thawed then (Some (ErrText (''invalid freezer state '' @ st @ '' requested'')), w)
         else (case WriteFile k dir ''cgroup.freeze'' (if st = Frozen then ''1'' else ''0'') w of
                 (Some e, w') \<Rightarrow> (Some e, w')
               | (None, w') \<Rightarrow>
                   (case getFreezer k dir w' of
                      Inl e \<Rightarrow> (Some e, w')
                    | Inr actual \<Rightarrow>
                        if actual \<noteq> st then (Some (ErrText (''expected cgroup.freeze to be in state '' @ st @ '' but was in '' @ actual)), w')
                        else (None, w'))))"

section \<open>Devices\<close>

fun isRWM_loop :: "permissions \<Rightarrow> bool \<Rightarrow> bool \<Rightarrow> bool \<Rightarrow> bool" where
  "isRWM_loop [] r w m \<longleftrightarrow> r \<and> w \<and> m"
| "isRWM_loop (p # ps) r w m \<longleftrightarrow>
    isRWM_loop ps (r \<or> p = CHR ''r'') (w \<or> p = CHR ''w'') (m \<or> p = CHR ''m'')"

definition isRWM :: "permissions \<Rightarrow> bool" where
  "isRWM perms = isRWM_loop perms False False False"

definition canSkipEBPFError :: "bool \<Rightarrow> rule list \<Rightarrow> bool" where
  "canSkipEBPFError userns devs \<longleftrightarrow> userns \<or> list_all (\<lambda>d. r_allow d \<and> isRWM (r_perms d)) devs"

definition setDevices :: "('w, 'z) cgfs_scheme \<Rightarrow> string \<Rightarrow> resources \<Rightarrow> 'w \<Rightarrow> go_err option \<times> 'w" where
  "setDevices k dir r w =
    (if r_SkipDevices r then (None, w)
     else case DeviceFilter (r_Devices r) of
       Inl e \<Rightarrow> (Some (ErrText ''device filter''), w)
     | Inr (prog, lic) \<Rightarrow>
         (case k_opendir k dir w of
            Some _ \<Rightarrow> (Some (ErrText (''cannot get dir FD for '' @ dir)), w)
          | None \<Rightarrow>
              (case k_attach k prog lic dir w of
                 (Some e, w') \<Rightarrow> (if \<not> canSkipEBPFError (k_userns k) (r_Devices r) then Some e else None, w')
               | (None, w') \<Rightarrow> (None, w'))))"

section \<open>The manager\<close>

record v2_manager =
  v2_config :: cgroup
  v2_dirPath :: string
  v2_controllers :: "string set option"
  v2_rootless :: bool

definition getControllers :: "('w, 'z) cgfs_scheme \<Rightarrow> v2_manager \<Rightarrow> 'w \<Rightarrow> go_err option \<times> v2_manager" where
  "getControllers k m w =
    (case v2_controllers m of
       Some _ \<Rightarrow> (None, m)
     | None \<Rightarrow>
         (case ReadFile k (v2_dirPath m) ''cgroup.controllers'' w of
            Inl e \<Rightarrow> (if v2_rootless m \<and> cg_Path (v2_config m) = [] then None else Some e, m)
          | Inr data \<Rightarrow> (None, m\<lparr>v2_controllers := Some (set (Fields data))\<rparr>)))"

text \<open>A \<^verbatim>\<open>nil\<close> controller map behaves as an empty one.\<close>

definition has_controller :: "v2_manager \<Rightarrow> string \<Rightarrow> bool" where
  "has_controller m c \<longleftrightarrow> (case v2_controllers m of None \<Rightarrow> False | Some cs \<Rightarrow> c \<in> cs)"

definition unified_err :: "v2_manager \<Rightarrow> string \<Rightarrow> go_err \<Rightarrow> go_err" where
  "unified_err m key e =
    (if errors_Is e EPERM \<or> errors_Is e EACCES \<or> errors_Is e ENOENT then
       (case splitn2 CHR ''.'' key of
          [c, _] \<Rightarrow>
            if \<not> has_controller m c \<and> c \<noteq> ''cgroup''
            then ErrText (''unified resource '' @ key @ '' cannot be set: controller '' @ c @ '' not available'')
            else ErrWrap (''cannot set unified resource '' @ key) e
        | _ \<Rightarrow> ErrText (''unified resource '' @ key @ '' must be in the form CONTROLLER.PARAMETER''))
     else ErrWrap (''cannot set unified resource '' @ key) e)"

fun setUnified :: "('w, 'z) cgfs_scheme \<Rightarrow> v2_manager \<Rightarrow> (string \<times> string) list \<Rightarrow> 'w \<Rightarrow> go_err option \<times> 'w" where
  "setUnified k m [] w = (None, w)"
| "setUnified k m ((key, v) # res) w =
    (if CHR ''/'' \<in> set key then (Some (ErrText (''unified resource '' @ key @ '' must be a file name (no slashes)'')), w)
     else case WriteFile k (v2_dirPath m) key v w of
       (Some e, w') \<Rightarrow> (Some (unified_err m key e), w')
     | (None, w') \<Rightarrow> setUnified k m res w')"

text \<open>A chain of setters, stopped by the first error\<close>

fun run_setters :: "('w \<Rightarrow> go_err option \<times> 'w) list \<Rightarrow> 'w \<Rightarrow> go_err option \<times> 'w" where
  "run_setters [] w = (None, w)"
| "run_setters (f # fs) w = (case f w of (Some e, w') \<Rightarrow> (Some e, w') | (None, w') \<Rightarrow> run_setters fs w')"

definition ignore_if :: "bool \<Rightarrow> ('w \<Rightarrow> go_err option \<times> 'w) \<Rightarrow> 'w \<Rightarrow> go_err option \<times> 'w" where
  "ignore_if b f w = (case f w of (e, w') \<Rightarrow> (if b then None else e, w'))"

definition setMemory :: "('w, 'z) cgfs_scheme \<Rightarrow> string \<Rightarrow> resources \<Rightarrow> 'w \<Rightarrow> go_err option \<times> 'w" where
  "setMemory k dir r w = (case memory_files r of Inl e \<Rightarrow> (Some e, w) | Inr fs \<Rightarrow> write_all k dir fs w)"

definition v2_setters :: "('w, 'z) cgfs_scheme \<Rightarrow> v2_manager \<Rightarrow> resources \<Rightarrow> ('w \<Rightarrow> go_err option \<times> 'w) list" where
  "v2_setters k m r =
    (let dir = v2_dirPath m in
     [write_all k dir (pids_files r), setMemory k dir r, write_all k dir (io_files r), write_all k dir (cpu_files r),
      ignore_if (v2_rootless m) (setDevices k dir r), write_all k dir (cpuset_files r), write_all k dir (hugetlb_files r),
      setFreezer k dir (r_Freezer r), setUnified k m (case r_Unified r of None \<Rightarrow> [] | Some u \<Rightarrow> u)])"

definition v2_Set :: "('w, 'z) cgfs_scheme \<Rightarrow> config \<Rightarrow> v2_manager \<Rightarrow> 'w \<Rightarrow> go_err option \<times> v2_manager \<times> 'w" where
  "v2_Set k cf m w =
    (case getControllers k m w of
       (Some e, m1) \<Rightarrow> (Some e, m1, w)
     | (None, m1) \<Rightarrow>
         (case run_setters (v2_setters k m1 (cg_Resources (c_Cgroups cf))) w of
            (Some e, w') \<Rightarrow> (Some e, m1, w')
          | (None, w') \<Rightarrow> (None, m1\<lparr>v2_config := c_Cgroups cf\<rparr>, w')))"

definition v2_Freeze :: "('w, 'z) cgfs_scheme \<Rightarrow> freezer_state \<Rightarrow> v2_manager \<Rightarrow> 'w \<Rightarrow> go_err option \<times> v2_manager \<times> 'w" where
  "v2_Freeze k st m w =
    (case setFreezer k (v2_dirPath m) st w of
       (Some e, w') \<Rightarrow> (Some e, m, w')
     | (None, w') \<Rightarrow> (None, m\<lparr>v2_config := (v2_config m)\<lparr>cg_Resources := (cg_Resources (v2_config m))\<lparr>r_Freezer := st\<rparr>\<rparr>\<rparr>, w'))"

definition v2_GetFreezerState :: "('w, 'z) cgfs_scheme \<Rightarrow> v2_manager \<Rightarrow> 'w \<Rightarrow> (go_err, freezer_state) res" where
  "v2_GetFreezerState k m w = getFreezer k (v2_dirPath m) w"

definition v2_GetPaths :: "v2_manager \<Rightarrow> (string \<times> string) list" where
  "v2_GetPaths m = [([], v2_dirPath m)]"

section \<open>The container on cgroup v2\<close>

text \<open>The environment of the container operations with this manager behind it: the manager, the control
  files and everything else of the outside world.\<close>

definition lift :: "('p \<Rightarrow> 'a \<times> 'p) \<Rightarrow> v2_manager \<times> 'w \<times> 'p \<Rightarrow> 'a \<times> v2_manager \<times> 'w \<times> 'p" where
  "lift f x = (case x of (m, w, p) \<Rightarrow> (case f p of (a, p') \<Rightarrow> (a, m, w, p')))"

definition v2_sys :: "('w, 'z) cgfs_scheme \<Rightarrow> 'p sys \<Rightarrow> (v2_manager \<times> 'w \<times> 'p) sys" where
  "v2_sys k b =
    \<lparr>cg_Freeze = (\<lambda>st (m, w, p). case v2_Freeze k st m w of (e, m', w') \<Rightarrow> (e, m', w', p)),
     cg_GetFreezerState = (\<lambda>(m, w, p). v2_GetFreezerState k m w),
     cg_Destroy = lift (cg_Destroy b), cg_Exists = (\<lambda>(m, w, p). cg_Exists b p),
     cg_GetAllPids = (\<lambda>(m, w, p). cg_GetAllPids b p),
     cg_Set = (\<lambda>cf (m, w, p). case v2_Set k cf m w of (e, m', w') \<Rightarrow> (e, m', w', p)),
     cg_GetPaths = (\<lambda>(m, w, p). v2_GetPaths m),
     s_Stat = (\<lambda>i (m, w, p). s_Stat b i p), s_osStat = (\<lambda>f (m, w, p). s_osStat b f p),
     s_signal = (\<lambda>i g. lift (s_signal b i g)), s_subreaper = (\<lambda>(m, w, p). s_subreaper b p),
     s_isWaitable = (\<lambda>i (m, w, p). s_isWaitable b i p), s_wait = (\<lambda>i (m, w, p). (m, w, s_wait b i p)),
     s_RemoveAll = (\<lambda>d. lift (s_RemoveAll b d)), s_rdtDestroy = lift (s_rdtDestroy b),
     s_rdtSet = (\<lambda>cf. lift (s_rdtSet b cf)), s_rdtPath = s_rdtPath b, s_runHook = (\<lambda>h st. lift (s_runHook b h st)),
     s_nsSupported = s_nsSupported b, s_TempFile = (\<lambda>d q. lift (s_TempFile b d q)),
     s_WriteJSON = (\<lambda>f st. lift (s_WriteJSON b f st)), s_Close = (\<lambda>f. lift (s_Close b f)),
     s_Remove = (\<lambda>f. lift (s_Remove b f)), s_Rename = (\<lambda>f g. lift (s_Rename b f g)),
     s_Mkfifo = (\<lambda>f. lift (s_Mkfifo b f)), s_Chown = (\<lambda>f u g. lift (s_Chown b f u g))\<rparr>"

lemma freezer_distinct [simp]: "Frozen \<noteq> Thawed" "Thawed \<noteq> Frozen" "Frozen \<noteq> Undefined" "Thawed \<noteq> Undefined"
  "Undefined \<noteq> Frozen" "Undefined \<noteq> Thawed"
  by (simp_all add: freezer_defs)

lemma setFreezer_frozen: "setFreezer k dir Frozen w = (None, w') \<Longrightarrow> getFreezer k dir w' = Inr Frozen"
  by (auto simp: setFreezer_def split: sum.splits prod.splits option.splits if_splits)

lemma setFreezer_thawed: "setFreezer k dir Thawed w = (None, w') \<Longrightarrow> getFreezer k dir w' \<noteq> Inr Frozen"
  by (auto simp: setFreezer_def getFreezer_def split: sum.splits prod.splits option.splits if_splits)

interpretation v2: faithful_freezer "v2_sys k b" for k b
  by unfold_locales
    (auto simp: v2_sys_def v2_Freeze_def v2_GetFreezerState_def dest: setFreezer_frozen setFreezer_thawed
      split: prod.splits option.splits)

section \<open>Properties\<close>

text \<open>C27: On cgroup v2, pausing takes effect and resuming undoes it: when Pause succeeds the container is in the paused state and
  its status is reported as paused. When Resume then succeeds, a container that was running is reported as running again;
  but one that was created and not yet started can no longer be observed by the same container object: its next status
  call fails with an invalid transition from running to created.\<close>

theorem pause_and_resume:
  assumes "Pause (v2_sys k b) c W = (Inr (), c1, W1)"
  shows "cn_state c1 = PausedState \<and> Status (v2_sys k b) c1 W1 = (Inr Paused, c1, W1) \<and>
    (\<forall>c2 W2 f. Resume (v2_sys k b) c1 W1 = (Inr (), c2, W2) \<and> cg_GetFreezerState (v2_sys k b) W2 = Inr f \<longrightarrow>
      (runType (v2_sys k b) c W = Running \<longrightarrow> Status (v2_sys k b) c2 W2 = (Inr Running, c2, W2)) \<and>
      (runType (v2_sys k b) c W = Created \<longrightarrow>
         Status (v2_sys k b) c2 W2 = (Inl (StateTransition Running Created), c2, W2)))"
proof -
  have "cn_state c1 = PausedState" "Status (v2_sys k b) c1 W1 = (Inr Paused, c1, W1)"
    using v2.paused_status [OF assms] v2.pause_effect [OF assms] by simp_all
  moreover have "(runType (v2_sys k b) c W = Running \<longrightarrow> Status (v2_sys k b) c2 W2 = (Inr Running, c2, W2)) \<and>
      (runType (v2_sys k b) c W = Created \<longrightarrow> Status (v2_sys k b) c2 W2 = (Inl (StateTransition Running Created), c2, W2))"
    if "Resume (v2_sys k b) c1 W1 = (Inr (), c2, W2)" "cg_GetFreezerState (v2_sys k b) W2 = Inr f" for c2 W2 f
    using v2.resumed_status [OF assms that] by simp
  ultimately show ?thesis by blast
qed

text \<open>An ideal control file system: a file that exists can be written and holds what was written last.\<close>

type_synonym files = "string \<times> string \<rightharpoonup> string"

definition memfs :: "files cgfs" where
  "memfs =
    \<lparr>k_open = (\<lambda>d f wr w. if w (d, f) = None then Some (Errno ENOENT) else None),
     k_read = (\<lambda>d f w. case w (d, f) of None \<Rightarrow> Inl (Errno ENOENT) | Some s \<Rightarrow> Inr s),
     k_write = (\<lambda>d f s w. (None, w((d, f) \<mapsto> s))), k_opendir = (\<lambda>d w. None),
     k_attach = (\<lambda>p l d w. (None, w)), k_userns = False, k_fuel = 1\<rparr>"

lemma memfs_WriteFile:
  "WriteFile memfs dir f s w =
    (if dir = [] then (Some (ErrText (''no directory specified for '' @ f)), w)
     else if w (dir, f) = None then (Some (Errno ENOENT), w) else (None, w((dir, f) \<mapsto> s)))"
  by (simp add: WriteFile_def OpenFile_def memfs_def)

lemma memfs_ReadFile:
  "dir \<noteq> [] \<Longrightarrow> w (dir, f) = Some s \<Longrightarrow> ReadFile memfs dir f w = Inr s"
  by (simp add: ReadFile_def OpenFile_def memfs_def)

lemma write_all_memfs:
  "write_all memfs dir fs w = (None, w') \<Longrightarrow>
   w' (dir, f) = (case map_of (rev fs) f of None \<Rightarrow> w (dir, f) | Some s \<Rightarrow> Some s)"
proof (induction fs arbitrary: w)
  case (Cons x fs)
  obtain g s where x: "x = (g, s)" by (cases x)
  then have run: "write_all memfs dir fs (w((dir, g) \<mapsto> s)) = (None, w')"
    using Cons.prems by (auto simp: memfs_WriteFile split: if_splits)
  from Cons.IH [OF run] show ?case by (auto simp: x map_add_def split: option.splits)
qed simp

lemma write_all_memfs_frame:
  "write_all memfs dir fs w = (None, w') \<Longrightarrow> f \<notin> fst ` set fs \<Longrightarrow> w' (dir, f) = w (dir, f)"
proof -
  assume run: "write_all memfs dir fs w = (None, w')" and f: "f \<notin> fst ` set fs"
  have "map_of (rev fs) f = None" using f by (simp add: map_of_eq_None_iff)
  then show ?thesis using write_all_memfs [OF run, of f] by simp
qed

lemma TrimSpace_no_space: "(\<forall>c \<in> set s. \<not> is_space c) \<Longrightarrow> TrimSpace s = s"
proof -
  assume s: "\<forall>c \<in> set s. \<not> is_space c"
  have "dropWhile is_space t = t" if "set t \<subseteq> set s" for t using that s by (cases t) auto
  then show ?thesis by (simp add: TrimSpace_def)
qed

lemma digit_not_space: "is_digit c \<Longrightarrow> \<not> is_space c"
  by (auto simp: is_digit_def is_space_def Let_def)

lemma limit_read_back:
  assumes "0 < v" and "v < 2 ^ 63" and "dir \<noteq> []" and "w (dir, f) = Some (numToStr v)"
  shows "GetCgroupParamUint memfs dir f w = Inr (nat v)"
proof -
  have s: "numToStr v = nat_digits (nat v)" using assms(1) by (simp add: numToStr_def Itoa_def)
  have trim: "TrimSpace (nat_digits (nat v)) = nat_digits (nat v)"
    using nat_digits_is_digit digit_not_space by (intro TrimSpace_no_space) blast
  have "\<not> is_digit CHR ''m''" by (simp add: is_digit_def)
  then have "nat_digits (nat v) \<noteq> ''max''" using hd_nat_digits [of "nat v"] by auto
  moreover have "nat v < 2 ^ 64" using assms(1,2) by auto
  ultimately show ?thesis
    using memfs_ReadFile [of dir w f "numToStr v"] assms(3,4) s trim ParseUint_nat_digits [of "nat v" 64]
    by (simp add: GetCgroupParamUint_def GetCgroupParamString_def res_map_def cg_ParseUint_def)
qed

lemma no_limit_read_back:
  assumes "dir \<noteq> []" and "w (dir, f) = Some (numToStr (-1))"
  shows "GetCgroupParamUint memfs dir f w = Inr MaxUint64"
proof -
  have "TrimSpace ''max'' = ''max''" by (rule TrimSpace_no_space) (simp add: is_space_def Let_def)
  then show ?thesis
    using memfs_ReadFile [of dir w f "numToStr (-1)"] assms
    by (simp add: GetCgroupParamUint_def GetCgroupParamString_def res_map_def numToStr_def)
qed

definition frames :: "string \<Rightarrow> string \<Rightarrow> (files \<Rightarrow> go_err option \<times> files) \<Rightarrow> bool" where
  "frames dir f g \<longleftrightarrow> (\<forall>w w'. g w = (None, w') \<longrightarrow> w' (dir, f) = w (dir, f))"

lemma frames_run: "run_setters gs w = (None, w') \<Longrightarrow> list_all (frames dir f) gs \<Longrightarrow> w' (dir, f) = w (dir, f)"
  by (induction gs arbitrary: w) (auto simp: frames_def split: prod.splits option.splits)

lemma frames_write_all: "f \<notin> fst ` set fs \<Longrightarrow> frames dir f (write_all memfs dir fs)"
  using write_all_memfs_frame by (auto simp: frames_def)

lemma frames_devices: "frames dir f (ignore_if b (setDevices memfs dir r))"
  by (auto simp: frames_def ignore_if_def setDevices_def memfs_def split: sum.splits prod.splits if_splits)

lemma frames_freezer: "f \<noteq> ''cgroup.freeze'' \<Longrightarrow> frames dir f (setFreezer memfs dir st)"
  by (auto simp: frames_def setFreezer_def memfs_WriteFile split: sum.splits if_splits)

lemma frames_memory_tail:
  assumes "r_Unified r = None" and "hd f = CHR ''m'' \<or> hd f = CHR ''p''" and "f \<noteq> []"
  shows "list_all (frames dir f)
    [write_all memfs dir (io_files r), write_all memfs dir (cpu_files r), ignore_if b (setDevices memfs dir r),
     write_all memfs dir (cpuset_files r), write_all memfs dir (hugetlb_files r), setFreezer memfs dir (r_Freezer r),
     setUnified memfs m (case r_Unified r of None \<Rightarrow> [] | Some u \<Rightarrow> u)]"
proof -
  have "f \<notin> fst ` set (io_files r)" "f \<notin> fst ` set (cpu_files r)" "f \<notin> fst ` set (cpuset_files r)"
    "f \<notin> fst ` set (hugetlb_files r)" "f \<noteq> ''cgroup.freeze''"
    using assms(2,3) by (auto simp: io_files_def cpu_files_def cpuset_files_def hugetlb_files_def)
  moreover have "frames dir f (setUnified memfs m [])" by (simp add: frames_def)
  ultimately show ?thesis using assms(1) by (simp add: frames_write_all frames_devices frames_freezer)
qed

lemma memory_max_file:
  assumes "memory_files r = Inr fs" and "r_Memory r \<noteq> 0"
  shows "map_of (rev fs) ''memory.max'' = Some (numToStr (r_Memory r))"
proof -
  have "numToStr (r_Memory r) \<noteq> []" using assms(2) by (auto simp: numToStr_def Itoa_def)
  then show ?thesis using assms by (auto simp: memory_files_def isMemorySet_def split: sum.splits)
qed

text \<open>Setting a memory limit on cgroup v2 and reading it back agree: when Set succeeds on an ideal
  control file system and no unified resource overrides it, the memory limit read from memory.max is the configured
  one, and the largest value when the configuration asks for no limit.\<close>

theorem set_memory_limit_roundtrip:
  assumes "v2_Set memfs cf m w = (None, m', w')" and "r = cg_Resources (c_Cgroups cf)" and "r_Unified r = None"
    and "v2_dirPath m \<noteq> []" and "r_Memory r = -1 \<or> 0 < r_Memory r \<and> r_Memory r < 2 ^ 63"
  shows "GetCgroupParamUint memfs (v2_dirPath m) ''memory.max'' w' =
    Inr (if r_Memory r = -1 then MaxUint64 else nat (r_Memory r))"
proof -
  let ?dir = "v2_dirPath m"
  obtain e m1 where m1: "getControllers memfs m w = (e, m1)" by (cases "getControllers memfs m w")
  then have "v2_dirPath m1 = ?dir" by (auto simp: getControllers_def split: option.splits sum.splits)
  moreover have run: "run_setters (v2_setters memfs m1 r) w = (None, w')"
    using assms(1,2) m1 by (auto simp: v2_Set_def split: prod.splits option.splits)
  ultimately obtain w1 w2 where 1: "setMemory memfs ?dir r w1 = (None, w2)"
    and 2: "run_setters (drop 2 (v2_setters memfs m1 r)) w2 = (None, w')"
    by (auto simp: v2_setters_def Let_def split: prod.splits option.splits)
  obtain fs where fs: "memory_files r = Inr fs" "write_all memfs ?dir fs w1 = (None, w2)"
    using 1 by (auto simp: setMemory_def split: sum.splits)
  have "r_Memory r \<noteq> 0" using assms(5) by auto
  then have "w2 (?dir, ''memory.max'') = Some (numToStr (r_Memory r))"
    using write_all_memfs [OF fs(2), of "''memory.max''"] memory_max_file [OF fs(1)] by simp
  moreover have "w' (?dir, ''memory.max'') = w2 (?dir, ''memory.max'')"
    using frames_run [OF 2] frames_memory_tail [OF assms(3), of "''memory.max''" ?dir "v2_rootless m1" m1]
      \<open>v2_dirPath m1 = ?dir\<close> by (simp add: v2_setters_def Let_def)
  ultimately show ?thesis
    using limit_read_back [of "r_Memory r" ?dir w'] no_limit_read_back [of ?dir w'] assms(4,5) by auto
qed

definition ex_v2 :: v2_manager where
  "ex_v2 = \<lparr>v2_config = c_Cgroups ex_config, v2_dirPath = ''/sys/fs/cgroup/c'', v2_controllers = Some {''memory'', ''pids''},
     v2_rootless = False\<rparr>"

definition ex_files :: files where
  "ex_files = map_of (map (\<lambda>(f, s). ((''/sys/fs/cgroup/c'', f), s))
     [(''cgroup.freeze'', ''0''), (''memory.max'', ''max''), (''memory.swap.max'', ''max''), (''pids.max'', ''max'')])"

abbreviation ex_world :: "v2_manager \<times> files \<times> freezer_state" where
  "ex_world \<equiv> (ex_v2, ex_files, Thawed)"

lemma ex_pause: "\<exists>c1 W1. Pause (v2_sys memfs ex_sys) ex_container ex_world = (Inr (), c1, W1)"
proof -
  have "fst (Pause (v2_sys memfs ex_sys) ex_container ex_world) = Inr ()" by code_simp
  then show ?thesis by (metis prod.collapse)
qed

definition pause_resume :: "'w sys \<Rightarrow> container \<Rightarrow> 'w \<Rightarrow> (cerr, unit) res \<times> container \<times> 'w" where
  "pause_resume s = act_bind (Pause s) (\<lambda>_. Resume s)"

theorem pause_and_resume_witness:
  "\<exists>c1 W1 c2 W2. Pause (v2_sys memfs ex_sys) ex_container ex_world = (Inr (), c1, W1) \<and>
     Status (v2_sys memfs ex_sys) c1 W1 = (Inr Paused, c1, W1) \<and>
     Resume (v2_sys memfs ex_sys) c1 W1 = (Inr (), c2, W2) \<and> Status (v2_sys memfs ex_sys) c2 W2 = (Inr Running, c2, W2)"
proof -
  let ?s = "v2_sys memfs ex_sys"
  obtain c1 W1 where 1: "Pause ?s ex_container ex_world = (Inr (), c1, W1)" using ex_pause by blast
  obtain r c2 W2 where 2: "Resume ?s c1 W1 = (r, c2, W2)" by (cases "Resume ?s c1 W1")
  have pr: "pause_resume ?s ex_container ex_world = (r, c2, W2)" using 1 2 by (simp add: pause_resume_def act_bind_def)
  have "fst (pause_resume ?s ex_container ex_world) = Inr ()" by code_simp
  then have r: "r = Inr ()" using pr by simp
  have "cg_GetFreezerState ?s (snd (snd (pause_resume ?s ex_container ex_world))) = Inr Thawed" by code_simp
  then have f: "cg_GetFreezerState ?s W2 = Inr Thawed" using pr by simp
  have "runType ?s ex_container ex_world = Running" by code_simp
  then show ?thesis using pause_and_resume [OF 1] 1 2 r f by blast
qed

definition ex_limited :: config where
  "ex_limited = ex_config\<lparr>c_Cgroups := (c_Cgroups ex_config)\<lparr>cg_Resources := empty_resources\<lparr>r_Memory := 64, r_SkipDevices := True\<rparr>\<rparr>\<rparr>"

theorem set_memory_limit_roundtrip_witness:
  "\<exists>m' w'. v2_Set memfs ex_limited ex_v2 ex_files = (None, m', w') \<and>
     GetCgroupParamUint memfs ''/sys/fs/cgroup/c'' ''memory.max'' w' = Inr 64"
proof -
  obtain e m' w' where run: "v2_Set memfs ex_limited ex_v2 ex_files = (e, m', w')"
    by (cases "v2_Set memfs ex_limited ex_v2 ex_files")
  have "fst (v2_Set memfs ex_limited ex_v2 ex_files) = None" by code_simp
  then have e: "e = None" using run by simp
  from set_memory_limit_roundtrip [OF run [unfolded e] refl] run e show ?thesis
    by (simp add: ex_limited_def ex_v2_def empty_resources_def)
qed

lemma shares_arith:
  fixes x :: nat
  assumes "2 \<le> x" and "x \<le> 262144"
  shows "unat (ConvertCPUSharesToCgroupV2Value (of_nat x)) = 1 + ((x - 2) * 9999) div 262142"
proof -
  let ?w = "of_nat x :: 64 word"
  have ux: "unat ?w = x" using assms by (simp add: unsigned_of_nat take_bit_nat_eq_self_iff)
  then have ne: "?w \<noteq> 0" using assms(1) by (metis unat_0 not_numeral_le_zero)
  have "2 \<le> ?w" using assms ux by (simp add: word_le_nat_alt)
  then have sub: "unat (?w - 2) = x - 2" using ux by (simp add: unat_sub)
  have top: "(x - 2) * 9999 \<le> 2621157858" using assms(2) by linarith
  then have mul: "unat ((?w - 2) * 9999) = (x - 2) * 9999"
    unfolding unat_word_ariths(2) sub by simp
  have d: "unat (((?w - 2) * 9999) div 262142) = ((x - 2) * 9999) div 262142" using mul by (simp add: unat_div)
  have "((x - 2) * 9999) div 262142 \<le> 9999" using div_le_mono [OF top, of 262142] by simp
  then show ?thesis using ne d by (simp add: ConvertCPUSharesToCgroupV2Value_def unat_word_ariths)
qed

text \<open>C28: CPU shares in the kernel's range 2 to 262144 are converted to a cgroup v2 weight in its range
  1 to 10000, monotonically, with the ends of one range going to the ends of the other; a share of 1 wraps around to a
  weight far above the largest one the kernel accepts.\<close>

theorem cpu_shares_in_range:
  assumes "2 \<le> x" and "x \<le> y" and "y \<le> (262144 :: nat)"
  shows "1 \<le> unat (ConvertCPUSharesToCgroupV2Value (of_nat x)) \<and>
    unat (ConvertCPUSharesToCgroupV2Value (of_nat x)) \<le> unat (ConvertCPUSharesToCgroupV2Value (of_nat y)) \<and>
    unat (ConvertCPUSharesToCgroupV2Value (of_nat y)) \<le> 10000 \<and>
    ConvertCPUSharesToCgroupV2Value 2 = 1 \<and> ConvertCPUSharesToCgroupV2Value 262144 = 10000 \<and>
    10000 < ConvertCPUSharesToCgroupV2Value 1"
proof -
  have x: "unat (ConvertCPUSharesToCgroupV2Value (of_nat x)) = 1 + ((x - 2) * 9999) div 262142"
    and y: "unat (ConvertCPUSharesToCgroupV2Value (of_nat y)) = 1 + ((y - 2) * 9999) div 262142"
    using assms shares_arith [of x] shares_arith [of y] by simp_all
  have "(x - 2) * 9999 div 262142 \<le> (y - 2) * 9999 div 262142" using assms(2) by (intro div_le_mono) simp
  moreover have "(y - 2) * 9999 div 262142 \<le> 262142 * 9999 div 262142" using assms(3) by (intro div_le_mono) simp
  moreover have "ConvertCPUSharesToCgroupV2Value 2 = 1" "ConvertCPUSharesToCgroupV2Value 262144 = 10000"
    "10000 < ConvertCPUSharesToCgroupV2Value 1"
    by (simp_all add: ConvertCPUSharesToCgroupV2Value_def)
  ultimately show ?thesis unfolding x y by simp
qed

theorem cpu_shares_in_range_witness:
  "unat (ConvertCPUSharesToCgroupV2Value (of_nat 1024)) \<le> unat (ConvertCPUSharesToCgroupV2Value (of_nat 2048))"
  using cpu_shares_in_range [of 1024 2048] by simp

end
