(* ===== verification/Cgroup_V2_Create.thy ===== *)
theory Cgroup_V2_Create
  imports Cgroup_V2
begin

text \<open>How a cgroup v2 manager finds, creates, joins and removes its directory: \<^verbatim>\<open>fs2/defaultpath.go\<close>, \<^verbatim>\<open>fs2/create.go\<close>,
  \<^verbatim>\<open>NewManager\<close>, \<^verbatim>\<open>Apply\<close> and \<^verbatim>\<open>Destroy\<close> of \<^verbatim>\<open>fs2/fs2.go\<close>, and the helpers of \<^verbatim>\<open>cgroups/utils.go\<close> they call. The
  directories are a parameter, as the control files are.\<close>

section \<open>The directory of a container\<close>

definition UnifiedMountpoint :: string where "UnifiedMountpoint = ''/sys/fs/cgroup''"

text \<open>\<^verbatim>\<open>strings.SplitN(s, ":", 3)\<close>\<close>

definition splitn3 :: "char \<Rightarrow> string \<Rightarrow> string list" where
  "splitn3 d s = (case splitn2 d s of [a, b] \<Rightarrow> a # splitn2 d b | r \<Rightarrow> r)"

fun own_cgroup_lines :: "string list \<Rightarrow> (go_err, string) res option" where
  "own_cgroup_lines [] = None"
| "own_cgroup_lines (l # ls) =
    (case splitn3 CHR '':'' l of
       [a, b, c] \<Rightarrow> if a = ''0'' \<and> b = [] then Some (Inr c) else own_cgroup_lines ls
     | _ \<Rightarrow> Some (Inl (ErrText (''invalid cgroup entry: '' @ l))))"

definition scan_go_err :: "scan_err \<Rightarrow> go_err" where
  "scan_go_err e = (case e of ErrTooLong \<Rightarrow> ErrText ''bufio.Scanner: token too long'' | ReadErr m \<Rightarrow> ErrText m)"

definition parseCgroupFromReader :: "reader \<Rightarrow> (go_err, string) res" where
  "parseCgroupFromReader r =
    (case scan_lines r of (ls, err) \<Rightarrow>
      (case own_cgroup_lines ls of
         Some x \<Rightarrow> x
       | None \<Rightarrow> (case err of Some e \<Rightarrow> Inl (scan_go_err e) | None \<Rightarrow> Inl (ErrText ''cgroup path not found''))))"

text \<open>The file \<^verbatim>\<open>/proc/self/cgroup\<close> is the argument \<open>self\<close>: the error of opening it or its content.\<close>

definition defaultDirPath_in :: "(go_err, reader) res \<Rightarrow> string \<Rightarrow> string \<Rightarrow> string \<Rightarrow> string \<Rightarrow> (go_err, string) res" where
  "defaultDirPath_in self root cgPath cgParent cgName =
    (if (cgName \<noteq> [] \<or> cgParent \<noteq> []) \<and> cgPath \<noteq> [] then Inl (ErrText ''cgroup: either Path or Name and Parent should be used'')
     else
       let innerPath = (if cgPath = [] then Join [cgParent, cgName] else cgPath) in
       if IsAbs innerPath then Inr (Join [root, innerPath])
       else res_bind self (\<lambda>r. res_bind (parseCgroupFromReader r) (\<lambda>ownCgroup. Inr (Join [root, Dir ownCgroup, innerPath]))))"

definition defaultDirPath :: "(go_err, reader) res \<Rightarrow> cgroup \<Rightarrow> (go_err, string) res" where
  "defaultDirPath self c =
    (if (cg_Name c \<noteq> [] \<or> cg_Parent c \<noteq> []) \<and> cg_Path c \<noteq> []
     then Inl (ErrText ''cgroup: either Path or Name and Parent should be used'')
     else if (case cg_Paths c of Some ps \<Rightarrow> ps \<noteq> [] | None \<Rightarrow> False)
     then Inl (ErrText ''cgroup: Paths is unsupported, use Path'')
     else defaultDirPath_in self UnifiedMountpoint (CleanPath (cg_Path c)) (CleanPath (cg_Parent c)) (CleanPath (cg_Name c)))"

definition NewManager :: "(go_err, reader) res \<Rightarrow> cgroup \<Rightarrow> string \<Rightarrow> bool \<Rightarrow> (go_err, v2_manager) res" where
  "NewManager self c dirPath rootless =
    res_map (\<lambda>d. \<lparr>v2_config = c, v2_dirPath = d, v2_controllers = None, v2_rootless = rootless\<rparr>)
      (if dirPath = [] then defaultDirPath self c else Inr dirPath)"

section \<open>Creating the directory\<close>

record 'w cgdirs = "'w cgfs" +
  k_Mkdir :: "string \<Rightarrow> 'w \<Rightarrow> go_err option \<times> 'w"
  k_Remove :: "string \<Rightarrow> 'w \<Rightarrow> 'w"
  k_Rmdir :: "string \<Rightarrow> 'w \<Rightarrow> go_err option \<times> 'w"
  k_ReadDir :: "string \<Rightarrow> 'w \<Rightarrow> (go_err, (string \<times> bool) list) res"

definition supportedControllers :: "('w, 'z) cgdirs_scheme \<Rightarrow> 'w \<Rightarrow> (go_err, string) res" where
  "supportedControllers k w = ReadFile k UnifiedMountpoint ''/cgroup.controllers'' w"

definition needAnyControllers :: "('w, 'z) cgdirs_scheme \<Rightarrow> cgroup \<Rightarrow> 'w \<Rightarrow> (go_err, bool) res" where
  "needAnyControllers k c w =
    res_map (\<lambda>content.
      let have = (\<lambda>ctr. ctr \<in> set (Fields content)); r = cg_Resources c in
      isPidsSet r \<and> have ''pids'' \<or> isMemorySet r \<and> have ''memory'' \<or> isIoSet r \<and> have ''io'' \<or>
      isCpuSet r \<and> have ''cpu'' \<or> isCpusetSet r \<and> have ''cpuset'' \<or> isHugeTlbSet r \<and> have ''hugetlb'')
      (supportedControllers k w)"

text \<open>A write whose error is ignored\<close>

definition try_write :: "('w, 'z) cgdirs_scheme \<Rightarrow> string \<Rightarrow> string \<Rightarrow> string \<Rightarrow> 'w \<Rightarrow> 'w" where
  "try_write k dir file data w = snd (WriteFile k dir file data w)"

text \<open>The type of a directory below the mount point decides whether domain controllers can be used in it.\<close>

definition check_type :: "('w, 'z) cgdirs_scheme \<Rightarrow> resources \<Rightarrow> string \<Rightarrow> 'w \<Rightarrow> go_err option \<times> 'w" where
  "check_type k r current w =
    (let cgType = TrimSpace (case ReadFile k current ''cgroup.type'' w of Inl _ \<Rightarrow> [] | Inr t \<Rightarrow> t) in
     if cgType = ''domain invalid'' then
       (if containsDomainController r
        then (Some (ErrText (''cannot enter cgroupv2 '' @ current @ '' with domain controllers -- it is in an invalid state'')), w)
        else (None, try_write k current ''cgroup.type'' ''threaded'' w))
     else if (cgType = ''domain threaded'' \<or> cgType = ''threaded'') \<and> containsDomainController r
     then (Some (ErrText (''cannot enter cgroupv2 '' @ current @ '' with domain controllers -- it is in '' @ cgType @ '' mode'')), w)
     else (None, w))"

definition enable_controllers :: "('w, 'z) cgdirs_scheme \<Rightarrow> string list \<Rightarrow> string \<Rightarrow> 'w \<Rightarrow> 'w" where
  "enable_controllers k ctrs current w =
    (let res = CHR ''+'' # concat (map (\<lambda>(i, c). (if i = 0 then [] else '' +'') @ c) (enumerate 0 ctrs)) in
     case WriteFile k current ''cgroup.subtree_control'' res w of
       (None, w') \<Rightarrow> w'
     | (Some _, w') \<Rightarrow> fold (try_write k current ''cgroup.subtree_control'') (split_on CHR '' '' res) w')"

text \<open>One directory of the path; the directories created so far are removed, last one first, when an error follows.\<close>

definition create_element :: "('w, 'z) cgdirs_scheme \<Rightarrow> resources \<Rightarrow> string \<Rightarrow> 'w \<Rightarrow> go_err option \<times> string list \<times> 'w" where
  "create_element k r current w =
    (case k_Mkdir k current w of
       (Some e, w1) \<Rightarrow>
         if IsExist e then (case check_type k r current w1 of (e2, w2) \<Rightarrow> (e2, [], w2)) else (Some e, [], w1)
     | (None, w1) \<Rightarrow> (case check_type k r current w1 of (e2, w2) \<Rightarrow> (e2, [current], w2)))"

fun create_elements :: "('w, 'z) cgdirs_scheme \<Rightarrow> resources \<Rightarrow> string list \<Rightarrow> nat \<Rightarrow> string \<Rightarrow> string list \<Rightarrow> string list \<Rightarrow> 'w \<Rightarrow>
  go_err option \<times> 'w" where
  "create_elements k r ctrs i current [] made w = (None, w)"
| "create_elements k r ctrs i current (e # es) made w =
    (let current' = Join [current, e];
         step = (if i > 0 then create_element k r current' w else (None, [], w))
     in case step of
          (Some err, new, w1) \<Rightarrow> (Some err, fold (k_Remove k) (new @ made) w1)
        | (None, new, w1) \<Rightarrow>
            create_elements k r ctrs (i + 1) current' es (new @ made)
              (if es \<noteq> [] then enable_controllers k ctrs current' w1 else w1))"

definition CreateCgroupPath :: "('w, 'z) cgdirs_scheme \<Rightarrow> string \<Rightarrow> cgroup \<Rightarrow> 'w \<Rightarrow> go_err option \<times> 'w" where
  "CreateCgroupPath k path c w =
    (if \<not> has_prefix path UnifiedMountpoint then (Some (ErrText (''invalid cgroup path '' @ path)), w)
     else case supportedControllers k w of
       Inl e \<Rightarrow> (Some e, w)
     | Inr content \<Rightarrow>
         create_elements k (cg_Resources c) (Fields content) 0 ''/sys/fs'' (drop 3 (split_on slash path)) [] w)"

section \<open>Joining and leaving\<close>

text \<open>A process that is still new is refused with \<^verbatim>\<open>EINVAL\<close>; the write is tried five times.\<close>

fun write_pid :: "nat \<Rightarrow> ('w, 'z) cgfs_scheme \<Rightarrow> string \<Rightarrow> string \<Rightarrow> go_err option \<Rightarrow> 'w \<Rightarrow> go_err option \<times> 'w" where
  "write_pid 0 k dir pid err w = (err, w)"
| "write_pid (Suc n) k dir pid err w =
    (case k_write k dir ''cgroup.procs'' pid w of
       (None, w') \<Rightarrow> (None, w')
     | (Some e, w') \<Rightarrow>
         if errors_Is e EINVAL then write_pid n k dir pid (Some e) w'
         else (Some (ErrText (''failed to write '' @ pid @ '' to cgroup.procs'')), w'))"

definition WriteCgroupProc :: "('w, 'z) cgfs_scheme \<Rightarrow> string \<Rightarrow> int \<Rightarrow> 'w \<Rightarrow> go_err option \<times> 'w" where
  "WriteCgroupProc k dir pid w =
    (if dir = [] then (Some (ErrText ''no such directory for cgroup.procs''), w)
     else if pid = -1 then (None, w)
     else case OpenFile k dir ''cgroup.procs'' True w of
       Some e \<Rightarrow> (Some (ErrText (''failed to write '' @ Itoa pid @ '' to cgroup.procs'')), w)
     | None \<Rightarrow> write_pid 5 k dir (Itoa pid) None w)"

definition v2_Apply :: "('w, 'z) cgdirs_scheme \<Rightarrow> v2_manager \<Rightarrow> int \<Rightarrow> 'w \<Rightarrow> go_err option \<times> 'w" where
  "v2_Apply k m pid w =
    (case CreateCgroupPath k (v2_dirPath m) (v2_config m) w of
       (Some e, w1) \<Rightarrow>
         if v2_rootless m \<and> cg_Path (v2_config m) = [] then
           (if needAnyControllers k (v2_config m) w1 = Inr False then (None, w1)
            else (Some (ErrWrap ''rootless needs no limits + no cgrouppath when no permission is granted for cgroups'' e), w1))
         else (Some e, w1)
     | (None, w1) \<Rightarrow> WriteCgroupProc k (v2_dirPath m) pid w1)"

definition cg_rmdir :: "('w, 'z) cgdirs_scheme \<Rightarrow> string \<Rightarrow> 'w \<Rightarrow> go_err option \<times> 'w" where
  "cg_rmdir k path w = (case k_Rmdir k path w of (Some e, w') \<Rightarrow> (if e = Errno ENOENT then None else Some e, w') | r \<Rightarrow> r)"

text \<open>The recursion follows the directory tree, whose depth is the fuel.\<close>

fun RemovePath :: "nat \<Rightarrow> ('w, 'z) cgdirs_scheme \<Rightarrow> string \<Rightarrow> 'w \<Rightarrow> go_err option \<times> 'w"
and remove_subdirs :: "nat \<Rightarrow> ('w, 'z) cgdirs_scheme \<Rightarrow> string \<Rightarrow> (string \<times> bool) list \<Rightarrow> 'w \<Rightarrow> go_err option \<times> 'w" where
  "RemovePath 0 k path w = (Some OutOfFuel, w)"
| "RemovePath (Suc n) k path w =
    (case cg_rmdir k path w of
       (None, w1) \<Rightarrow> (None, w1)
     | (Some _, w1) \<Rightarrow>
         (case k_ReadDir k path w1 of
            Inl e \<Rightarrow> (if IsNotExist e then None else Some e, w1)
          | Inr infos \<Rightarrow>
              (case remove_subdirs n k path infos w1 of
                 (Some e, w2) \<Rightarrow> (Some e, w2)
               | (None, w2) \<Rightarrow> cg_rmdir k path w2)))"
| "remove_subdirs n k path [] w = (None, w)"
| "remove_subdirs n k path ((name, isDir) # infos) w =
    (if isDir then
       (case RemovePath n k (Join [path, name]) w of
          (Some e, w1) \<Rightarrow> (Some e, w1)
        | (None, w1) \<Rightarrow> remove_subdirs n k path infos w1)
     else remove_subdirs n k path infos w)"

definition v2_Destroy :: "nat \<Rightarrow> ('w, 'z) cgdirs_scheme \<Rightarrow> v2_manager \<Rightarrow> 'w \<Rightarrow> go_err option \<times> 'w" where
  "v2_Destroy n k m w = RemovePath n k (v2_dirPath m) w"

section \<open>Properties\<close>

lemma IsAbs_UnifiedMountpoint [simp]: "IsAbs UnifiedMountpoint" "comps UnifiedMountpoint = [''sys'', ''fs'', ''cgroup'']"
  unfolding UnifiedMountpoint_def by code_simp+

text \<open>C29: The directory of a container's cgroup lies below the cgroup mount point whatever the path, parent and name of
  the configuration are, parent references included, when the kernel reports an absolute path as the own cgroup.\<close>

theorem cgroup_path_confined:
  assumes "defaultDirPath self c = Inr p"
    and "\<And>r own. self = Inr r \<Longrightarrow> parseCgroupFromReader r = Inr own \<Longrightarrow> IsAbs own"
  shows "\<exists>cs. comps p = [''sys'', ''fs'', ''cgroup''] @ cs \<and> list_all plain cs"
proof -
  let ?inner = "if CleanPath (cg_Path c) = [] then Join [CleanPath (cg_Parent c), CleanPath (cg_Name c)] else CleanPath (cg_Path c)"
  have inner: "joinable ?inner" by (simp add: joinable_Join del: Join.simps)
  have run: "defaultDirPath_in self UnifiedMountpoint (CleanPath (cg_Path c)) (CleanPath (cg_Parent c)) (CleanPath (cg_Name c)) = Inr p"
    using assms(1) by (auto simp: defaultDirPath_def split: if_splits)
  from run consider "p = Join [UnifiedMountpoint, ?inner]"
    | r own where "self = Inr r" "parseCgroupFromReader r = Inr own" "p = Join [UnifiedMountpoint, Dir own, ?inner]"
    unfolding defaultDirPath_in_def Let_def by (auto simp: go_res simp del: Join.simps split: if_splits)
  then show ?thesis
  proof cases
    case 1
    then show ?thesis using comps_Join_rooted(1) [OF _ inner, of UnifiedMountpoint] inner by (simp add: joinable_def)
  next
    case 2
    then have "joinable (Dir own)" using assms(2) by (intro joinable_Dir)
    then show ?thesis
      using comps_Join3_rooted [OF _ _ inner, of UnifiedMountpoint "Dir own"] inner 2(3) by (simp add: joinable_def)
  qed
qed

definition ex_escape :: cgroup where
  "ex_escape = \<lparr>cg_Name = ''../../etc'', cg_Parent = ''../x'', cg_Path = [], cg_ScopePrefix = [], cg_Paths = None,
    cg_Resources = empty_resources\<rparr>"

definition ex_self :: reader where
  "ex_self = \<lparr>rd_data = ''0::/user.slice/s.scope'' @ [CHR 0x0A], rd_err = None\<rparr>"

theorem cgroup_path_confined_witness:
  "\<exists>p cs. defaultDirPath (Inr ex_self) ex_escape = Inr p \<and> comps p = [''sys'', ''fs'', ''cgroup''] @ cs \<and> list_all plain cs"
proof -
  have scan: "scan_lines ex_self = ([''0::/user.slice/s.scope''], None)"
    by (simp add: scan_lines_def ex_self_def MaxScanTokenSize_def drop_cr_def)
  have "own_cgroup_lines [''0::/user.slice/s.scope''] = Some (Inr ''/user.slice/s.scope'')" by code_simp
  then have own: "parseCgroupFromReader ex_self = Inr ''/user.slice/s.scope''" using scan by (simp add: parseCgroupFromReader_def)
  have inner: "Join [CleanPath ''../x'', CleanPath ''../../etc''] = ''x/etc'' \<and> CleanPath ''../x'' \<noteq> [] \<and> CleanPath [] = []" by code_simp
  have "is_ok (defaultDirPath (Inr ex_self) ex_escape)"
    using own inner by (simp add: defaultDirPath_def defaultDirPath_in_def Let_def ex_escape_def is_ok_def IsAbs_def del: Join.simps)
  then obtain p where p: "defaultDirPath (Inr ex_self) ex_escape = Inr p" by (auto simp: is_ok_iff)
  have "\<exists>cs. comps p = [''sys'', ''fs'', ''cgroup''] @ cs \<and> list_all plain cs"
    by (rule cgroup_path_confined [OF p]) (use own in \<open>auto simp: IsAbs_def\<close>)
  then show ?thesis using p by blast
qed

end
