(* ===== verification/Factory.thy ===== *)
theory Factory
  imports Container_State Config_Validate
begin

text \<open>The factory of \<^verbatim>\<open>factory_linux.go\<close>: creating a container, and loading one from the state its operations saved. Making
  the cgroup manager is a parameter, which may panic; the state file is a parameter that gives the error of opening it or
  the result of decoding it.\<close>

section \<open>The factory\<close>

record linux_factory =
  lf_Root :: string
  lf_CriuPath :: string
  lf_rdt :: bool
  lf_host :: host

record 'w factory_sys = "'w sys" +
  fa_SecureJoin :: "string \<Rightarrow> string \<Rightarrow> 'w \<Rightarrow> (go_err, string) res"
  fa_MkdirAll :: "string \<Rightarrow> 'w \<Rightarrow> go_err option \<times> 'w"
  fa_ChownSelf :: "string \<Rightarrow> 'w \<Rightarrow> go_err option \<times> 'w"
  fa_ReadState :: "string \<Rightarrow> 'w \<Rightarrow> (go_err, (go_err, saved_state) res) res"
  fa_NewManager :: "cgroup \<Rightarrow> (string \<times> string) list \<Rightarrow> 'w \<Rightarrow> 'w option"

datatype factory_err =
    InvalidRoot | InvalidIdFormat string | InvalidConfig validate_err | IdInUse string | ContainerNotExists string
  | SystemErr go_err | OtherErr go_err | ContainerErr cerr | ManagerPanic

text \<open>The character class of \<^verbatim>\<open>idRegex\<close> is that of the word characters and of the range from \<^verbatim>\<open>+\<close> to \<^verbatim>\<open>.\<close>, which holds the
  comma too.\<close>

definition id_char :: "char \<Rightarrow> bool" where
  "id_char c \<longleftrightarrow>
    (let n = (of_char c :: nat) in
     48 \<le> n \<and> n \<le> 57 \<or> 65 \<le> n \<and> n \<le> 90 \<or> 97 \<le> n \<and> n \<le> 122 \<or> c = CHR ''_'' \<or> 43 \<le> n \<and> n \<le> 46)"

definition idRegex :: "string \<Rightarrow> bool" where
  "idRegex s \<longleftrightarrow> s \<noteq> [] \<and> list_all id_char s"

definition validateID :: "string \<Rightarrow> factory_err option" where
  "validateID i = (if \<not> idRegex i \<or> slash # i \<noteq> CleanPath (slash # i) then Some (InvalidIdFormat i) else None)"

definition Create :: "('w, 'z) factory_sys_scheme \<Rightarrow> linux_factory \<Rightarrow> string \<Rightarrow> config \<Rightarrow> 'w \<Rightarrow> (factory_err, container) res \<times> 'w" where
  "Create s l i cf w =
    (if lf_Root l = [] then (Inl InvalidRoot, w)
     else case validateID i of Some e \<Rightarrow> (Inl e, w) | None \<Rightarrow>
    (case Validate (lf_host l) cf of Some e \<Rightarrow> (Inl (InvalidConfig e), w) | None \<Rightarrow>
    (case fa_SecureJoin s (lf_Root l) i w of Inl e \<Rightarrow> (Inl (OtherErr e), w) | Inr root \<Rightarrow>
    (case s_osStat s root w of
       None \<Rightarrow> (Inl (IdInUse i), w)
     | Some e \<Rightarrow>
         if \<not> IsNotExist e then (Inl (SystemErr e), w)
         else
           (case fa_MkdirAll s root w of
              (Some e, w1) \<Rightarrow> (Inl (SystemErr e), w1)
            | (None, w1) \<Rightarrow>
                (case fa_ChownSelf s root w1 of
                   (Some e, w2) \<Rightarrow> (Inl (SystemErr e), w2)
                 | (None, w2) \<Rightarrow>
                     (case fa_NewManager s (c_Cgroups cf) [] w2 of
                        None \<Rightarrow> (Inl ManagerPanic, w2)
                      | Some w3 \<Rightarrow>
                          (Inr \<lparr>cn_id = i, cn_root = root, cn_config = cf, cn_criuPath = lf_CriuPath l, cn_criuVersion = 0,
                                cn_rdt = lf_rdt l, cn_initProcess = None, cn_initProcessStartTime = 0, cn_state = StoppedState,
                                cn_created = 0\<rparr>, w3))))))))"

definition loadState :: "('w, 'z) factory_sys_scheme \<Rightarrow> string \<Rightarrow> string \<Rightarrow> 'w \<Rightarrow> (factory_err, saved_state) res" where
  "loadState s root i w =
    (case fa_SecureJoin s root stateFilename w of
       Inl e \<Rightarrow> Inl (OtherErr e)
     | Inr path \<Rightarrow>
         (case fa_ReadState s path w of
            Inl e \<Rightarrow> Inl (if IsNotExist e then ContainerNotExists i else SystemErr e)
          | Inr (Inl e) \<Rightarrow> Inl (SystemErr e)
          | Inr (Inr st) \<Rightarrow> Inr st))"

definition loaded_container :: "linux_factory \<Rightarrow> string \<Rightarrow> string \<Rightarrow> saved_state \<Rightarrow> status \<Rightarrow> container" where
  "loaded_container l i root st x =
    \<lparr>cn_id = i, cn_root = root, cn_config = sv_Config st, cn_criuPath = lf_CriuPath l, cn_criuVersion = 0, cn_rdt = lf_rdt l,
     cn_initProcess = Some \<lparr>pp_pid = sv_InitProcessPid st, pp_startTime = sv_InitProcessStartTime st, pp_fds = sv_ExternalDescriptors st\<rparr>,
     cn_initProcessStartTime = sv_InitProcessStartTime st, cn_state = LoadedState x, cn_created = sv_Created st\<rparr>"

text \<open>The loaded state has the zero status, created, until it is refreshed.\<close>

definition Load :: "('w, 'z) factory_sys_scheme \<Rightarrow> linux_factory \<Rightarrow> string \<Rightarrow> 'w \<Rightarrow> (factory_err, container) res \<times> 'w" where
  "Load s l i w =
    (if lf_Root l = [] then (Inl InvalidRoot, w)
     else case validateID i of Some e \<Rightarrow> (Inl e, w) | None \<Rightarrow>
    (case fa_SecureJoin s (lf_Root l) i w of Inl e \<Rightarrow> (Inl (OtherErr e), w) | Inr root \<Rightarrow>
    (case loadState s root i w of Inl e \<Rightarrow> (Inl e, w) | Inr st \<Rightarrow>
    (case fa_NewManager s (c_Cgroups (sv_Config st)) (sv_CgroupPaths st) w of
       None \<Rightarrow> (Inl ManagerPanic, w)
     | Some w1 \<Rightarrow>
         (case refreshState s (loaded_container l i root st Created) w1 of
            (Inl e, c', w2) \<Rightarrow> (Inl (ContainerErr e), w2)
          | (Inr _, c', w2) \<Rightarrow> (Inr c', w2))))))"

text \<open>The unified path of a saved state: all its cgroup paths must be the same clean absolute one. \<^verbatim>\<open>None\<close> is the panic.\<close>

fun unified_loop :: "string \<Rightarrow> (string \<times> string) list \<Rightarrow> string option" where
  "unified_loop path [] = Some path"
| "unified_loop path ((k, v) # kvs) =
    (if path = [] then unified_loop v kvs else if v \<noteq> path then None else unified_loop path kvs)"

definition getUnifiedPath :: "(string \<times> string) list \<Rightarrow> string option" where
  "getUnifiedPath paths =
    (case unified_loop [] paths of
       None \<Rightarrow> None
     | Some path \<Rightarrow> if path \<noteq> [] \<and> (Clean path \<noteq> path \<or> \<not> IsAbs path) then None else Some path)"

section \<open>Properties\<close>

lemma id_char_not_slash: "\<not> id_char slash"
  by (simp add: id_char_def Let_def)

text \<open>C31: An accepted container id is one plain path component: it is not empty, holds no slash and is neither of the
  two dot names, so that the directory of the container is a direct child of the factory's root.\<close>

theorem valid_id_is_component:
  assumes "validateID i = None" and "IsAbs root"
  shows "plain i \<and> comps (Join [root, i]) = comps root @ [i]"
proof -
  have i: "idRegex i" "slash # i = CleanPath (slash # i)" using assms(1) by (auto simp: validateID_def split: if_splits)
  then have ns: "slash \<notin> set i" "i \<noteq> []" using id_char_not_slash by (auto simp: idRegex_def list_all_iff)
  have split: "split_on slash (slash # i) = [[], i]" using ns by (simp add: split_on_no_sep)
  have abs: "IsAbs (slash # i)" by (simp add: IsAbs_def)
  have "Clean (CleanPath (slash # i)) = Clean (slash # i)" using abs by (intro Clean_cong) (simp_all add: CleanPath_parts)
  then have "CleanPath (slash # i) = slash # join_with slash (comps (slash # i))"
    by (simp add: CleanPath_parts Clean_rooted [OF abs])
  then have j: "join_with slash (comps (slash # i)) = i" using i(2) by simp
  have "i \<noteq> ''.'' \<and> i \<noteq> ''..''"
    using j split abs by (auto simp: comps_def clean_step.simps)
  then have pl: "plain i" using ns by (simp add: plain_def)
  then have c: "comps i = [i]" "\<not> IsAbs i" using comps_join_plain [of "[i]"] by simp_all
  then have "joinable i" using pl ns by (simp add: joinable_def Clean_def)
  then show ?thesis using comps_Join_rooted(1) [OF assms(2)] pl c(1) by simp
qed

theorem valid_id_is_component_witness: "plain ''c,1'' \<and> comps (Join [''/run/runc'', ''c,1'']) = comps ''/run/runc'' @ [''c,1'']"
proof -
  have "(case validateID ''c,1'' of None \<Rightarrow> True | Some _ \<Rightarrow> False)" by code_simp
  then have "validateID ''c,1'' = None" by (auto split: option.splits)
  moreover have "IsAbs ''/run/runc''" by (simp add: IsAbs_def)
  ultimately show ?thesis by (rule valid_id_is_component)
qed

text \<open>C30: Loading gives back the saved container: from the state that a container with a process saved, it yields a
  container of the same configuration, process and start time, in a state whose status is the one observed of the
  process and of the cgroup.\<close>

theorem load_saved_container:
  assumes "lf_Root l \<noteq> []" and "validateID (cn_id c) = None" and "fa_SecureJoin s (lf_Root l) (cn_id c) w = Inr (cn_root c)"
    and "fa_SecureJoin s (cn_root c) stateFilename w = Inr path"
    and "fa_ReadState s path w = Inr (Inr (currentState s c w0))"
    and "fa_NewManager s (c_Cgroups (cn_config c)) (cg_GetPaths s w0) w = Some w1"
    and "cn_initProcess c = Some p" and "pp_startTime p = cn_initProcessStartTime c" and "isPaused s w1 = Inr frozen"
  shows "\<exists>c'. Load s l (cn_id c) w = (Inr c', w1) \<and> cn_config c' = cn_config c \<and> cn_root c' = cn_root c \<and>
    cn_initProcess c' = Some p \<and> cn_initProcessStartTime c' = cn_initProcessStartTime c \<and> cn_created c' = cn_created c \<and>
    state_status (cn_state c') = (if frozen then Paused else runType s c w1)"
proof -
  let ?st = "currentState s c w0" and ?c = "loaded_container l (cn_id c) (cn_root c) (currentState s c w0) Created"
  have p: "\<lparr>pp_pid = pp_pid p, pp_startTime = pp_startTime p, pp_fds = pp_fds p\<rparr> = p" by simp
  have c: "cn_config ?c = cn_config c" "cn_root ?c = cn_root c" "cn_initProcess ?c = Some p" "cn_created ?c = cn_created c"
    "cn_initProcessStartTime ?c = cn_initProcessStartTime c" "cn_state ?c = LoadedState Created"
    using assms(7,8) p by (simp_all add: loaded_container_def currentState_def Let_def)
  have rt: "runType s ?c w1 = runType s c w1"
    using c assms(7) by (simp add: runType_def cong: option.case_cong sum.case_cong if_cong del: Join.simps)
  have range: "runType s c w1 \<in> {Created, Running, Stopped}"
    by (auto simp: runType_def split: option.splits sum.splits)
  obtain x where x: "refreshState s ?c w1 = (Inr (), ?c\<lparr>cn_state := x\<rparr>, w1)"
    "state_status x = (if frozen then Paused else runType s c w1)"
    using assms(9) rt range c(6) by (cases frozen) (auto simp: refreshState_def transition_loaded)
  have "Load s l (cn_id c) w = (Inr (?c\<lparr>cn_state := x\<rparr>), w1)"
    using assms(1-6) x(1) by (simp add: Load_def loadState_def) (simp add: currentState_def Let_def)
  then show ?thesis using c x(2) by (intro exI [of _ "?c\<lparr>cn_state := x\<rparr>"]) simp
qed

definition ex_factory :: linux_factory where
  "ex_factory = \<lparr>lf_Root = ''/run'', lf_CriuPath = ''criu'', lf_rdt = False, lf_host = ex_host\<rparr>"

definition ex_factory_sys :: "freezer_state factory_sys" where
  "ex_factory_sys = sys.extend ex_sys
    \<lparr>fa_SecureJoin = (\<lambda>r p w. Inr (r @ slash # p)), fa_MkdirAll = (\<lambda>p w. (None, w)), fa_ChownSelf = (\<lambda>p w. (None, w)),
     fa_ReadState = (\<lambda>p w. Inr (Inr (currentState ex_sys ex_container Thawed))), fa_NewManager = (\<lambda>c ps w. Some w)\<rparr>"

theorem load_saved_container_witness:
  "\<exists>c'. Load ex_factory_sys ex_factory ''c1'' Thawed = (Inr c', Thawed) \<and> cn_config c' = ex_config \<and>
    state_status (cn_state c') = Running"
proof -
  let ?s = ex_factory_sys and ?l = ex_factory and ?c = ex_container
  have "(case validateID ''c1'' of None \<Rightarrow> True | Some _ \<Rightarrow> False)" by code_simp
  then have v: "validateID (cn_id ?c) = None" by (auto simp: ex_container_def split: option.splits)
  have st: "currentState ?s ?c Thawed = currentState ex_sys ?c Thawed"
    by (simp add: currentState_def ex_factory_sys_def sys.defs ex_sys_def ex_container_def Let_def)
  have run: "runType ?s ?c Thawed = Running" by code_simp
  have "\<exists>c'. Load ?s ?l (cn_id ?c) Thawed = (Inr c', Thawed) \<and> cn_config c' = cn_config ?c \<and> cn_root c' = cn_root ?c \<and>
    cn_initProcess c' = Some \<lparr>pp_pid = 7, pp_startTime = 5, pp_fds = []\<rparr> \<and>
    cn_initProcessStartTime c' = cn_initProcessStartTime ?c \<and> cn_created c' = cn_created ?c \<and>
    state_status (cn_state c') = (if False then Paused else runType ?s ?c Thawed)"
    by (rule load_saved_container [OF _ v, where path = "cn_root ?c @ slash # stateFilename" and ?w0.0 = Thawed])
      (simp_all add: st, simp_all add: ex_factory_def ex_factory_sys_def sys.defs ex_sys_def ex_container_def isPaused_def, code_simp)
  then show ?thesis using run by (auto simp: ex_container_def)
qed

end
