(* ===== verification/Criu_Request.thy ===== *)
theory Criu_Request
  imports Container_State
begin

text \<open>What libcontainer asks of CRIU for a checkpoint or a restore: the options of \<^verbatim>\<open>criu_opts_linux.go\<close>, the
  request of the CRIU protocol with the fields the code sets, and the functions of \<^verbatim>\<open>container_linux.go\<close> that
  fill it (configuration file, external namespaces, external mounts, veth pairs, inherited descriptors) or prepare
  the root file system for a restore. The operations are functions of a state that holds the container, the options
  (which the code changes in place), CRIU's features and the outside world; they may fail with an error of the
  container, and \<^verbatim>\<open>None\<close> is a run that does not return.\<close>

section \<open>Requests\<close>

record veth_pair =
  vp_ContainerInterfaceName :: string
  vp_HostInterfaceName :: string

record criu_opts =
  co_ImagesDirectory :: string
  co_WorkDirectory :: string
  co_ParentImage :: string
  co_LeaveRunning :: bool
  co_TcpEstablished :: bool
  co_ExternalUnixConnections :: bool
  co_ShellJob :: bool
  co_FileLocks :: bool
  co_PreDump :: bool
  co_PageServerAddress :: string
  co_PageServerPort :: int
  co_VethPairs :: "veth_pair list"
  co_ManageCgroupsMode :: int
  co_EmptyNs :: "32 word"
  co_AutoDedup :: bool
  co_LazyPages :: bool
  co_StatusFd :: int

text \<open>The message types of the CRIU protocol; a field the code may leave unset is optional.\<close>

datatype req_type =
    EMPTY | DUMP | RESTORE | CHECK | PRE_DUMP | PAGE_SERVER | NOTIFY | CPUINFO_DUMP | CPUINFO_CHECK | FEATURE_CHECK
  | VERSION | WAIT_PID | PAGE_SERVER_CHLD

record rpc_opts =
  o_ImagesDirFd :: int
  o_WorkDirFd :: int
  o_EvasiveDevices :: bool
  o_LogLevel :: int
  o_LogFile :: string
  o_RstSibling :: bool
  o_Root :: string
  o_ManageCgroups :: bool
  o_NotifyScripts :: bool
  o_Pid :: "int option"
  o_ShellJob :: bool
  o_LeaveRunning :: bool
  o_TcpEstablished :: bool
  o_ExtUnixSk :: bool
  o_FileLocks :: bool
  o_EmptyNs :: "32 word"
  o_OrphanPtsMaster :: bool
  o_AutoDedup :: bool
  o_LazyPages :: bool
  o_ConfigFile :: "string option"
  o_External :: "string list"
  o_JoinNs :: "(string \<times> string) list"
  o_InheritFd :: "(string \<times> int) list"
  o_FreezeCgroup :: "string option"
  o_Ps :: "(string \<times> int) option"
  o_ParentImg :: "string option"
  o_TrackMem :: bool
  o_ManageCgroupsMode :: "int option"
  o_StatusFd :: "int option"
  o_ExtMnt :: "(string \<times> string) list"
  o_Veths :: "(string \<times> string) list"
  o_CgRoot :: "(string \<times> string) list"

record criu_features =
  f_MemTrack :: "bool option"
  f_LazyPages :: "bool option"

record criu_req =
  rq_Type :: req_type
  rq_Opts :: "rpc_opts option"
  rq_Features :: "criu_features option"
  rq_NotifySuccess :: bool

record criu_resp =
  rs_Type :: req_type
  rs_Success :: bool
  rs_CrErrno :: int
  rs_Features :: "criu_features option"
  rs_Notify :: "(string \<times> int) option"

text \<open>What reading one message from CRIU gives. The control message that may come with it is kept as the result of
  parsing it: per message, the file descriptors it passes.\<close>

type_synonym oob = "(go_err, (go_err, int list) res list) res"

datatype criu_recv = ReadErr go_err | EndOfFile | TooLong | BadMessage go_err | Msg criu_resp oob

section \<open>The environment\<close>

record cg_mount =
  cm_Mountpoint :: string
  cm_Root :: string
  cm_Subsystems :: "string list"

record 'w criu_sys = "'w sys" +
  cr_Apply :: "int \<Rightarrow> 'w \<Rightarrow> go_err option \<times> 'w"
  cr_Path :: "string \<Rightarrow> 'w \<Rightarrow> string"
  cr_Unified :: bool
  cr_GetVersion :: "string \<Rightarrow> 'w \<Rightarrow> (go_err, int) res \<times> 'w"
  cr_Mkdir :: "string \<Rightarrow> 'w \<Rightarrow> go_err option \<times> 'w"
  cr_MkdirAll :: "string \<Rightarrow> 'w \<Rightarrow> go_err option \<times> 'w"
  cr_createIfNotExists :: "string \<Rightarrow> bool \<Rightarrow> 'w \<Rightarrow> go_err option \<times> 'w"
  cr_Create :: "string \<Rightarrow> 'w \<Rightarrow> go_err option \<times> 'w"
  cr_Open :: "string \<Rightarrow> 'w \<Rightarrow> (go_err, int) res \<times> 'w"
  cr_CloseFd :: "int \<Rightarrow> 'w \<Rightarrow> 'w"
  cr_WriteFd :: "int \<Rightarrow> 'w \<Rightarrow> 'w"
  cr_SendFd :: "int \<Rightarrow> 'w \<Rightarrow> go_err option \<times> 'w"
  cr_FcntlInt :: "int \<Rightarrow> 'w \<Rightarrow> (go_err, 32 word) res"
  cr_StatIno :: "string \<Rightarrow> 'w \<Rightarrow> (go_err, nat) res"
  cr_StatDir :: "string \<Rightarrow> 'w \<Rightarrow> (go_err, bool) res"
  cr_Readlink :: "string \<Rightarrow> 'w \<Rightarrow> (go_err, string) res"
  cr_EvalSymlinks :: "string \<Rightarrow> 'w \<Rightarrow> (go_err, string) res"
  cr_SecureJoin :: "string \<Rightarrow> string \<Rightarrow> 'w \<Rightarrow> (go_err, string) res"
  cr_isProc :: "string \<Rightarrow> 'w \<Rightarrow> (go_err, bool) res"
  cr_Mount :: "string \<Rightarrow> string \<Rightarrow> 'w \<Rightarrow> go_err option \<times> 'w"
  cr_Unmount :: "string \<Rightarrow> 'w \<Rightarrow> 'w"
  cr_GetCgroupMounts :: "'w \<Rightarrow> (go_err, cg_mount list) res"
  cr_ParseCgroupFile :: "string \<Rightarrow> 'w \<Rightarrow> (go_err, (string \<times> string) list) res"
  cr_WriteStrings :: "string \<Rightarrow> string list \<Rightarrow> 'w \<Rightarrow> go_err option \<times> 'w"
  cr_ReadStrings :: "string \<Rightarrow> 'w \<Rightarrow> (go_err, string list) res"
  cr_Now :: "'w \<Rightarrow> int"
  cr_Spawn :: "string \<Rightarrow> int list \<Rightarrow> 'w \<Rightarrow> (go_err, int) res \<times> 'w"
  cr_Send :: "criu_req \<Rightarrow> 'w \<Rightarrow> go_err option \<times> 'w"
  cr_Recv :: "'w \<Rightarrow> criu_recv \<times> 'w"
  cr_Wait :: "'w \<Rightarrow> (go_err, bool) res \<times> 'w"

record 'w cst =
  st_c :: container
  st_opts :: criu_opts
  st_ops :: "parent_process option"
  st_features :: "criu_features option"
  st_w :: 'w

type_synonym ('a, 'w) cr = "'w cst \<Rightarrow> ((cerr, 'a) res \<times> 'w cst) option"

definition cr_bind :: "('a, 'w) cr \<Rightarrow> ('a \<Rightarrow> ('b, 'w) cr) \<Rightarrow> ('b, 'w) cr" where
  "cr_bind m f st =
    (case m st of
       None \<Rightarrow> None
     | Some (Inl e, st') \<Rightarrow> Some (Inl e, st')
     | Some (Inr a, st') \<Rightarrow> f a st')"

definition cr_return :: "'a \<Rightarrow> ('a, 'w) cr" where
  "cr_return a st = Some (Inr a, st)"

definition cr_fail :: "cerr \<Rightarrow> ('a, 'w) cr" where
  "cr_fail e st = Some (Inl e, st)"

definition cr_gets :: "('w cst \<Rightarrow> 'a) \<Rightarrow> ('a, 'w) cr" where
  "cr_gets f st = Some (Inr (f st), st)"

definition cr_ask :: "('w \<Rightarrow> (go_err, 'a) res) \<Rightarrow> ('a, 'w) cr" where
  "cr_ask f st = Some (case f (st_w st) of Inl e \<Rightarrow> Inl (Plain e) | Inr a \<Rightarrow> Inr a, st)"

definition cr_world :: "('w \<Rightarrow> go_err option \<times> 'w) \<Rightarrow> (unit, 'w) cr" where
  "cr_world f st =
    (case f (st_w st) of
       (None, w') \<Rightarrow> Some (Inr (), st\<lparr>st_w := w'\<rparr>)
     | (Some e, w') \<Rightarrow> Some (Inl (Plain e), st\<lparr>st_w := w'\<rparr>))"

definition cr_call :: "('w \<Rightarrow> (go_err, 'a) res \<times> 'w) \<Rightarrow> ('a, 'w) cr" where
  "cr_call f st =
    (case f (st_w st) of
       (Inl e, w') \<Rightarrow> Some (Inl (Plain e), st\<lparr>st_w := w'\<rparr>)
     | (Inr a, w') \<Rightarrow> Some (Inr a, st\<lparr>st_w := w'\<rparr>))"

definition cr_act :: "('a, 'w) act \<Rightarrow> ('a, 'w) cr" where
  "cr_act m st = (case m (st_c st) (st_w st) of (r, c', w') \<Rightarrow> Some (r, st\<lparr>st_c := c', st_w := w'\<rparr>))"

text \<open>A deferred call that runs whatever is returned\<close>

definition cr_defer :: "('w \<Rightarrow> 'w) \<Rightarrow> ('a, 'w) cr \<Rightarrow> ('a, 'w) cr" where
  "cr_defer g m st = map_option (\<lambda>(r, st'). (r, st'\<lparr>st_w := g (st_w st')\<rparr>)) (m st)"

lemmas cr_defs = cr_bind_def cr_return_def cr_fail_def cr_gets_def cr_ask_def cr_world_def cr_call_def cr_act_def cr_defer_def

definition err_text :: "string \<Rightarrow> cerr" where
  "err_text s = Plain (ErrText s)"

section \<open>Version and features\<close>

definition compareCriuVersion :: "int \<Rightarrow> int \<Rightarrow> (unit, 'w) cr" where
  "compareCriuVersion criuVersion minVersion =
    (if criuVersion < minVersion then cr_fail (err_text ''CRIU version is too low'') else cr_return ())"

definition checkCriuVersion :: "('w, 'z) criu_sys_scheme \<Rightarrow> int \<Rightarrow> (unit, 'w) cr" where
  "checkCriuVersion s minVersion st =
    (if cn_criuVersion (st_c st) \<noteq> 0 then compareCriuVersion (cn_criuVersion (st_c st)) minVersion st
     else case cr_GetVersion s (cn_criuPath (st_c st)) (st_w st) of
       (Inl _, w') \<Rightarrow> Some (Inl (err_text ''CRIU version check failed''), st\<lparr>st_w := w'\<rparr>)
     | (Inr v, w') \<Rightarrow> compareCriuVersion v minVersion (st\<lparr>st_c := (st_c st)\<lparr>cn_criuVersion := v\<rparr>, st_w := w'\<rparr>))"

text \<open>\<^verbatim>\<open>c.checkCriuVersion(v) == nil\<close>\<close>

definition criu_at_least :: "('w, 'z) criu_sys_scheme \<Rightarrow> int \<Rightarrow> (bool, 'w) cr" where
  "criu_at_least s v st = map_option (\<lambda>(r, st'). (Inr (is_ok r), st')) (checkCriuVersion s v st)"

text \<open>The features asked for that CRIU reports as missing\<close>

definition missing_feature :: "bool option \<Rightarrow> bool option \<Rightarrow> bool" where
  "missing_feature asked have \<longleftrightarrow> asked = Some True \<and> have = Some False"

definition missingFeatures :: "criu_features \<Rightarrow> criu_features option \<Rightarrow> cerr option" where
  "missingFeatures feat got =
    (if f_MemTrack feat = None \<and> f_LazyPages feat = None then None
     else case got of
       None \<Rightarrow> Some NilPanic
     | Some have \<Rightarrow>
         if missing_feature (f_MemTrack feat) (f_MemTrack have) \<or> missing_feature (f_LazyPages feat) (f_LazyPages have)
         then Some (err_text ''CRIU is missing features'') else None)"

section \<open>Configuration file and namespaces\<close>

definition handleCriuConfigurationFile :: "string list \<Rightarrow> rpc_opts \<Rightarrow> rpc_opts" where
  "handleCriuConfigurationFile labels opts =
    (case snd (Annotations labels) ''org.criu.config'' of
       Some configFile \<Rightarrow> if configFile \<noteq> [] then opts\<lparr>o_ConfigFile := Some configFile\<rparr> else opts
     | None \<Rightarrow> opts\<lparr>o_ConfigFile := Some ''/etc/criu/runc.conf''\<rparr>)"

definition criuSupportsExtNS :: "('w, 'z) criu_sys_scheme \<Rightarrow> namespace_type \<Rightarrow> (bool, 'w) cr" where
  "criuSupportsExtNS s t =
    (if t = NEWNET then criu_at_least s 31100 else if t = NEWPID then criu_at_least s 31500 else cr_return False)"

text \<open>\<^verbatim>\<open>strings.Title\<close> on ASCII text: a letter that starts a word is made upper case.\<close>

definition upper_char :: "char \<Rightarrow> char" where
  "upper_char c = (let n = (of_char c :: nat) in if 97 \<le> n \<and> n \<le> 122 then char_of (n - 32) else c)"

definition word_char :: "char \<Rightarrow> bool" where
  "word_char c \<longleftrightarrow>
    (let n = (of_char c :: nat) in 65 \<le> n \<and> n \<le> 90 \<or> 97 \<le> n \<and> n \<le> 122 \<or> 48 \<le> n \<and> n \<le> 57 \<or> c = CHR ''_'')"

fun title_from :: "bool \<Rightarrow> string \<Rightarrow> string" where
  "title_from start [] = []"
| "title_from start (c # cs) = (if start then upper_char c else c) # title_from (\<not> word_char c) cs"

definition criuNsToKey :: "namespace_type \<Rightarrow> string" where
  "criuNsToKey t = ''extRoot'' @ title_from True (NsName t) @ ''NS''"

definition handleCheckpointingExternalNamespaces ::
  "('w, 'z) criu_sys_scheme \<Rightarrow> namespace_type \<Rightarrow> rpc_opts \<Rightarrow> (rpc_opts, 'w) cr" where
  "handleCheckpointingExternalNamespaces s t opts =
    cr_bind (criuSupportsExtNS s t) (\<lambda>supported.
    cr_bind (cr_gets (\<lambda>st. ns_PathOf (c_Namespaces (cn_config (st_c st))) t)) (\<lambda>nsPath.
      if \<not> supported \<or> nsPath = [] then cr_return opts
      else cr_bind (cr_ask (cr_StatIno s nsPath)) (\<lambda>ino.
        cr_return (opts\<lparr>o_External := o_External opts @ [NsName t @ ''['' @ Itoa (int ino) @ '']:'' @ criuNsToKey t]\<rparr>))))"

text \<open>The descriptors opened for CRIU so far are the list \<open>extra\<close>; 0, 1, 2 and 3 are the standard streams and the
  socket of the protocol.\<close>

definition handleRestoringExternalNamespaces ::
  "('w, 'z) criu_sys_scheme \<Rightarrow> namespace_type \<Rightarrow> rpc_opts \<Rightarrow> int list \<Rightarrow> (rpc_opts \<times> int list, 'w) cr" where
  "handleRestoringExternalNamespaces s t opts extra =
    cr_bind (criuSupportsExtNS s t) (\<lambda>supported.
    cr_bind (cr_gets (\<lambda>st. ns_PathOf (c_Namespaces (cn_config (st_c st))) t)) (\<lambda>nsPath.
      if \<not> supported \<or> nsPath = [] then cr_return (opts, extra)
      else (\<lambda>st.
        case cr_Open s nsPath (st_w st) of
          (Inl _, w') \<Rightarrow> Some (Inl (err_text (''Requested network namespace '' @ nsPath @ '' does not exist'')), st\<lparr>st_w := w'\<rparr>)
        | (Inr fd, w') \<Rightarrow>
            Some (Inr (opts\<lparr>o_InheritFd := o_InheritFd opts @ [(criuNsToKey t, 4 + int (length extra))]\<rparr>, extra @ [fd]),
                  st\<lparr>st_w := w'\<rparr>))))"

fun handleRestoringNamespaces ::
  "('w, 'z) criu_sys_scheme \<Rightarrow> namespaces \<Rightarrow> rpc_opts \<Rightarrow> int list \<Rightarrow> (rpc_opts \<times> int list, 'w) cr" where
  "handleRestoringNamespaces s [] opts extra = cr_return (opts, extra)"
| "handleRestoringNamespaces s (n # ns) opts extra =
    (if ns_Type n = NEWNET \<or> ns_Type n = NEWPID then
       cr_bind (handleRestoringExternalNamespaces s (ns_Type n) opts extra) (\<lambda>(opts', extra').
         handleRestoringNamespaces s ns opts' extra')
     else
       cr_bind (cr_gets (\<lambda>st. ns_PathOf (c_Namespaces (cn_config (st_c st))) (ns_Type n))) (\<lambda>nsPath.
         if nsPath = [] then handleRestoringNamespaces s ns opts extra
         else if ns_Type n = NEWCGROUP then cr_fail (err_text (''Do not know how to handle namespace '' @ ns_Type n))
         else handleRestoringNamespaces s ns (opts\<lparr>o_JoinNs := o_JoinNs opts @ [(NsName (ns_Type n), nsPath)]\<rparr>) extra))"

section \<open>External mounts\<close>

text \<open>An external mount of the request is a pair of key and value. A dump names the mount; a restore says what to
  mount there.\<close>

definition criu_mount_dest :: "string \<Rightarrow> mount \<Rightarrow> string" where
  "criu_mount_dest rootfs m = trim_prefix (m_Destination m) rootfs"

definition addCriuDumpMount :: "string \<Rightarrow> mount \<Rightarrow> (string \<times> string) list \<Rightarrow> (string \<times> string) list" where
  "addCriuDumpMount rootfs m ext = ext @ [(criu_mount_dest rootfs m, criu_mount_dest rootfs m)]"

definition addCriuRestoreMount :: "string \<Rightarrow> mount \<Rightarrow> (string \<times> string) list \<Rightarrow> (string \<times> string) list" where
  "addCriuRestoreMount rootfs m ext = ext @ [(criu_mount_dest rootfs m, m_Source m)]"

fun addMaskPaths :: "('w, 'z) criu_sys_scheme \<Rightarrow> int \<Rightarrow> string list \<Rightarrow> (string \<times> string) list \<Rightarrow> ((string \<times> string) list, 'w) cr" where
  "addMaskPaths s pid [] ext = cr_return ext"
| "addMaskPaths s pid (p # ps) ext =
    cr_bind (cr_gets (\<lambda>st. cr_StatDir s (''/proc/'' @ Itoa pid @ ''/root/'' @ p) (st_w st))) (\<lambda>r.
      case r of
        Inl e \<Rightarrow> if IsNotExist e then addMaskPaths s pid ps ext else cr_fail (Plain e)
      | Inr isDir \<Rightarrow> addMaskPaths s pid ps (if isDir then ext else ext @ [(p, ''/dev/null'')]))"

text \<open>The cgroup v1 hierarchies a cgroup mount stands for, as bind mounts\<close>

definition GetOwnCgroup :: "bool \<Rightarrow> cg_mount \<Rightarrow> (string \<times> string) list \<Rightarrow> (go_err, string) res" where
  "GetOwnCgroup unified m cgs =
    (case cm_Subsystems m of
       [] \<Rightarrow> Inl (ErrText ''no subsystem for mount'')
     | sub # _ \<Rightarrow>
         if unified then Inl (ErrText ''not implemented for cgroup v2 unified hierarchy'')
         else case map_of cgs sub of
           Some p \<Rightarrow> Inr p
         | None \<Rightarrow>
             (case map_of cgs (''name='' @ sub) of
                Some p \<Rightarrow> Inr p
              | None \<Rightarrow> Inl (ErrText (''mountpoint for '' @ sub @ '' not found''))))"

definition MS_BIND_REC :: int where "MS_BIND_REC = 4096 + 16384"

fun cgroup_binds :: "bool \<Rightarrow> (string \<times> string) list \<Rightarrow> mount \<Rightarrow> cg_mount list \<Rightarrow> (go_err, mount list) res" where
  "cgroup_binds unified cgs m [] = Inr []"
| "cgroup_binds unified cgs m (mm # mms) =
    res_bind (GetOwnCgroup unified mm cgs) (\<lambda>dir.
    res_bind (Rel (cm_Root mm) dir) (\<lambda>relDir.
    res_map (\<lambda>bs. \<lparr>m_Source = Join [cm_Mountpoint mm, relDir],
        m_Destination = Join [m_Destination m, Base (cm_Mountpoint mm)], m_Device = ''bind'',
        m_Flags = or MS_BIND_REC (m_Flags m), m_PropagationFlags = m_PropagationFlags m,
        m_Data = [], m_Relabel = [], m_Extensions = 0\<rparr> # bs)
      (cgroup_binds unified cgs m mms)))"

definition getCgroupMounts :: "('w, 'z) criu_sys_scheme \<Rightarrow> mount \<Rightarrow> 'w \<Rightarrow> (go_err, mount list) res" where
  "getCgroupMounts s m w =
    res_bind (cr_GetCgroupMounts s w) (\<lambda>mounts.
    res_bind (cr_ParseCgroupFile s ''/proc/self/cgroup'' w) (\<lambda>cgs.
      cgroup_binds (cr_Unified s) cgs m mounts))"

text \<open>The loop over the mounts of the configuration, the same in a checkpoint and a restore but for the function that
  adds a mount\<close>

fun mount_loop :: "('w, 'z) criu_sys_scheme \<Rightarrow> (mount \<Rightarrow> (string \<times> string) list \<Rightarrow> (string \<times> string) list) \<Rightarrow> bool \<Rightarrow>
  mount list \<Rightarrow> (string \<times> string) list \<Rightarrow> ((string \<times> string) list, 'w) cr" where
  "mount_loop s add hasCgroupns [] ext = cr_return ext"
| "mount_loop s add hasCgroupns (m # ms) ext =
    (if m_Device m = ''bind'' then mount_loop s add hasCgroupns ms (add m ext)
     else if m_Device m = ''cgroup'' \<and> \<not> (cr_Unified s \<or> hasCgroupns) then
       cr_bind (cr_ask (getCgroupMounts s m)) (\<lambda>binds. mount_loop s add hasCgroupns ms (fold add binds ext))
     else mount_loop s add hasCgroupns ms ext)"

text \<open>The mount a device node or \<^verbatim>\<open>/dev/null\<close> counts as\<close>

definition node_mount :: "string \<Rightarrow> mount" where
  "node_mount path = \<lparr>m_Source = path, m_Destination = path, m_Device = [], m_Flags = 0, m_PropagationFlags = [],
    m_Data = [], m_Relabel = [], m_Extensions = 0\<rparr>"

definition restore_null_mount :: "config \<Rightarrow> (string \<times> string) list \<Rightarrow> (string \<times> string) list" where
  "restore_null_mount cf ext =
    (if c_MaskPaths cf \<noteq> [] then addCriuRestoreMount (c_Rootfs cf) (node_mount ''/dev/null'') ext else ext)"

section \<open>Mount points for a restore\<close>

definition validProcMounts :: "string list" where
  "validProcMounts = [''/proc/cpuinfo'', ''/proc/diskstats'', ''/proc/meminfo'', ''/proc/stat'', ''/proc/swaps'',
    ''/proc/uptime'', ''/proc/loadavg'', ''/proc/slabinfo'', ''/proc/net/dev'']"

fun valid_proc :: "string \<Rightarrow> string \<Rightarrow> string list \<Rightarrow> (go_err, bool) res" where
  "valid_proc rootfs dest [] = Inr False"
| "valid_proc rootfs dest (v # vs) =
    res_bind (Rel (Join [rootfs, v]) dest) (\<lambda>path. if path = ''.'' then Inr True else valid_proc rootfs dest vs)"

definition checkProcMount :: "('w, 'z) criu_sys_scheme \<Rightarrow> string \<Rightarrow> string \<Rightarrow> string \<Rightarrow> 'w \<Rightarrow> (go_err, unit) res" where
  "checkProcMount s rootfs dest source w =
    res_bind (Rel (Join [rootfs, ''/proc'']) dest) (\<lambda>path.
      if has_prefix path ''..'' then Inr ()
      else if path = ''.'' then
        (if source = [] then Inr ()
         else res_bind (cr_isProc s source w) (\<lambda>isproc.
           if isproc then Inr () else Inl (ErrText (dest @ '' cannot be mounted because it is not of type proc''))))
      else res_bind (valid_proc rootfs dest validProcMounts) (\<lambda>ok.
        if ok then Inr () else Inl (ErrText (dest @ '' cannot be mounted because it is inside /proc''))))"

text \<open>The functions below change the destination of the mount they are given; the changed mount is part of the
  result also when they fail.\<close>

definition prepareBindMount :: "('w, 'z) criu_sys_scheme \<Rightarrow> string \<Rightarrow> mount \<Rightarrow> 'w \<Rightarrow> go_err option \<times> mount \<times> 'w" where
  "prepareBindMount s rootfs m w =
    (case cr_StatDir s (m_Source m) w of
       Inl e \<Rightarrow> (Some e, m, w)
     | Inr isDir \<Rightarrow>
         (case cr_SecureJoin s rootfs (m_Destination m) w of
            Inl e \<Rightarrow> (Some e, m, w)
          | Inr dest \<Rightarrow>
              (case checkProcMount s rootfs dest (m_Source m) w of
                 Inl e \<Rightarrow> (Some e, m, w)
               | Inr _ \<Rightarrow>
                   (case cr_createIfNotExists s dest isDir w of (e, w') \<Rightarrow> (e, m\<lparr>m_Destination := dest\<rparr>, w')))))"

definition makeCriuRestoreMountpoints :: "('w, 'z) criu_sys_scheme \<Rightarrow> string \<Rightarrow> mount \<Rightarrow> 'w \<Rightarrow> go_err option \<times> mount \<times> 'w" where
  "makeCriuRestoreMountpoints s rootfs m w =
    (if m_Device m = ''cgroup'' then (None, m, w)
     else if m_Device m = ''bind'' then prepareBindMount s rootfs m w
     else case cr_SecureJoin s rootfs (m_Destination m) w of
       Inl e \<Rightarrow> (Some e, m, w)
     | Inr dest \<Rightarrow>
         (case checkProcMount s rootfs dest [] w of
            Inl e \<Rightarrow> (Some e, m, w)
          | Inr _ \<Rightarrow> (case cr_MkdirAll s dest w of (e, w') \<Rightarrow> (e, m\<lparr>m_Destination := dest\<rparr>, w'))))"

definition isPathInPrefixList :: "string \<Rightarrow> string list \<Rightarrow> bool" where
  "isPathInPrefixList path dirs = list_ex (\<lambda>p. has_prefix path (p @ ''/'')) dirs"

text \<open>The result is the error, the mounts as left behind, the destinations to unmount at the end and the world.\<close>

fun restore_mounts_loop :: "('w, 'z) criu_sys_scheme \<Rightarrow> string \<Rightarrow> string list \<Rightarrow> mount list \<Rightarrow> 'w \<Rightarrow>
  go_err option \<times> mount list \<times> string list \<times> 'w" where
  "restore_mounts_loop s rootfs tmpfs [] w = (None, [], [], w)"
| "restore_mounts_loop s rootfs tmpfs (m # ms) w =
    (if isPathInPrefixList (m_Destination m) tmpfs then
       (case restore_mounts_loop s rootfs tmpfs ms w of (e, ms', us, w') \<Rightarrow> (e, m # ms', us, w'))
     else case makeCriuRestoreMountpoints s rootfs m w of
       (Some e, m', w1) \<Rightarrow> (Some e, m' # ms, [], w1)
     | (None, m', w1) \<Rightarrow>
         if m_Device m = ''bind'' then
           (case cr_Mount s (m_Source m') (m_Destination m') w1 of
              (Some e, w2) \<Rightarrow> (Some (ErrWrap (''unable to bind mount '' @ m_Source m') e), m' # ms, [], w2)
            | (None, w2) \<Rightarrow>
                (case restore_mounts_loop s rootfs tmpfs ms w2 of (e, ms', us, w') \<Rightarrow> (e, m' # ms', m_Destination m' # us, w')))
         else (case restore_mounts_loop s rootfs tmpfs ms w1 of (e, ms', us, w') \<Rightarrow> (e, m' # ms', us, w')))"

definition tmpfs_of :: "mount list \<Rightarrow> string list" where
  "tmpfs_of ms = map m_Destination (filter (\<lambda>m. m_Device m = ''tmpfs'') ms)"

definition prepareCriuRestoreMounts :: "('w, 'z) criu_sys_scheme \<Rightarrow> (unit, 'w) cr" where
  "prepareCriuRestoreMounts s st =
    (let cf = cn_config (st_c st) in
     case restore_mounts_loop s (c_Rootfs cf) (tmpfs_of (c_Mounts cf)) (c_Mounts cf) (st_w st) of
       (e, ms', us, w') \<Rightarrow>
         (let st' = st\<lparr>st_c := (st_c st)\<lparr>cn_config := cf\<lparr>c_Mounts := ms'\<rparr>\<rparr>, st_w := fold (cr_Unmount s) us w'\<rparr> in
          case e of None \<Rightarrow> Some (Inr (), st') | Some er \<Rightarrow> Some (Inl (Plain er), st')))"

section \<open>Networks and descriptors\<close>

definition net_veths :: "network list \<Rightarrow> (string \<times> string) list" where
  "net_veths ns = map (\<lambda>n. (net_HostInterfaceName n, net_Name n)) (filter (\<lambda>n. net_Type n = ''veth'') ns)"

definition restoreNetwork :: "network list \<Rightarrow> criu_opts \<Rightarrow> rpc_opts \<Rightarrow> rpc_opts" where
  "restoreNetwork networks co opts =
    opts\<lparr>o_Veths := o_Veths opts @ net_veths networks @
      map (\<lambda>i. (vp_HostInterfaceName i, vp_ContainerInterfaceName i)) (co_VethPairs co)\<rparr>"

text \<open>Only the loopback strategy is registered; attaching and detaching it do nothing.\<close>

definition getStrategy :: "string \<Rightarrow> go_err option" where
  "getStrategy tpe = (if tpe = ''loopback'' then None else Some (ErrText (''unknown strategy type '' @ tpe)))"

fun lockNetwork :: "network list \<Rightarrow> go_err option" where
  "lockNetwork [] = None"
| "lockNetwork (n # ns) = (case getStrategy (net_Type n) of Some e \<Rightarrow> Some e | None \<Rightarrow> lockNetwork ns)"

fun unlockNetwork :: "network list \<Rightarrow> go_err option" where
  "unlockNetwork [] = None"
| "unlockNetwork (n # ns) = (case getStrategy (net_Type n) of Some e \<Rightarrow> Some e | None \<Rightarrow> unlockNetwork ns)"

definition pipe_fds :: "string list \<Rightarrow> (string \<times> int) list" where
  "pipe_fds fds = map (\<lambda>(i, s). (s, int i)) (filter (\<lambda>(i, s). str_contains s ''pipe:'') (enumerate 0 fds))"

definition IsPermission :: "go_err \<Rightarrow> bool" where
  "IsPermission e \<longleftrightarrow> e = Errno EPERM \<or> e = Errno EACCES"

fun pipe_links :: "('w, 'z) criu_sys_scheme \<Rightarrow> string \<Rightarrow> int list \<Rightarrow> 'w \<Rightarrow> (go_err, string list) res" where
  "pipe_links s dir [] w = Inr []"
| "pipe_links s dir (i # is) w =
    (case cr_Readlink s (Join [dir, Itoa i]) w of
       Inl e \<Rightarrow> if IsPermission e then res_map (\<lambda>fds. [] # fds) (pipe_links s dir is w) else Inl e
     | Inr target \<Rightarrow> res_map (\<lambda>fds. target # fds) (pipe_links s dir is w))"

definition getPipeFds :: "('w, 'z) criu_sys_scheme \<Rightarrow> int \<Rightarrow> 'w \<Rightarrow> (go_err, string list) res" where
  "getPipeFds s pid w = pipe_links s (Join [''/proc'', Itoa pid, ''/fd'']) [0, 1, 2] w"

end
