(* ===== verification/Criu_Session.thy ===== *)
theory Criu_Session
  imports Criu_Request
begin

text \<open>The conversation with CRIU, \<^verbatim>\<open>criuSwrk\<close> and \<^verbatim>\<open>criuNotifications\<close> of \<^verbatim>\<open>container_linux.go\<close>, and the two
  operations of a container that lead it, \<^verbatim>\<open>Checkpoint\<close> and \<^verbatim>\<open>Restore\<close>, with the checkpoint command of runc around the
  first. One message of CRIU is a step; the loop over the steps has no bound in the code, so it is a partial function
  that is undefined when CRIU sends notifications for ever.\<close>

section \<open>One message\<close>

text \<open>The changed request carries the cgroup roots of the restored process.\<close>

definition criuApplyCgroups :: "('w, 'z) criu_sys_scheme \<Rightarrow> int \<Rightarrow> criu_req \<Rightarrow> (criu_req, 'w) cr" where
  "criuApplyCgroups s pid req =
    (if rq_Type req \<noteq> RESTORE then cr_return req
     else
       cr_bind (cr_world (cr_Apply s pid)) (\<lambda>_.
       cr_bind (cr_gets (\<lambda>st. cn_config (st_c st))) (\<lambda>cf.
       cr_bind (\<lambda>st. case cg_Set s cf (st_w st) of
                  (None, w') \<Rightarrow> Some (Inr (), st\<lparr>st_w := w'\<rparr>)
                | (Some e, w') \<Rightarrow> Some (Inl (System e []), st\<lparr>st_w := w'\<rparr>)) (\<lambda>_.
         if cr_Unified s then cr_return req
         else cr_bind (cr_ask (cr_ParseCgroupFile s (''/proc/'' @ Itoa pid @ ''/cgroup''))) (\<lambda>paths.
           cr_return (req\<lparr>rq_Opts := map_option (\<lambda>o1. o1\<lparr>o_CgRoot := o_CgRoot o1 @ paths\<rparr>) (rq_Opts req)\<rparr>))))))"

definition set_ops :: "parent_process \<Rightarrow> (unit, 'w) cr" where
  "set_ops r st = Some (Inr (), st\<lparr>st_ops := Some r\<rparr>)"

definition set_created :: "('w, 'z) criu_sys_scheme \<Rightarrow> (unit, 'w) cr" where
  "set_created s st = Some (Inr (), st\<lparr>st_c := (st_c st)\<lparr>cn_created := cr_Now s (st_w st)\<rparr>\<rparr>)"

definition newRestoredProcess :: "('w, 'z) criu_sys_scheme \<Rightarrow> int \<Rightarrow> string list \<Rightarrow> (parent_process, 'w) cr" where
  "newRestoredProcess s pid fds =
    cr_bind (cr_ask (s_Stat s pid)) (\<lambda>stat.
      cr_return \<lparr>pp_pid = pid, pp_startTime = ps_StartTime stat, pp_fds = fds\<rparr>)"

definition checkpoint_file :: "container \<Rightarrow> string" where
  "checkpoint_file c = Join [cn_root c, ''checkpoint'']"

text \<open>\<^verbatim>\<open>proc\<close> says whether a process was given, which is the case in a restore; the code uses it without a test.\<close>

definition post_restore :: "('w, 'z) criu_sys_scheme \<Rightarrow> bool \<Rightarrow> string list \<Rightarrow> int \<Rightarrow> (unit, 'w) cr" where
  "post_restore s proc fds pid =
    cr_bind (newRestoredProcess s pid fds) (\<lambda>r.
      if \<not> proc then cr_fail NilPanic
      else
        cr_bind (set_ops r) (\<lambda>_.
        cr_bind (cr_gets (\<lambda>st. co_ImagesDirectory (st_opts st))) (\<lambda>dir.
        cr_bind (cr_act (transition s (RestoredState dir))) (\<lambda>_.
        cr_bind (set_created s) (\<lambda>_.
        cr_bind (cr_act (updateState s (Some r))) (\<lambda>_ st.
          Some (Inr (), st\<lparr>st_w := snd (s_Remove s (checkpoint_file (st_c st)) (st_w st))\<rparr>)))))))"

text \<open>An error of \<^verbatim>\<open>currentOCIState\<close> ends the notification without an error.\<close>

definition setup_namespaces :: "('w, 'z) criu_sys_scheme \<Rightarrow> int \<Rightarrow> (unit, 'w) cr" where
  "setup_namespaces s pid st =
    (case c_Hooks (cn_config (st_c st)) of
       None \<Rightarrow> Some (Inr (), st)
     | Some hooks \<Rightarrow>
         (case currentOCIState s (st_c st) (st_w st) of
            (Inl _, c1, w1) \<Rightarrow> Some (Inr (), st\<lparr>st_c := c1, st_w := w1\<rparr>)
          | (Inr os, c1, w1) \<Rightarrow>
              cr_bind (cr_act (RunHooks s 0 (hooks Prestart) (os\<lparr>oci_Pid := pid\<rparr>)))
                (\<lambda>_. cr_act (RunHooks s 0 (hooks CreateRuntime) (os\<lparr>oci_Pid := pid\<rparr>))) (st\<lparr>st_c := c1, st_w := w1\<rparr>)))"

definition orphan_pts_master :: "('w, 'z) criu_sys_scheme \<Rightarrow> bool \<Rightarrow> oob \<Rightarrow> (unit, 'w) cr" where
  "orphan_pts_master s proc ob st =
    (case ob of
       Inl e \<Rightarrow> cr_fail (Plain e) st
     | Inr [] \<Rightarrow> cr_fail NilPanic st
     | Inr (Inl e # _) \<Rightarrow> cr_fail (Plain e) st
     | Inr (Inr [] # _) \<Rightarrow> cr_fail NilPanic st
     | Inr (Inr (fd # _) # _) \<Rightarrow>
         if \<not> proc then cr_fail NilPanic st
         else cr_defer (cr_CloseFd s fd) (cr_world (cr_SendFd s fd)) st)"

definition status_ready :: "('w, 'z) criu_sys_scheme \<Rightarrow> (unit, 'w) cr" where
  "status_ready s st =
    (let fd = co_StatusFd (st_opts st) in
     if fd = -1 then Some (Inr (), st)
     else Some (Inr (), st\<lparr>st_opts := (st_opts st)\<lparr>co_StatusFd := -1\<rparr>, st_w := cr_CloseFd s fd (cr_WriteFd s fd (st_w st))\<rparr>))"

definition criuNotifications :: "('w, 'z) criu_sys_scheme \<Rightarrow> bool \<Rightarrow> string list \<Rightarrow> criu_resp \<Rightarrow> oob \<Rightarrow> (unit, 'w) cr" where
  "criuNotifications s proc fds resp ob st =
    (case rs_Notify resp of
       None \<Rightarrow> cr_fail (err_text ''invalid response'') st
     | Some (script, pid) \<Rightarrow>
         if script = ''post-dump'' then cr_world (cr_Create s (checkpoint_file (st_c st))) st
         else if script = ''network-unlock'' then
           (case unlockNetwork (c_Networks (cn_config (st_c st))) of Some e \<Rightarrow> cr_fail (Plain e) st | None \<Rightarrow> cr_return () st)
         else if script = ''network-lock'' then
           (case lockNetwork (c_Networks (cn_config (st_c st))) of Some e \<Rightarrow> cr_fail (Plain e) st | None \<Rightarrow> cr_return () st)
         else if script = ''setup-namespaces'' then setup_namespaces s pid st
         else if script = ''post-restore'' then post_restore s proc fds pid st
         else if script = ''orphan-pts-master'' then orphan_pts_master s proc ob st
         else if script = ''status-ready'' then status_ready s st
         else cr_return () st)"

text \<open>The status descriptor of the request is closed as soon as something came back.\<close>

definition close_status :: "('w, 'z) criu_sys_scheme \<Rightarrow> criu_req \<Rightarrow> 'w \<Rightarrow> criu_req \<times> 'w" where
  "close_status s req w =
    (case rq_Opts req of
       None \<Rightarrow> (req, w)
     | Some opts \<Rightarrow>
         (case o_StatusFd opts of
            None \<Rightarrow> (req, w)
          | Some fd \<Rightarrow> (req\<lparr>rq_Opts := Some (opts\<lparr>o_StatusFd := None\<rparr>)\<rparr>, cr_CloseFd s fd w)))"

definition notify_req :: criu_req where
  "notify_req = \<lparr>rq_Type = NOTIFY, rq_Opts = None, rq_Features = None, rq_NotifySuccess = True\<rparr>"

datatype step_result = StepErr cerr | StepDone criu_req | StepMore criu_req

text \<open>A response that was read: an answer to a notification is sent as a new request, which replaces the first one.\<close>

definition criu_answer :: "('w, 'z) criu_sys_scheme \<Rightarrow> bool \<Rightarrow> string list \<Rightarrow> criu_req \<Rightarrow> criu_resp \<Rightarrow> oob \<Rightarrow> 'w cst \<Rightarrow>
  step_result \<times> 'w cst" where
  "criu_answer s proc fds req resp ob st =
    (if \<not> rs_Success resp then (StepErr (err_text ''criu failed''), st)
     else if rs_Type resp = FEATURE_CHECK then (StepDone req, st\<lparr>st_features := rs_Features resp\<rparr>)
     else if rs_Type resp = NOTIFY then
       (case criuNotifications s proc fds resp ob st of
          None \<Rightarrow> (StepErr NilPanic, st)
        | Some (Inl e, st1) \<Rightarrow> (StepErr e, st1)
        | Some (Inr _, st1) \<Rightarrow>
            (case cr_Send s notify_req (st_w st1) of
               (Some e, w2) \<Rightarrow> (StepErr (Plain e), st1\<lparr>st_w := w2\<rparr>)
             | (None, w2) \<Rightarrow> (StepMore notify_req, st1\<lparr>st_w := w2\<rparr>)))
     else if rs_Type resp = RESTORE \<or> rs_Type resp = DUMP \<or> rs_Type resp = PRE_DUMP then (StepDone req, st)
     else (StepErr (err_text ''unable to parse the response''), st))"

definition criu_step :: "('w, 'z) criu_sys_scheme \<Rightarrow> bool \<Rightarrow> string list \<Rightarrow> criu_req \<Rightarrow> 'w cst \<Rightarrow> step_result \<times> 'w cst" where
  "criu_step s proc fds req st =
    (case cr_Recv s (st_w st) of (r, w1) \<Rightarrow>
     (case close_status s req w1 of (req1, w2) \<Rightarrow>
      (case r of
         ReadErr e \<Rightarrow> (StepErr (Plain e), st\<lparr>st_w := w2\<rparr>)
       | EndOfFile \<Rightarrow> (StepErr (err_text ''unexpected EOF''), st\<lparr>st_w := w2\<rparr>)
       | TooLong \<Rightarrow> (StepErr (err_text ''buffer is too small''), st\<lparr>st_w := w2\<rparr>)
       | BadMessage e \<Rightarrow> (StepErr (Plain e), st\<lparr>st_w := w2\<rparr>)
       | Msg resp ob \<Rightarrow> criu_answer s proc fds req1 resp ob (st\<lparr>st_w := w2\<rparr>))))"

section \<open>The conversation\<close>

partial_function (option) swrk_loop ::
  "('w, 'z) criu_sys_scheme \<Rightarrow> bool \<Rightarrow> string list \<Rightarrow> criu_req \<Rightarrow> 'w cst \<Rightarrow> ((cerr, criu_req) res \<times> 'w cst) option" where
  "swrk_loop s proc fds req st =
    (case criu_step s proc fds req st of
       (StepErr e, st') \<Rightarrow> Some (Inl e, st')
     | (StepDone req', st') \<Rightarrow> Some (Inr req', st')
     | (StepMore req', st') \<Rightarrow> swrk_loop s proc fds req' st')"

declare swrk_loop.simps [code]

text \<open>Waiting for CRIU; the deferred function waits again when the first wait gave no state.\<close>

definition swrk_end :: "('w, 'z) criu_sys_scheme \<Rightarrow> criu_req \<Rightarrow> (unit, 'w) cr" where
  "swrk_end s req st =
    (case cr_Wait s (st_w st) of
       (Inl e, w1) \<Rightarrow> Some (Inl (Plain e), st\<lparr>st_w := snd (cr_Wait s w1)\<rparr>)
     | (Inr success, w1) \<Rightarrow>
         if \<not> success \<and> rq_Type req \<noteq> PRE_DUMP then Some (Inl (err_text ''criu failed''), st\<lparr>st_w := w1\<rparr>)
         else Some (Inr (), st\<lparr>st_w := w1\<rparr>))"

definition swrk_talk :: "('w, 'z) criu_sys_scheme \<Rightarrow> bool \<Rightarrow> int \<Rightarrow> criu_req \<Rightarrow> (criu_req, 'w) cr" where
  "swrk_talk s proc pid req =
    cr_bind (criuApplyCgroups s pid req) (\<lambda>req1.
    cr_bind (if proc then cr_ask (getPipeFds s pid) else cr_return []) (\<lambda>fds.
    cr_bind (cr_world (cr_Send s req1)) (\<lambda>_.
      swrk_loop s proc fds req1)))"

text \<open>Making the socket pair and starting the \<^verbatim>\<open>criu swrk\<close> process is one call of the environment.\<close>

definition criuSwrk :: "('w, 'z) criu_sys_scheme \<Rightarrow> bool \<Rightarrow> criu_req \<Rightarrow> int list \<Rightarrow> (unit, 'w) cr" where
  "criuSwrk s proc req extraFiles =
    cr_bind (cr_gets (\<lambda>st. cn_criuPath (st_c st))) (\<lambda>path.
    cr_bind (cr_call (cr_Spawn s path extraFiles)) (\<lambda>pid st.
      case swrk_talk s proc pid req st of
        None \<Rightarrow> None
      | Some (Inl e, st1) \<Rightarrow> Some (Inl e, st1\<lparr>st_w := snd (cr_Wait s (st_w st1))\<rparr>)
      | Some (Inr req', st1) \<Rightarrow> swrk_end s req' st1))"

definition checkCriuFeatures :: "('w, 'z) criu_sys_scheme \<Rightarrow> rpc_opts \<Rightarrow> criu_features \<Rightarrow> (unit, 'w) cr" where
  "checkCriuFeatures s opts feat st =
    (case criuSwrk s False
            \<lparr>rq_Type = FEATURE_CHECK, rq_Opts = Some opts, rq_Features = Some feat, rq_NotifySuccess = False\<rparr> []
            (st\<lparr>st_features := None\<rparr>) of
       None \<Rightarrow> None
     | Some (Inl _, st1) \<Rightarrow> Some (Inl (err_text ''CRIU feature check failed''), st1)
     | Some (Inr _, st1) \<Rightarrow>
         (case missingFeatures feat (st_features st1) of
            Some e \<Rightarrow> Some (Inl e, st1)
          | None \<Rightarrow> Some (Inr (), st1)))"

section \<open>Checkpoint\<close>

definition mkdir_exist :: "('w, 'z) criu_sys_scheme \<Rightarrow> string \<Rightarrow> (unit, 'w) cr" where
  "mkdir_exist s dir st =
    (case cr_Mkdir s dir (st_w st) of
       (Some e, w') \<Rightarrow> if IsExist e then Some (Inr (), st\<lparr>st_w := w'\<rparr>) else Some (Inl (Plain e), st\<lparr>st_w := w'\<rparr>)
     | (None, w') \<Rightarrow> Some (Inr (), st\<lparr>st_w := w'\<rparr>))"

definition default_work_directory :: "(unit, 'w) cr" where
  "default_work_directory st =
    (if co_WorkDirectory (st_opts st) = []
     then Some (Inr (), st\<lparr>st_opts := (st_opts st)\<lparr>co_WorkDirectory := Join [cn_root (st_c st), ''criu.work'']\<rparr>\<rparr>)
     else Some (Inr (), st))"

definition dump_opts :: "container \<Rightarrow> criu_opts \<Rightarrow> int \<Rightarrow> int \<Rightarrow> int \<Rightarrow> rpc_opts" where
  "dump_opts c co imageFd workFd pid =
    \<lparr>o_ImagesDirFd = imageFd, o_WorkDirFd = workFd, o_EvasiveDevices = False, o_LogLevel = 4, o_LogFile = ''dump.log'',
     o_RstSibling = False, o_Root = c_Rootfs (cn_config c), o_ManageCgroups = True, o_NotifyScripts = True,
     o_Pid = Some pid, o_ShellJob = co_ShellJob co, o_LeaveRunning = co_LeaveRunning co,
     o_TcpEstablished = co_TcpEstablished co, o_ExtUnixSk = co_ExternalUnixConnections co, o_FileLocks = co_FileLocks co,
     o_EmptyNs = co_EmptyNs co, o_OrphanPtsMaster = True, o_AutoDedup = co_AutoDedup co, o_LazyPages = co_LazyPages co,
     o_ConfigFile = None, o_External = [], o_JoinNs = [], o_InheritFd = [], o_FreezeCgroup = None, o_Ps = None,
     o_ParentImg = None, o_TrackMem = False, o_ManageCgroupsMode = None, o_StatusFd = None, o_ExtMnt = [], o_Veths = [],
     o_CgRoot = []\<rparr>"

text \<open>The freezer of cgroup v2 is known to CRIU since 3.14.\<close>

definition freeze_cgroup :: "('w, 'z) criu_sys_scheme \<Rightarrow> rpc_opts \<Rightarrow> (rpc_opts, 'w) cr" where
  "freeze_cgroup s opts =
    cr_bind (if \<not> cr_Unified s then cr_return True else criu_at_least s 31400) (\<lambda>ok.
    cr_bind (cr_gets (\<lambda>st. cr_Path s ''freezer'' (st_w st))) (\<lambda>fcg.
      cr_return (if ok \<and> fcg \<noteq> [] then opts\<lparr>o_FreezeCgroup := Some fcg\<rparr> else opts)))"

definition optional_dump_opts :: "criu_opts \<Rightarrow> rpc_opts \<Rightarrow> rpc_opts" where
  "optional_dump_opts co opts =
    (let o1 = (if co_PageServerAddress co \<noteq> [] \<and> co_PageServerPort co \<noteq> 0
               then opts\<lparr>o_Ps := Some (co_PageServerAddress co, co_PageServerPort co)\<rparr> else opts);
         o2 = (if co_ParentImage co \<noteq> [] then o1\<lparr>o_ParentImg := Some (co_ParentImage co), o_TrackMem := True\<rparr> else o1)
     in if co_ManageCgroupsMode co \<noteq> 0 then o2\<lparr>o_ManageCgroupsMode := Some (co_ManageCgroupsMode co)\<rparr> else o2)"

definition O_WRONLY :: "32 word" where "O_WRONLY = 1"

text \<open>CRIU 3.15 tells by a notification that its page server is ready, an older one by the status descriptor.\<close>

definition lazy_status :: "('w, 'z) criu_sys_scheme \<Rightarrow> rpc_opts \<Rightarrow> (rpc_opts, 'w) cr" where
  "lazy_status s opts =
    cr_bind (cr_gets (\<lambda>st. co_StatusFd (st_opts st))) (\<lambda>fd.
      if fd = -1 then cr_return opts
      else cr_bind (\<lambda>st. case cr_FcntlInt s fd (st_w st) of
                 Inl e \<Rightarrow> Some (Inl (Plain (ErrWrap ''invalid --status-fd argument'' e)), st)
               | Inr flags \<Rightarrow>
                   if flags AND O_WRONLY = 0 then Some (Inl (err_text ''invalid --status-fd argument: not writable''), st)
                   else Some (Inr (), st)) (\<lambda>_.
           cr_bind (criu_at_least s 31500) (\<lambda>new. cr_return (if \<not> new then opts\<lparr>o_StatusFd := Some fd\<rparr> else opts))))"

definition mem_track :: criu_features where
  "mem_track = \<lparr>f_MemTrack = Some True, f_LazyPages = None\<rparr>"

definition lazy_pages :: criu_features where
  "lazy_pages = \<lparr>f_MemTrack = None, f_LazyPages = Some True\<rparr>"

definition dump_mounts :: "('w, 'z) criu_sys_scheme \<Rightarrow> config \<Rightarrow> int \<Rightarrow> ((string \<times> string) list, 'w) cr" where
  "dump_mounts s cf pid =
    cr_bind (mount_loop s (addCriuDumpMount (c_Rootfs cf)) (ns_Contains (c_Namespaces cf) NEWCGROUP) (c_Mounts cf) []) (\<lambda>e1.
    cr_bind (addMaskPaths s pid (c_MaskPaths cf) e1) (\<lambda>e2.
      cr_return (fold (\<lambda>d. addCriuDumpMount (c_Rootfs cf) (node_mount (d_Path d))) (c_Devices cf) e2)))"

definition descriptorsFilename :: string where "descriptorsFilename = ''descriptors.json''"

definition descriptors_file :: "criu_opts \<Rightarrow> string" where
  "descriptors_file co = Join [co_ImagesDirectory co, descriptorsFilename]"

text \<open>From the options on: features, the rest of the request, and the run of CRIU\<close>

definition dump_features :: "('w, 'z) criu_sys_scheme \<Rightarrow> criu_opts \<Rightarrow> rpc_opts \<Rightarrow> (rpc_opts, 'w) cr" where
  "dump_features s co opts =
    cr_bind (if co_PreDump co then checkCriuFeatures s opts mem_track else cr_return ()) (\<lambda>_.
      if co_LazyPages co then cr_bind (checkCriuFeatures s opts lazy_pages) (\<lambda>_. lazy_status s opts)
      else cr_return opts)"

definition dump_request :: "('w, 'z) criu_sys_scheme \<Rightarrow> criu_opts \<Rightarrow> parent_process \<Rightarrow> rpc_opts \<Rightarrow> (criu_req, 'w) cr" where
  "dump_request s co p opts =
    (if co_PreDump co
     then cr_return \<lparr>rq_Type = PRE_DUMP, rq_Opts = Some opts, rq_Features = None, rq_NotifySuccess = False\<rparr>
     else
       cr_bind (cr_gets (\<lambda>st. cn_config (st_c st))) (\<lambda>cf.
       cr_bind (dump_mounts s cf (pp_pid p)) (\<lambda>ext.
       cr_bind (cr_world (cr_WriteStrings s (descriptors_file co) (pp_fds p))) (\<lambda>_.
         cr_return \<lparr>rq_Type = DUMP, rq_Opts = Some (opts\<lparr>o_ExtMnt := ext\<rparr>), rq_Features = None, rq_NotifySuccess = False\<rparr>))))"

definition dump_with :: "('w, 'z) criu_sys_scheme \<Rightarrow> int \<Rightarrow> int \<Rightarrow> (unit, 'w) cr" where
  "dump_with s workFd imageFd =
    cr_bind (cr_gets st_c) (\<lambda>c.
    cr_bind (cr_gets st_opts) (\<lambda>co.
      case cn_initProcess c of
        None \<Rightarrow> cr_fail NilPanic
      | Some p \<Rightarrow>
          cr_bind (handleCheckpointingExternalNamespaces s NEWNET
            (handleCriuConfigurationFile (c_Labels (cn_config c)) (dump_opts c co imageFd workFd (pp_pid p)))) (\<lambda>o1.
          cr_bind (handleCheckpointingExternalNamespaces s NEWPID o1) (\<lambda>o2.
          cr_bind (freeze_cgroup s o2) (\<lambda>o3.
          cr_bind (dump_features s co (optional_dump_opts co o3)) (\<lambda>o4.
          cr_bind (dump_request s co p o4) (\<lambda>req.
            criuSwrk s False req [])))))))"

definition open_fd :: "('w, 'z) criu_sys_scheme \<Rightarrow> string \<Rightarrow> (int \<Rightarrow> (unit, 'w) cr) \<Rightarrow> (unit, 'w) cr" where
  "open_fd s path f = cr_bind (cr_call (cr_Open s path)) (\<lambda>fd. cr_defer (cr_CloseFd s fd) (f fd))"

definition Checkpoint :: "('w, 'z) criu_sys_scheme \<Rightarrow> (unit, 'w) cr" where
  "Checkpoint s =
    cr_bind (checkCriuVersion s 30000) (\<lambda>_.
    cr_bind (cr_gets (\<lambda>st. co_ImagesDirectory (st_opts st))) (\<lambda>dir.
      if dir = [] then cr_fail (err_text ''invalid directory to save checkpoint'')
      else
        cr_bind (mkdir_exist s dir) (\<lambda>_.
        cr_bind default_work_directory (\<lambda>_.
        cr_bind (cr_gets (\<lambda>st. co_WorkDirectory (st_opts st))) (\<lambda>work.
        cr_bind (mkdir_exist s work) (\<lambda>_.
          open_fd s work (\<lambda>workFd. open_fd s dir (\<lambda>imageFd. dump_with s workFd imageFd))))))))"

section \<open>Restore\<close>

definition restore_opts :: "criu_opts \<Rightarrow> int \<Rightarrow> int \<Rightarrow> string \<Rightarrow> rpc_opts" where
  "restore_opts co imageFd workFd root =
    \<lparr>o_ImagesDirFd = imageFd, o_WorkDirFd = workFd, o_EvasiveDevices = True, o_LogLevel = 4, o_LogFile = ''restore.log'',
     o_RstSibling = True, o_Root = root, o_ManageCgroups = True, o_NotifyScripts = True, o_Pid = None,
     o_ShellJob = co_ShellJob co, o_LeaveRunning = False, o_TcpEstablished = co_TcpEstablished co,
     o_ExtUnixSk = co_ExternalUnixConnections co, o_FileLocks = co_FileLocks co, o_EmptyNs = co_EmptyNs co,
     o_OrphanPtsMaster = True, o_AutoDedup = co_AutoDedup co, o_LazyPages = co_LazyPages co, o_ConfigFile = None,
     o_External = [], o_JoinNs = [], o_InheritFd = [], o_FreezeCgroup = None, o_Ps = None, o_ParentImg = None,
     o_TrackMem = False, o_ManageCgroupsMode = None, o_StatusFd = None, o_ExtMnt = [], o_Veths = [], o_CgRoot = []\<rparr>"

text \<open>The configuration is the one after the mount points were prepared.\<close>

definition restore_mounts :: "('w, 'z) criu_sys_scheme \<Rightarrow> config \<Rightarrow> ((string \<times> string) list, 'w) cr" where
  "restore_mounts s cf =
    cr_bind (mount_loop s (addCriuRestoreMount (c_Rootfs cf)) (ns_Contains (c_Namespaces cf) NEWCGROUP) (c_Mounts cf) []) (\<lambda>e1.
      cr_return (fold (\<lambda>d. addCriuRestoreMount (c_Rootfs cf) (node_mount (d_Path d))) (c_Devices cf) (restore_null_mount cf e1)))"

definition optional_restore_opts :: "config \<Rightarrow> criu_opts \<Rightarrow> rpc_opts \<Rightarrow> rpc_opts" where
  "optional_restore_opts cf co opts =
    (let o1 = (if co_EmptyNs co AND 0x40000000 = 0 then restoreNetwork (c_Networks cf) co opts else opts)
     in if co_ManageCgroupsMode co \<noteq> 0 then o1\<lparr>o_ManageCgroupsMode := Some (co_ManageCgroupsMode co)\<rparr> else o1)"

definition restore_request :: "('w, 'z) criu_sys_scheme \<Rightarrow> criu_opts \<Rightarrow> rpc_opts \<Rightarrow> (criu_req, 'w) cr" where
  "restore_request s co opts =
    cr_bind (prepareCriuRestoreMounts s) (\<lambda>_.
    cr_bind (cr_gets (\<lambda>st. cn_config (st_c st))) (\<lambda>cf.
    cr_bind (restore_mounts s cf) (\<lambda>ext.
    cr_bind (cr_ask (cr_ReadStrings s (descriptors_file co))) (\<lambda>fds.
      let o1 = optional_restore_opts cf co (opts\<lparr>o_ExtMnt := ext\<rparr>);
          o2 = o1\<lparr>o_InheritFd := o_InheritFd o1 @ pipe_fds fds\<rparr>
      in cr_return \<lparr>rq_Type = RESTORE, rq_Opts = Some o2, rq_Features = None, rq_NotifySuccess = False\<rparr>))))"

text \<open>The descriptors opened for CRIU are closed once it is done; an error before that leaves them open.\<close>

definition restore_with :: "('w, 'z) criu_sys_scheme \<Rightarrow> int \<Rightarrow> int \<Rightarrow> string \<Rightarrow> (unit, 'w) cr" where
  "restore_with s workFd imageFd root =
    cr_bind (cr_gets st_c) (\<lambda>c.
    cr_bind (cr_gets st_opts) (\<lambda>co.
    cr_bind (handleRestoringNamespaces s (c_Namespaces (cn_config c))
      (handleCriuConfigurationFile (c_Labels (cn_config c)) (restore_opts co imageFd workFd root)) []) (\<lambda>(opts, extraFiles).
    cr_bind (restore_request s co opts) (\<lambda>req.
      cr_defer (fold (cr_CloseFd s) extraFiles) (criuSwrk s True req extraFiles)))))"

definition restore_root :: "('w, 'z) criu_sys_scheme \<Rightarrow> (string \<Rightarrow> (unit, 'w) cr) \<Rightarrow> (unit, 'w) cr" where
  "restore_root s f =
    cr_bind (cr_gets st_c) (\<lambda>c.
      let root = Join [cn_root c, ''criu-root''] in
      cr_bind (cr_world (cr_Mkdir s root)) (\<lambda>_.
        cr_defer (\<lambda>w. snd (s_Remove s root w))
          (cr_bind (cr_ask (cr_EvalSymlinks s root)) (\<lambda>real.
           cr_bind (cr_world (cr_Mount s (c_Rootfs (cn_config c)) real)) (\<lambda>_.
             cr_defer (cr_Unmount s real) (f real))))))"

definition Restore :: "('w, 'z) criu_sys_scheme \<Rightarrow> (unit, 'w) cr" where
  "Restore s =
    cr_bind (checkCriuVersion s 30000) (\<lambda>_.
    cr_bind default_work_directory (\<lambda>_.
    cr_bind (cr_gets (\<lambda>st. co_WorkDirectory (st_opts st))) (\<lambda>work.
    cr_bind (mkdir_exist s work) (\<lambda>_.
      open_fd s work (\<lambda>workFd.
        cr_bind (cr_gets (\<lambda>st. co_ImagesDirectory (st_opts st))) (\<lambda>dir.
          if dir = [] then cr_fail (err_text ''invalid directory to restore checkpoint'')
          else open_fd s dir (\<lambda>imageFd. restore_root s (\<lambda>root. restore_with s workFd imageFd root))))))))"

section \<open>The checkpoint command\<close>

text \<open>The options are those the flags of the command give (\<^verbatim>\<open>criuOptions\<close>); what the three functions below read from the
  command line is their argument. A fatal error ends the process, so nothing that was deferred runs.\<close>

datatype cli_result = Fatal string | CliPanic go_err | CliErr cerr | CliOk

definition setPageServer :: "string \<Rightarrow> (string \<Rightarrow> (string \<times> string) option) \<Rightarrow> criu_opts \<Rightarrow> string + criu_opts" where
  "setPageServer psOpt splitHostPort co =
    (if psOpt = [] then Inr co
     else case splitHostPort psOpt of
       None \<Rightarrow> Inl ''Use --page-server ADDRESS:PORT to specify page server''
     | Some (address, port) \<Rightarrow>
         if address = [] \<or> port = [] then Inl ''Use --page-server ADDRESS:PORT to specify page server''
         else case Atoi port of
           (_, Some _) \<Rightarrow> Inl ''Invalid port number''
         | (p, None) \<Rightarrow> Inr (co\<lparr>co_PageServerAddress := address, co_PageServerPort := sint (word_of_int p :: 32 word)\<rparr>))"

definition setManageCgroupsMode :: "string \<Rightarrow> criu_opts \<Rightarrow> string + criu_opts" where
  "setManageCgroupsMode cgOpt co =
    (if cgOpt = [] then Inr co
     else if cgOpt = ''soft'' then Inr (co\<lparr>co_ManageCgroupsMode := 3\<rparr>)
     else if cgOpt = ''full'' then Inr (co\<lparr>co_ManageCgroupsMode := 4\<rparr>)
     else if cgOpt = ''strict'' then Inr (co\<lparr>co_ManageCgroupsMode := 5\<rparr>)
     else Inl ''Invalid manage cgroups mode'')"

definition namespaceMapping :: "string \<Rightarrow> 64 word option" where
  "namespaceMapping ns = (if ns = ''network'' then Some CLONE_NEWNET else None)"

fun empty_ns_mask :: "64 word \<Rightarrow> string list \<Rightarrow> (go_err, 64 word) res" where
  "empty_ns_mask nsmask [] = Inr nsmask"
| "empty_ns_mask nsmask (ns # nss) =
    (case namespaceMapping ns of
       None \<Rightarrow> Inl (ErrText (''namespace '' @ ns @ '' is not supported''))
     | Some f \<Rightarrow> empty_ns_mask (nsmask OR f) nss)"

definition setEmptyNsMask :: "string list \<Rightarrow> criu_opts \<Rightarrow> (go_err, criu_opts) res" where
  "setEmptyNsMask nss co = res_map (\<lambda>m. co\<lparr>co_EmptyNs := ucast m\<rparr>) (empty_ns_mask CLONE_NEWNET nss)"

text \<open>The flags of the command line, with what the flag package gives for each; the field \<open>cf_cwd\<close> is the answer of
  \<^verbatim>\<open>os.Getwd\<close>.\<close>

record checkpoint_flags =
  cf_cwd :: "(go_err, string) res"
  cf_imagePath :: string
  cf_workPath :: string
  cf_parentPath :: string
  cf_leaveRunning :: bool
  cf_tcpEstablished :: bool
  cf_extUnixSk :: bool
  cf_shellJob :: bool
  cf_fileLocks :: bool
  cf_preDump :: bool
  cf_autoDedup :: bool
  cf_lazyPages :: bool
  cf_statusFd :: int
  cf_pageServer :: string
  cf_cgroupsMode :: string
  cf_emptyNs :: "string list"

definition getCheckpointImagePath :: "checkpoint_flags \<Rightarrow> (cli_result, string) res" where
  "getCheckpointImagePath fl =
    (if cf_imagePath fl = []
     then (case cf_cwd fl of Inl e \<Rightarrow> Inl (CliPanic e) | Inr cwd \<Rightarrow> Inr (Join [cwd, ''checkpoint'']))
     else Inr (cf_imagePath fl))"

definition criuOptions :: "('w, 'z) criu_sys_scheme \<Rightarrow> checkpoint_flags \<Rightarrow> 'w \<Rightarrow> (cli_result, criu_opts) res \<times> 'w" where
  "criuOptions s fl w =
    (case getCheckpointImagePath fl of
       Inl r \<Rightarrow> (Inl r, w)
     | Inr imagePath \<Rightarrow>
         (case cr_MkdirAll s imagePath w of
            (Some e, w') \<Rightarrow> (Inl (Fatal ''cannot create the image directory''), w')
          | (None, w') \<Rightarrow>
              (Inr \<lparr>co_ImagesDirectory = imagePath, co_WorkDirectory = cf_workPath fl, co_ParentImage = cf_parentPath fl,
                    co_LeaveRunning = cf_leaveRunning fl, co_TcpEstablished = cf_tcpEstablished fl,
                    co_ExternalUnixConnections = cf_extUnixSk fl, co_ShellJob = cf_shellJob fl, co_FileLocks = cf_fileLocks fl,
                    co_PreDump = cf_preDump fl, co_PageServerAddress = [], co_PageServerPort = 0, co_VethPairs = [],
                    co_ManageCgroupsMode = 0, co_EmptyNs = 0, co_AutoDedup = cf_autoDedup fl,
                    co_LazyPages = cf_lazyPages fl, co_StatusFd = cf_statusFd fl\<rparr>, w')))"

definition flag_options :: "(string \<Rightarrow> (string \<times> string) option) \<Rightarrow> checkpoint_flags \<Rightarrow> criu_opts \<Rightarrow> (cli_result, criu_opts) res" where
  "flag_options split fl co =
    (case setPageServer (cf_pageServer fl) split co of
       Inl m \<Rightarrow> Inl (Fatal m)
     | Inr o1 \<Rightarrow>
         (case setManageCgroupsMode (cf_cgroupsMode fl) o1 of
            Inl m \<Rightarrow> Inl (Fatal m)
          | Inr o2 \<Rightarrow>
              (case setEmptyNsMask (cf_emptyNs fl) o2 of
                 Inl e \<Rightarrow> Inl (CliErr (Plain e))
               | Inr o3 \<Rightarrow> Inr o3)))"

definition deferred_destroy :: "('w, 'z) criu_sys_scheme \<Rightarrow> criu_opts \<Rightarrow> 'w cst \<Rightarrow> 'w cst" where
  "deferred_destroy s co st =
    (if co_LeaveRunning co \<or> co_PreDump co then st
     else case Destroy s (st_c st) (st_w st) of (_, c', w') \<Rightarrow> st\<lparr>st_c := c', st_w := w'\<rparr>)"

definition checkpointCommand :: "('w, 'z) criu_sys_scheme \<Rightarrow> (string \<Rightarrow> (string \<times> string) option) \<Rightarrow> checkpoint_flags \<Rightarrow>
  'w cst \<Rightarrow> (cli_result \<times> 'w cst) option" where
  "checkpointCommand s split fl st =
    (case Status s (st_c st) (st_w st) of
       (Inl e, c1, w1) \<Rightarrow> Some (CliErr e, st\<lparr>st_c := c1, st_w := w1\<rparr>)
     | (Inr status, c1, w1) \<Rightarrow>
         (let st1 = st\<lparr>st_c := c1, st_w := w1\<rparr> in
          if status = Created \<or> status = Stopped then
            Some (Fatal (''Container cannot be checkpointed in '' @ status_String status @ '' state''), st1)
          else case criuOptions s fl w1 of
            (Inl r, w2) \<Rightarrow> Some (r, st1\<lparr>st_w := w2\<rparr>)
          | (Inr co0, w2) \<Rightarrow>
              (let st2 = st1\<lparr>st_w := w2\<rparr> in
               case flag_options split fl co0 of
                 Inl (Fatal m) \<Rightarrow> Some (Fatal m, st2)
               | Inl r \<Rightarrow> Some (r, deferred_destroy s co0 st2)
               | Inr co \<Rightarrow>
                   (case Checkpoint s (st2\<lparr>st_opts := co\<rparr>) of
                      None \<Rightarrow> None
                    | Some (Inl e, st3) \<Rightarrow> Some (CliErr e, deferred_destroy s co st3)
                    | Some (Inr _, st3) \<Rightarrow> Some (CliOk, deferred_destroy s co st3)))))"

section \<open>Frames\<close>

text \<open>What a run does to the state, as a relation between the states before and after it: for every result, or only
  for the runs that succeed.\<close>

definition cr_rel :: "bool \<Rightarrow> ('w cst \<Rightarrow> 'w cst \<Rightarrow> bool) \<Rightarrow> ('a, 'w) cr \<Rightarrow> bool" where
  "cr_rel all R m \<longleftrightarrow> (\<forall>st r st'. m st = Some (r, st') \<longrightarrow> all \<or> is_ok r \<longrightarrow> R st st')"

lemma cr_relI: "(\<And>st r st'. m st = Some (r, st') \<Longrightarrow> all \<or> is_ok r \<Longrightarrow> R st st') \<Longrightarrow> cr_rel all R m"
  by (auto simp: cr_rel_def)

lemma cr_relD: "cr_rel all R m \<Longrightarrow> m st = Some (r, st') \<Longrightarrow> all \<or> is_ok r \<Longrightarrow> R st st'"
  by (auto simp: cr_rel_def)

lemma cr_relD_ok: "cr_rel all R m \<Longrightarrow> m st = Some (Inr a, st') \<Longrightarrow> R st st'"
  by (auto simp: cr_rel_def)

text \<open>The contract: a preorder that the code's changes of the world, of CRIU's version and features, and of the work
  directory and status descriptor keep. The lemmas give every helper of the two operations its frame.\<close>

locale cst_frame =
  fixes all :: bool and R :: "'w cst \<Rightarrow> 'w cst \<Rightarrow> bool"
  assumes refl [simp]: "R st st"
    and trans: "R st st1 \<Longrightarrow> R st1 st2 \<Longrightarrow> R st st2"
    and world [simp]: "R st (st\<lparr>st_w := w\<rparr>)"
    and version: "R st (st\<lparr>st_c := (st_c st)\<lparr>cn_criuVersion := v\<rparr>\<rparr>)"
    and features: "R st (st\<lparr>st_features := f\<rparr>)"
    and work: "R st (st\<lparr>st_opts := (st_opts st)\<lparr>co_WorkDirectory := d\<rparr>\<rparr>)"
    and status_fd: "R st (st\<lparr>st_opts := (st_opts st)\<lparr>co_StatusFd := i\<rparr>\<rparr>)"
begin

lemma after_world: "R st st1 \<Longrightarrow> R st (st1\<lparr>st_w := w\<rparr>)"
  using trans world by blast

lemma rel_bind [intro]: "cr_rel all R m \<Longrightarrow> (\<And>a. cr_rel all R (f a)) \<Longrightarrow> cr_rel all R (cr_bind m f)"
proof (rule cr_relI)
  fix st r st'
  assume m: "cr_rel all R m" and f: "\<And>a. cr_rel all R (f a)"
    and run: "cr_bind m f st = Some (r, st')" and r: "all \<or> is_ok r"
  from run consider e where "m st = Some (Inl e, st')" "r = Inl e"
    | a st1 where "m st = Some (Inr a, st1)" "f a st1 = Some (r, st')"
    by (auto simp: cr_bind_def split: option.splits sum.splits)
  then show "R st st'"
  proof cases
    case 1 then show ?thesis using cr_relD [OF m] r by auto
  next
    case 2 then show ?thesis using cr_relD [OF m 2(1)] cr_relD [OF f 2(2)] r trans by auto
  qed
qed

lemma rel_basic [intro, simp]:
  "cr_rel all R (cr_return a)" "cr_rel all R (cr_fail e)" "cr_rel all R (cr_gets g)" "cr_rel all R (cr_ask q)"
  "cr_rel all R (cr_world u)" "cr_rel all R (cr_call k)"
  by (auto simp: cr_rel_def cr_defs split: prod.splits option.splits sum.splits)

lemma rel_defer [intro]: "cr_rel all R m \<Longrightarrow> cr_rel all R (cr_defer g m)"
  by (auto simp: cr_rel_def cr_defer_def after_world)

lemma version_world [simp]: "R st (st\<lparr>st_c := (st_c st)\<lparr>cn_criuVersion := v\<rparr>, st_w := w\<rparr>)"
  using after_world [OF version] by simp

lemma rel_version [intro, simp]: "cr_rel all R (checkCriuVersion s v)"
  by (auto simp: cr_rel_def checkCriuVersion_def compareCriuVersion_def cr_defs split: prod.splits sum.splits if_splits)

lemma rel_at_least [intro, simp]: "cr_rel all R (criu_at_least s v)"
  by (auto simp: cr_rel_def criu_at_least_def checkCriuVersion_def compareCriuVersion_def cr_defs
      split: prod.splits sum.splits if_splits)

end

context cst_frame
begin

lemma rel_if [intro]: "(b \<Longrightarrow> cr_rel all R m) \<Longrightarrow> (\<not> b \<Longrightarrow> cr_rel all R n) \<Longrightarrow> cr_rel all R (if b then m else n)"
  by simp

lemma rel_supports [intro, simp]: "cr_rel all R (criuSupportsExtNS s t)"
  unfolding criuSupportsExtNS_def by auto

lemma rel_checkpoint_ns [intro, simp]: "cr_rel all R (handleCheckpointingExternalNamespaces s t opts)"
  unfolding handleCheckpointingExternalNamespaces_def by (intro rel_bind rel_if) simp_all

lemma rel_restore_ext_ns [intro, simp]: "cr_rel all R (handleRestoringExternalNamespaces s t opts extra)"
  unfolding handleRestoringExternalNamespaces_def
  by (intro rel_bind rel_if rel_supports rel_basic cr_relI) (auto split: prod.splits sum.splits)

lemma rel_restore_ns [intro, simp]: "cr_rel all R (handleRestoringNamespaces s ns opts extra)"
proof (induction ns arbitrary: opts extra)
  case (Cons n ns)
  then show ?case by (simp only: handleRestoringNamespaces.simps) (intro rel_if rel_bind, auto split: prod.splits)
qed simp

lemma rel_mask_paths [intro, simp]: "cr_rel all R (addMaskPaths s pid ps ext)"
  by (induction ps arbitrary: ext) (auto split: sum.splits)

lemma rel_mount_loop [intro, simp]: "cr_rel all R (mount_loop s add h ms ext)"
  by (induction ms arbitrary: ext) auto

lemma rel_mkdir_exist [intro, simp]: "cr_rel all R (mkdir_exist s d)"
  by (auto simp: cr_rel_def mkdir_exist_def split: prod.splits option.splits if_splits)

lemma rel_default_work [intro, simp]: "cr_rel all R default_work_directory"
  by (auto simp: cr_rel_def default_work_directory_def work split: if_splits)

lemma rel_open_fd [intro]: "(\<And>fd. cr_rel all R (f fd)) \<Longrightarrow> cr_rel all R (open_fd s p f)"
  unfolding open_fd_def by auto

lemma rel_freeze_cgroup [intro, simp]: "cr_rel all R (freeze_cgroup s opts)"
  unfolding freeze_cgroup_def by (intro rel_bind rel_if) simp_all

lemma rel_lazy_status [intro, simp]: "cr_rel all R (lazy_status s opts)"
proof -
  have "cr_rel all R (\<lambda>st. case cr_FcntlInt s fd (st_w st) of
      Inl e \<Rightarrow> Some (Inl (Plain (ErrWrap ''invalid --status-fd argument'' e)), st)
    | Inr flags \<Rightarrow>
        if flags AND O_WRONLY = 0 then Some (Inl (err_text ''invalid --status-fd argument: not writable''), st)
        else Some (Inr (), st))" for fd
    by (auto simp: cr_rel_def split: sum.splits)
  then show ?thesis unfolding lazy_status_def by (intro rel_bind rel_if) simp_all
qed

lemma rel_dump_mounts [intro, simp]: "cr_rel all R (dump_mounts s cf pid)"
  unfolding dump_mounts_def by (intro rel_bind) simp_all

lemma rel_restore_mounts [intro, simp]: "cr_rel all R (restore_mounts s cf)"
  unfolding restore_mounts_def by (intro rel_bind) simp_all

lemma rel_dump_request [intro, simp]: "cr_rel all R (dump_request s co p opts)"
  unfolding dump_request_def by (intro rel_bind rel_if) simp_all

lemma rel_status_ready: "cr_rel all R (status_ready s)"
  using after_world [OF status_fd] by (intro cr_relI) (simp add: status_ready_def Let_def split: if_splits)

lemma rel_orphan: "cr_rel all R (orphan_pts_master s proc ob)"
proof -
  have "cr_rel all R (cr_defer (cr_CloseFd s fd) (cr_world (cr_SendFd s fd)))" for fd by auto
  then show ?thesis
    unfolding orphan_pts_master_def cr_fail_def
    by (intro cr_relI) (auto dest: cr_relD split: sum.splits list.splits if_splits)
qed

lemma rel_apply_cgroups [intro, simp]: "cr_rel all R (criuApplyCgroups s pid req)"
proof -
  have "cr_rel all R (\<lambda>st. case cg_Set s cf (st_w st) of
      (None, w') \<Rightarrow> Some (Inr (), st\<lparr>st_w := w'\<rparr>) | (Some e, w') \<Rightarrow> Some (Inl (System e []), st\<lparr>st_w := w'\<rparr>))" for cf
    by (auto simp: cr_rel_def split: prod.splits option.splits)
  then show ?thesis unfolding criuApplyCgroups_def by (intro rel_bind rel_if) simp_all
qed

text \<open>The notifications that depend on the container are hypotheses; the rest of a conversation follows.\<close>

lemma rel_notifications:
  assumes "\<And>pid. cr_rel all R (setup_namespaces s pid)" and "\<And>pid. cr_rel all R (post_restore s proc fds pid)"
  shows "cr_rel all R (criuNotifications s proc fds resp ob)"
proof (cases "rs_Notify resp")
  case None
  then show ?thesis by (simp add: cr_rel_def criuNotifications_def cr_fail_def)
next
  case (Some n)
  obtain script pid where n: "n = (script, pid)" by (cases n)
  have net: "cr_rel all R (\<lambda>st. case g st of Some e \<Rightarrow> cr_fail (Plain e) st | None \<Rightarrow> cr_return () st)" for g
    by (auto simp: cr_rel_def cr_defs split: option.splits)
  have create: "cr_rel all R (\<lambda>st. cr_world (g st) st)" for g
    by (auto simp: cr_rel_def cr_world_def split: prod.splits option.splits)
  have "criuNotifications s proc fds resp ob =
    (if script = ''post-dump'' then (\<lambda>st. cr_world (cr_Create s (checkpoint_file (st_c st))) st)
     else if script = ''network-unlock'' then (\<lambda>st. case unlockNetwork (c_Networks (cn_config (st_c st))) of Some e \<Rightarrow> cr_fail (Plain e) st | None \<Rightarrow> cr_return () st)
     else if script = ''network-lock'' then (\<lambda>st. case lockNetwork (c_Networks (cn_config (st_c st))) of Some e \<Rightarrow> cr_fail (Plain e) st | None \<Rightarrow> cr_return () st)
     else if script = ''setup-namespaces'' then setup_namespaces s pid
     else if script = ''post-restore'' then post_restore s proc fds pid
     else if script = ''orphan-pts-master'' then orphan_pts_master s proc ob
     else if script = ''status-ready'' then status_ready s
     else cr_return ())"
    using Some n by (intro ext) (simp add: criuNotifications_def)
  then show ?thesis
    using assms net create rel_orphan rel_status_ready by (simp only:) (intro rel_if, simp_all)
qed

end

text \<open>Induction over the messages of a conversation that ends\<close>

lemma swrk_loop_induct:
  assumes "swrk_loop s proc fds req st = Some y"
    and "\<And>req st e st'. criu_step s proc fds req st = (StepErr e, st') \<Longrightarrow> P req st (Inl e, st')"
    and "\<And>req st req' st'. criu_step s proc fds req st = (StepDone req', st') \<Longrightarrow> P req st (Inr req', st')"
    and "\<And>req st req' st' y. criu_step s proc fds req st = (StepMore req', st') \<Longrightarrow> P req' st' y \<Longrightarrow> P req st y"
  shows "P req st y"
proof -
  have "s = s \<and> proc = proc \<and> fds = fds \<longrightarrow> P req st y"
    by (rule swrk_loop.raw_induct
        [where P = "\<lambda>s' proc' fds' req st y. s' = s \<and> proc' = proc \<and> fds' = fds \<longrightarrow> P req st y", OF _ assms(1)])
      (auto split: prod.splits step_result.splits dest: assms(2,3) intro: assms(4))
  then show ?thesis by simp
qed

context cst_frame
begin

lemma rel_answer:
  assumes "\<And>resp ob. cr_rel all R (criuNotifications s proc fds resp ob)"
    and "criu_answer s proc fds req resp ob st = (x, st')" and "all \<or> (\<forall>e. x \<noteq> StepErr e)"
  shows "R st st'"
proof (cases "rs_Success resp \<and> rs_Type resp = NOTIFY")
  case True
  show ?thesis
  proof (cases "criuNotifications s proc fds resp ob st")
    case None
    then show ?thesis using assms(2) True by (simp add: criu_answer_def)
  next
    case (Some y)
    obtain r st1 where y: "y = (r, st1)" by (cases y)
    then have run: "criuNotifications s proc fds resp ob st = Some (r, st1)" using Some by simp
    have "all \<or> is_ok r" using assms(2,3) run True by (cases r) (auto simp: criu_answer_def)
    then have "R st st1" using cr_relD [OF assms(1) run] by simp
    then show ?thesis
      using assms(2) run True by (cases r) (auto simp: criu_answer_def after_world split: prod.splits option.splits)
  qed
next
  case False
  then show ?thesis using assms(2) by (auto simp: criu_answer_def features split: if_splits)
qed

lemma rel_step:
  assumes "\<And>resp ob. cr_rel all R (criuNotifications s proc fds resp ob)"
    and "criu_step s proc fds req st = (x, st')" and "all \<or> (\<forall>e. x \<noteq> StepErr e)"
  shows "R st st'"
proof -
  obtain r w1 where recv: "cr_Recv s (st_w st) = (r, w1)" by (cases "cr_Recv s (st_w st)")
  obtain req1 w2 where close: "close_status s req w1 = (req1, w2)" by (cases "close_status s req w1")
  show ?thesis
  proof (cases r)
    case (Msg resp ob)
    then have "criu_answer s proc fds req1 resp ob (st\<lparr>st_w := w2\<rparr>) = (x, st')"
      using assms(2) recv close by (simp add: criu_step_def)
    then show ?thesis using rel_answer [OF assms(1) _ assms(3)] trans world by blast
  qed (use assms(2) recv close in \<open>auto simp: criu_step_def\<close>)
qed

lemma rel_loop:
  assumes "\<And>resp ob. cr_rel all R (criuNotifications s proc fds resp ob)"
  shows "cr_rel all R (swrk_loop s proc fds req)"
proof -
  note one = rel_step [OF assms]
  have "all \<or> is_ok (fst y) \<longrightarrow> R st (snd y)" if "swrk_loop s proc fds req st = Some y" for st y
    using that by (rule swrk_loop_induct) (auto dest: one intro: trans)
  then show ?thesis by (intro cr_relI) fastforce
qed

lemma rel_swrk:
  assumes "\<And>fds resp ob. cr_rel all R (criuNotifications s proc fds resp ob)"
  shows "cr_rel all R (criuSwrk s proc req extra)"
proof -
  have talk: "cr_rel all R (swrk_talk s proc pid req)" for pid
    unfolding swrk_talk_def by (intro rel_bind rel_if rel_apply_cgroups rel_basic rel_loop assms)
  have "cr_rel all R (swrk_end s req)" for req
    by (auto simp: cr_rel_def swrk_end_def split: prod.splits sum.splits if_splits)
  note fin = this [THEN cr_relD]
  have "cr_rel all R (\<lambda>st. case swrk_talk s proc pid req st of
        None \<Rightarrow> None
      | Some (Inl e, st1) \<Rightarrow> Some (Inl e, st1\<lparr>st_w := snd (cr_Wait s (st_w st1))\<rparr>)
      | Some (Inr req', st1) \<Rightarrow> swrk_end s req' st1)" for pid
  proof (rule cr_relI)
    fix st r st'
    assume run: "(case swrk_talk s proc pid req st of
        None \<Rightarrow> None
      | Some (Inl e, st1) \<Rightarrow> Some (Inl e, st1\<lparr>st_w := snd (cr_Wait s (st_w st1))\<rparr>)
      | Some (Inr req', st1) \<Rightarrow> swrk_end s req' st1) = Some (r, st')" and r: "all \<or> is_ok r"
    then obtain q st1 where q: "swrk_talk s proc pid req st = Some (q, st1)" by (auto split: option.splits)
    show "R st st'"
    proof (cases q)
      case (Inl e)
      then show ?thesis using run r q cr_relD [OF talk q] after_world by auto
    next
      case (Inr req')
      then show ?thesis using run r q cr_relD [OF talk q] fin trans by auto
    qed
  qed
  then show ?thesis unfolding criuSwrk_def by (intro rel_bind rel_basic)
qed

lemma rel_features:
  assumes "\<And>fds resp ob. cr_rel all R (criuNotifications s False fds resp ob)" and all
  shows "cr_rel all R (checkCriuFeatures s opts feat)"
proof (rule cr_relI)
  fix st r st' assume "checkCriuFeatures s opts feat st = Some (r, st')"
  then obtain q where "criuSwrk s False \<lparr>rq_Type = FEATURE_CHECK, rq_Opts = Some opts, rq_Features = Some feat,
      rq_NotifySuccess = False\<rparr> [] (st\<lparr>st_features := None\<rparr>) = Some (q, st')"
    by (auto simp: checkCriuFeatures_def split: option.splits sum.splits)
  then show "R st st'" using cr_relD [OF rel_swrk [OF assms(1)]] assms(2) features trans by blast
qed

lemma rel_checkpoint:
  assumes "\<And>fds resp ob. cr_rel all R (criuNotifications s False fds resp ob)" and all
  shows "cr_rel all R (Checkpoint s)"
proof -
  have feats: "cr_rel all R (dump_features s co opts)" for co opts
    unfolding dump_features_def by (intro rel_bind rel_if rel_features assms rel_basic rel_lazy_status)
  have dump: "cr_rel all R (dump_with s workFd imageFd)" for workFd imageFd
  proof -
    have "cr_rel all R (case p of None \<Rightarrow> cr_fail NilPanic | Some q \<Rightarrow> f q)" if "\<And>q. cr_rel all R (f q)"
      for p and f :: "parent_process \<Rightarrow> (unit, 'w) cr"
      using that by (cases p) auto
    then show ?thesis
      unfolding dump_with_def
      by (intro rel_bind) (simp_all add: feats rel_swrk [OF assms(1)] rel_bind)
  qed
  show ?thesis unfolding Checkpoint_def by (intro rel_bind rel_if rel_open_fd dump) simp_all
qed

lemma rel_restore:
  assumes "\<And>fds resp ob. cr_rel all R (criuNotifications s True fds resp ob)"
    and "cr_rel all R (prepareCriuRestoreMounts s)"
  shows "cr_rel all R (Restore s)"
proof -
  have req: "cr_rel all R (restore_request s co opts)" for co opts
    unfolding restore_request_def Let_def by (intro rel_bind assms(2) rel_basic rel_restore_mounts)
  have "cr_rel all R (restore_with s workFd imageFd root)" for workFd imageFd root
    unfolding restore_with_def
    by (intro rel_bind rel_basic rel_restore_ns)
      (auto intro!: rel_bind req rel_defer rel_swrk assms(1) split: prod.splits)
  then have "cr_rel all R (restore_root s (\<lambda>root. restore_with s workFd imageFd root))" for workFd imageFd
    unfolding restore_root_def Let_def by (intro rel_bind rel_defer rel_basic)
  then show ?thesis unfolding Restore_def by (intro rel_bind rel_if rel_open_fd) simp_all
qed

end

end
