(* ===== verification/Criu_Migration.thy ===== *)
theory Criu_Migration
  imports Criu_Session
begin

text \<open>What checkpointing and restoring a container guarantee: what a checkpoint leaves of the container object, what a
  restore that succeeds has produced, that the mounts a dump names are supplied by a restore of the same
  configuration, when the conversation with CRIU ends and what its exit status means, and what the checkpoint command
  may destroy.\<close>

section \<open>Checkpointing keeps the container\<close>

definition same_container :: "'w cst \<Rightarrow> 'w cst \<Rightarrow> bool" where
  "same_container st st' \<longleftrightarrow> st_ops st' = st_ops st \<and>
    (\<exists>v x. st_c st' = (st_c st)\<lparr>cn_criuVersion := v, cn_state := x\<rparr> \<and>
       (c_Hooks (cn_config (st_c st)) = None \<longrightarrow> x = cn_state (st_c st)))"

lemma same_containerI:
  "st_ops st' = st_ops st \<Longrightarrow> st_c st' = (st_c st)\<lparr>cn_criuVersion := v\<rparr> \<Longrightarrow> same_container st st'"
  unfolding same_container_def by (intro conjI exI [of _ v] exI [of _ "cn_state (st_c st)"]) (cases "st_c st", auto)

lemma same_container_refl: "st_ops st' = st_ops st \<Longrightarrow> st_c st' = st_c st \<Longrightarrow> same_container st st'"
  by (rule same_containerI [of _ _ "cn_criuVersion (st_c st)"]) (cases "st_c st", auto)

lemma same_containerE:
  assumes "same_container st st'"
  obtains v x where "st_ops st' = st_ops st" "st_c st' = (st_c st)\<lparr>cn_criuVersion := v, cn_state := x\<rparr>"
    "c_Hooks (cn_config (st_c st)) = None \<longrightarrow> x = cn_state (st_c st)"
  using assms unfolding same_container_def by (elim exE conjE) (rule that)

interpretation dump: cst_frame True same_container
proof
  fix st st1 st2 :: "'w cst"
  assume "same_container st st1" and "same_container st1 st2"
  then show "same_container st st2"
  proof (elim same_containerE)
    fix v x v' x'
    assume 1: "st_ops st1 = st_ops st" "st_c st1 = (st_c st)\<lparr>cn_criuVersion := v, cn_state := x\<rparr>"
        "c_Hooks (cn_config (st_c st)) = None \<longrightarrow> x = cn_state (st_c st)"
      and 2: "st_ops st2 = st_ops st1" "st_c st2 = (st_c st1)\<lparr>cn_criuVersion := v', cn_state := x'\<rparr>"
        "c_Hooks (cn_config (st_c st1)) = None \<longrightarrow> x' = cn_state (st_c st1)"
    show ?thesis
      unfolding same_container_def using 1 2 by (intro conjI exI [of _ v'] exI [of _ x']) simp_all
  qed
next
  fix st :: "'w cst" and v
  show "same_container st (st\<lparr>st_c := (st_c st)\<lparr>cn_criuVersion := v\<rparr>\<rparr>)" by (rule same_containerI) simp_all
qed (rule same_container_refl; simp)+

lemma run_hooks_frame:
  assumes "cr_act (RunHooks s i hs os) st = Some (r, st')"
  shows "st_c st' = st_c st \<and> st_ops st' = st_ops st \<and> st_opts st' = st_opts st"
  using assms RunHooks_frame [of s i hs os "st_c st" "st_w st"] by (auto simp: cr_act_def split: prod.splits)

lemma setup_namespaces_hooks:
  assumes "setup_namespaces s pid st = Some (r, st')" and "c_Hooks (cn_config (st_c st)) = Some hooks"
  obtains x q where "currentOCIState s (st_c st) (st_w st) = (q, (st_c st)\<lparr>cn_state := x\<rparr>, st_w st)"
    "st_c st' = (st_c st)\<lparr>cn_state := x\<rparr>" "st_ops st' = st_ops st" "st_opts st' = st_opts st"
proof -
  obtain x q where q: "currentOCIState s (st_c st) (st_w st) = (q, (st_c st)\<lparr>cn_state := x\<rparr>, st_w st)"
    using currentOCIState_frame [of s "st_c st" "st_w st"] by blast
  have "st_c st' = (st_c st)\<lparr>cn_state := x\<rparr> \<and> st_ops st' = st_ops st \<and> st_opts st' = st_opts st"
    using assms q by (auto simp: setup_namespaces_def cr_bind_def dest!: run_hooks_frame split: sum.splits option.splits)
  then show thesis using that q by blast
qed

lemma dump_setup_namespaces: "cr_rel True same_container (setup_namespaces s pid)"
proof (rule cr_relI)
  fix st r st' assume run: "setup_namespaces s pid st = Some (r, st')"
  show "same_container st st'"
  proof (cases "c_Hooks (cn_config (st_c st))")
    case None
    then show ?thesis using run by (simp add: setup_namespaces_def)
  next
    case (Some hooks)
    then obtain x where x: "st_c st' = (st_c st)\<lparr>cn_state := x\<rparr>" "st_ops st' = st_ops st"
      using setup_namespaces_hooks [OF run] by metis
    have "st_c st' = (st_c st)\<lparr>cn_criuVersion := cn_criuVersion (st_c st), cn_state := x\<rparr>"
      using x(1) by (cases "st_c st") simp
    with Some x(2) show ?thesis
      unfolding same_container_def by (intro conjI exI [of _ "cn_criuVersion (st_c st)"] exI [of _ x]) simp_all
  qed
qed

lemma dump_post_restore: "cr_rel True same_container (post_restore s False fds pid)"
  unfolding post_restore_def newRestoredProcess_def by (intro dump.rel_bind) simp_all

lemma dump_notifications: "cr_rel True same_container (criuNotifications s False fds resp ob)"
  by (rule dump.rel_notifications [OF dump_setup_namespaces dump_post_restore])

text \<open>C1: A checkpoint never changes what the container is: whatever CRIU answers and whether the checkpoint succeeds,
  the identity, root, configuration and init process of the container object stay, and without hooks its state too;
  only the version of CRIU is noted.\<close>

theorem checkpoint_keeps_container:
  assumes "Checkpoint s st = Some (r, st')"
  shows "\<exists>v x. st_c st' = (st_c st)\<lparr>cn_criuVersion := v, cn_state := x\<rparr> \<and>
    (c_Hooks (cn_config (st_c st)) = None \<longrightarrow> x = cn_state (st_c st))"
  using cr_relD [OF dump.rel_checkpoint [OF dump_notifications] assms] by (simp add: same_container_def)

section \<open>What a restore produces\<close>

text \<open>A container that was just created, and one whose process CRIU has restored\<close>

definition fresh :: "'w cst \<Rightarrow> bool" where
  "fresh st \<longleftrightarrow> gone (st_c st) \<and> st_ops st = None"

definition restored :: "string \<Rightarrow> 'w cst \<Rightarrow> bool" where
  "restored dir st \<longleftrightarrow> cn_state (st_c st) = RestoredState dir \<and> (\<exists>p. cn_initProcess (st_c st) = Some p \<and> st_ops st = Some p)"

definition restore_inv :: "string \<Rightarrow> 'w cst \<Rightarrow> bool" where
  "restore_inv dir st \<longleftrightarrow> co_ImagesDirectory (st_opts st) = dir \<and> (fresh st \<or> restored dir st)"

definition keeps_inv :: "string \<Rightarrow> 'w cst \<Rightarrow> 'w cst \<Rightarrow> bool" where
  "keeps_inv dir st st' \<longleftrightarrow> (restore_inv dir st \<longrightarrow> restore_inv dir st')"

lemma keeps_invI:
  "co_ImagesDirectory (st_opts st') = co_ImagesDirectory (st_opts st) \<Longrightarrow> st_ops st' = st_ops st \<Longrightarrow>
   cn_state (st_c st') = cn_state (st_c st) \<Longrightarrow> cn_initProcess (st_c st') = cn_initProcess (st_c st) \<Longrightarrow> keeps_inv dir st st'"
  by (simp add: keeps_inv_def restore_inv_def fresh_def restored_def gone_def)

interpretation rst: cst_frame False "keeps_inv dir" for dir
proof
  fix st st1 st2 :: "'w cst"
  assume "keeps_inv dir st st1" and "keeps_inv dir st1 st2"
  then show "keeps_inv dir st st2" by (simp add: keeps_inv_def)
qed (rule keeps_invI; simp)+

lemma currentOCIState_fixed:
  assumes "gone c \<or> cn_state c = RestoredState d" and "currentOCIState s c w = (q, c', w')"
  shows "cn_state c' = cn_state c"
proof -
  have oci: "refreshState s c w = (r, c1, w1) \<Longrightarrow> cn_state c' = cn_state c1" for r c1 w1
    using assms(2) by (auto simp: currentOCIState_def currentStatus_def act_bind_def split: sum.splits prod.splits)
  obtain r c1 w1 where r: "refreshState s c w = (r, c1, w1)" by (cases "refreshState s c w")
  have "cn_state c1 = cn_state c"
  proof (cases "gone c")
    case True
    then show ?thesis using keepsD [OF keeps_gone_refresh True r] by (simp add: gone_def)
  next
    case False
    then show ?thesis
      using assms(1) r by (auto simp: refreshState_def transition_def split: sum.splits bool.splits status.splits)
  qed
  then show ?thesis using oci [OF r] by simp
qed

lemma rst_setup_namespaces: "cr_rel False (keeps_inv dir) (setup_namespaces s pid)"
proof (rule cr_relI)
  fix st r st' assume run: "setup_namespaces s pid st = Some (r, st')"
  show "keeps_inv dir st st'"
  proof (cases "c_Hooks (cn_config (st_c st))")
    case None
    then show ?thesis using run by (simp add: setup_namespaces_def)
  next
    case (Some hooks)
    then obtain x q where q: "currentOCIState s (st_c st) (st_w st) = (q, (st_c st)\<lparr>cn_state := x\<rparr>, st_w st)"
      and st': "st_c st' = (st_c st)\<lparr>cn_state := x\<rparr>" "st_ops st' = st_ops st" "st_opts st' = st_opts st"
      using setup_namespaces_hooks [OF run] by metis
    have "x = cn_state (st_c st)" if "restore_inv dir st"
      using that currentOCIState_fixed [OF _ q, of dir] by (auto simp: restore_inv_def fresh_def restored_def)
    then show ?thesis
      using st' by (auto simp: keeps_inv_def restore_inv_def fresh_def restored_def gone_def)
  qed
qed

text \<open>The outcome of the notification that the process is restored: it succeeds from a state that accepts the
  transition, and the saved state is the one of the restored process.\<close>

lemma post_restore_ok:
  assumes "post_restore s True fds pid st = Some (Inr (), st')"
  obtains p c1 where "pp_pid p = pid" "pp_fds p = fds" "st_ops st' = Some p" "st_opts st' = st_opts st"
    "transition s (RestoredState (co_ImagesDirectory (st_opts st))) (st_c st) (st_w st) = (Inr (), c1, st_w st)"
    "st_c st' = c1\<lparr>cn_created := cr_Now s (st_w st), cn_initProcess := Some p\<rparr>"
proof -
  let ?p = "\<lambda>x. \<lparr>pp_pid = pid, pp_startTime = ps_StartTime x, pp_fds = fds\<rparr>"
  from assms obtain x c1 w1 where "s_Stat s pid (st_w st) = Inr x" and t: "transition s (RestoredState (co_ImagesDirectory (st_opts st))) (st_c st) (st_w st) = (Inr (), c1, w1)"
    and u: "st_ops st' = Some (?p x)" "st_opts st' = st_opts st"
      "st_c st' = c1\<lparr>cn_created := cr_Now s w1, cn_initProcess := Some (?p x)\<rparr>"
    by (auto simp: post_restore_def newRestoredProcess_def set_ops_def set_created_def updateState_def cr_defs Let_def
        split: sum.splits prod.splits option.splits)
  have "w1 = st_w st" using t transition_frame [of s _ "st_c st" "st_w st"] by (metis prod.inject)
  then show thesis using that [of "?p x" c1] t u by simp
qed

lemma rst_post_restore: "cr_rel False (keeps_inv dir) (post_restore s True fds pid)"
proof (rule cr_relI)
  fix st r st' assume "post_restore s True fds pid st = Some (r, st')" and "False \<or> is_ok r"
  then have "post_restore s True fds pid st = Some (Inr (), st')" by (auto simp: is_ok_iff)
  then obtain p c1 where st': "st_ops st' = Some p" "st_opts st' = st_opts st"
      "st_c st' = c1\<lparr>cn_created := cr_Now s (st_w st), cn_initProcess := Some p\<rparr>"
    and t: "transition s (RestoredState (co_ImagesDirectory (st_opts st))) (st_c st) (st_w st) = (Inr (), c1, st_w st)"
    by (rule post_restore_ok)
  have "cn_state c1 = RestoredState dir" if "restore_inv dir st"
    using that t by (auto simp: restore_inv_def fresh_def restored_def gone_def transition_def)
  then show "keeps_inv dir st st'"
    using st' by (auto simp: keeps_inv_def restore_inv_def restored_def)
qed

lemma rst_prepare: "cr_rel False (keeps_inv dir) (prepareCriuRestoreMounts s)"
proof (rule cr_relI)
  fix st r st' assume "prepareCriuRestoreMounts s st = Some (r, st')"
  then show "keeps_inv dir st st'"
    by (intro keeps_invI) (auto simp: prepareCriuRestoreMounts_def Let_def split: prod.splits option.splits)
qed


section \<open>The mounts of a dump and of a restore\<close>

definition bind_mounts :: "mount list \<Rightarrow> mount list" where
  "bind_mounts ms = filter (\<lambda>m. m_Device m = ''bind'') ms"

text \<open>Where cgroup mounts are real mounts, only the bind mounts are external.\<close>

lemma mount_loop_binds:
  "cr_Unified s \<or> h \<Longrightarrow> mount_loop s add h ms ext = cr_return (fold add (bind_mounts ms) ext)"
  by (induction ms arbitrary: ext) (auto simp: bind_mounts_def)

lemma fold_dump: "fold (\<lambda>x. addCriuDumpMount r (f x)) xs ext = ext @ map (\<lambda>x. (criu_mount_dest r (f x), criu_mount_dest r (f x))) xs"
  by (induction xs arbitrary: ext) (simp_all add: addCriuDumpMount_def)

lemma fold_restore: "fold (\<lambda>x. addCriuRestoreMount r (f x)) xs ext = ext @ map (\<lambda>x. (criu_mount_dest r (f x), m_Source (f x))) xs"
  by (induction xs arbitrary: ext) (simp_all add: addCriuRestoreMount_def)

lemmas fold_mounts = fold_dump [of r "\<lambda>m. m"] fold_restore [of r "\<lambda>m. m"] for r

lemma addMaskPaths_ok:
  "addMaskPaths s pid ps ext st = Some (Inr e, st') \<Longrightarrow> set e \<subseteq> set ext \<union> (\<lambda>p. (p, ''/dev/null'')) ` set ps"
proof (induction ps arbitrary: ext)
  case (Cons p ps)
  from Cons.prems obtain ext' where ext': "addMaskPaths s pid ps ext' st = Some (Inr e, st')" "ext' = ext \<or> ext' = ext @ [(p, ''/dev/null'')]"
    by (auto simp: cr_defs split: sum.splits if_splits)
  then show ?case using Cons.IH [OF ext'(1)] by auto
qed (simp add: cr_return_def)

lemma dump_mounts_ok:
  assumes "dump_mounts s cf pid st = Some (Inr d, st')" and "cr_Unified s \<or> ns_Contains (c_Namespaces cf) NEWCGROUP"
    and "(k, v) \<in> set d"
  shows "(\<exists>m \<in> set (bind_mounts (c_Mounts cf)). v = criu_mount_dest (c_Rootfs cf) m) \<or> v = ''/dev/null'' \<and> c_MaskPaths cf \<noteq> [] \<or>
    (\<exists>x \<in> set (c_Devices cf). v = criu_mount_dest (c_Rootfs cf) (node_mount (d_Path x)))"
proof -
  from assms(1) obtain e where
    e: "addMaskPaths s pid (c_MaskPaths cf) (map (\<lambda>m. (criu_mount_dest (c_Rootfs cf) m, criu_mount_dest (c_Rootfs cf) m)) (bind_mounts (c_Mounts cf))) st = Some (Inr e, st')"
    and d: "d = e @ map (\<lambda>x. (criu_mount_dest (c_Rootfs cf) (node_mount (d_Path x)), criu_mount_dest (c_Rootfs cf) (node_mount (d_Path x)))) (c_Devices cf)"
    by (auto simp: dump_mounts_def mount_loop_binds [OF assms(2)] fold_mounts fold_dump cr_bind_def [of "mount_loop _ _ _ _ _"] cr_bind_def
        cr_return_def split: option.splits sum.splits prod.splits)
  show ?thesis using addMaskPaths_ok [OF e] assms(3) d by auto
qed

lemma restore_mounts_ok:
  assumes "restore_mounts s cf st = Some (Inr r, st')" and "cr_Unified s \<or> ns_Contains (c_Namespaces cf) NEWCGROUP"
  shows "(\<forall>m \<in> set (bind_mounts (c_Mounts cf)). (criu_mount_dest (c_Rootfs cf) m, m_Source m) \<in> set r) \<and>
    (c_MaskPaths cf \<noteq> [] \<longrightarrow> criu_mount_dest (c_Rootfs cf) (node_mount ''/dev/null'') \<in> fst ` set r) \<and>
    (\<forall>x \<in> set (c_Devices cf). (criu_mount_dest (c_Rootfs cf) (node_mount (d_Path x)), d_Path x) \<in> set r)"
  using assms(1)
  by (auto simp: restore_mounts_def mount_loop_binds [OF assms(2)] fold_mounts fold_restore restore_null_mount_def
      addCriuRestoreMount_def cr_bind_def cr_return_def node_mount_def intro!: rev_image_eqI)

text \<open>Preparing the mount points resolves the destinations below the root; the bind mounts stay bind mounts of the same
  sources.\<close>

lemma makeCriuRestoreMountpoints_ok:
  assumes "makeCriuRestoreMountpoints s rootfs m w = (None, m', w')"
  shows "m' = m \<or> (\<exists>d. cr_SecureJoin s rootfs (m_Destination m) w = Inr d \<and> m' = m\<lparr>m_Destination := d\<rparr>)"
  using assms by (auto simp: makeCriuRestoreMountpoints_def prepareBindMount_def split: if_splits sum.splits prod.splits)

lemma restore_mounts_loop_ok:
  assumes "restore_mounts_loop s rootfs tmpfs ms w = (None, ms', us, w')"
    and "\<And>m w d. m \<in> set ms \<Longrightarrow> cr_SecureJoin s rootfs (m_Destination m) w = Inr d \<Longrightarrow> d = rootfs @ m_Destination m"
  shows "list_all2 (\<lambda>m m'. m' = m \<or> m' = m\<lparr>m_Destination := rootfs @ m_Destination m\<rparr>) ms ms'"
  using assms
proof (induction ms arbitrary: w ms' us w')
  case (Cons m ms)
  have ok: "m' = m \<or> m' = m\<lparr>m_Destination := rootfs @ m_Destination m\<rparr>"
    if "makeCriuRestoreMountpoints s rootfs m w = (None, m', v)" for m' v
    using makeCriuRestoreMountpoints_ok [OF that] Cons.prems(2) [of m w] by auto
  show ?case using Cons.prems(1) ok Cons.IH Cons.prems(2)
    by (auto split: if_splits prod.splits option.splits)
qed simp

lemma trim_prefix_append [simp]: "trim_prefix (r @ d) r = d"
  by (simp add: trim_prefix_def has_prefix_def)

lemma prepare_ok:
  assumes "prepareCriuRestoreMounts s st = Some (Inr (), st')"
    and "\<And>m w d. m \<in> set (c_Mounts (cn_config (st_c st))) \<Longrightarrow>
      cr_SecureJoin s (c_Rootfs (cn_config (st_c st))) (m_Destination m) w = Inr d \<Longrightarrow> d = c_Rootfs (cn_config (st_c st)) @ m_Destination m"
  obtains ms where "cn_config (st_c st') = (cn_config (st_c st))\<lparr>c_Mounts := ms\<rparr>"
    "list_all2 (\<lambda>m m'. m' = m \<or> m' = m\<lparr>m_Destination := c_Rootfs (cn_config (st_c st)) @ m_Destination m\<rparr>)
       (c_Mounts (cn_config (st_c st))) ms"
proof -
  from assms(1) obtain ms us w' where
    loop: "restore_mounts_loop s (c_Rootfs (cn_config (st_c st))) (tmpfs_of (c_Mounts (cn_config (st_c st))))
      (c_Mounts (cn_config (st_c st))) (st_w st) = (None, ms, us, w')"
    and cf: "cn_config (st_c st') = (cn_config (st_c st))\<lparr>c_Mounts := ms\<rparr>"
    by (auto simp: prepareCriuRestoreMounts_def Let_def split: prod.splits option.splits)
  show thesis using that [OF cf] restore_mounts_loop_ok [OF loop assms(2)] by simp
qed


section \<open>The end of a conversation\<close>

text \<open>The request and the state after a number of notifications that were all answered\<close>

fun after_notifications :: "nat \<Rightarrow> ('w, 'z) criu_sys_scheme \<Rightarrow> bool \<Rightarrow> string list \<Rightarrow> criu_req \<Rightarrow> 'w cst \<Rightarrow> (criu_req \<times> 'w cst) option" where
  "after_notifications 0 s proc fds req st = Some (req, st)"
| "after_notifications (Suc n) s proc fds req st =
    (case criu_step s proc fds req st of
       (StepMore req', st') \<Rightarrow> after_notifications n s proc fds req' st'
     | _ \<Rightarrow> None)"

lemma after_notifications_end:
  "after_notifications n s proc fds req st = None \<Longrightarrow> \<exists>y. swrk_loop s proc fds req st = Some y"
proof (induction n arbitrary: req st)
  case (Suc n)
  then show ?case by (subst swrk_loop.simps) (auto split: prod.splits step_result.splits)
qed simp


text \<open>Every notification replaces the request by its answer, so the request a conversation ends with is of the first
  request's type only when there was none.\<close>

lemma criu_step_more:
  assumes "criu_step s proc fds req st = (StepMore req', st')"
  shows "req' = notify_req"
  using assms
  by (auto simp: criu_step_def criu_answer_def split: prod.splits criu_recv.splits option.splits sum.splits if_splits)

lemma close_status_type [simp]: "rq_Type (fst (close_status s req w)) = rq_Type req"
  by (auto simp: close_status_def split: option.splits)

lemma criu_step_done:
  assumes "criu_step s proc fds req st = (StepDone req', st')"
  shows "rq_Type req' = rq_Type req"
proof -
  have "\<exists>w. req' = fst (close_status s req w)"
    using assms by (auto simp: criu_step_def criu_answer_def split: prod.splits criu_recv.splits option.splits sum.splits if_splits)
      (metis fst_conv)+
  then show ?thesis by auto
qed

lemma swrk_loop_type:
  assumes "swrk_loop s proc fds req st = Some y"
  shows "\<forall>req' st'. y = (Inr req', st') \<longrightarrow> rq_Type req' = rq_Type req \<or> rq_Type req' = NOTIFY"
  using assms
  by (rule swrk_loop_induct) (auto simp: notify_req_def dest: criu_step_done criu_step_more)

text \<open>C6: CRIU is stopped by force after a pre-dump, so its exit status is ignored then; but only when it sent no
  notification. After a notification the request is no longer a pre-dump, and the same exit status makes the pre-dump
  fail.\<close>

theorem predump_fails_after_notification:
  assumes "rq_Type req = PRE_DUMP" and "cr_Wait s (st_w st2) = (Inr False, w3)"
    and "swrk_loop s proc fds req st = Some (Inr req2, st2)"
  shows "swrk_end s req2 st2 =
    (if \<exists>req1 st1. criu_step s proc fds req st = (StepMore req1, st1)
     then Some (Inl (err_text ''criu failed''), st2\<lparr>st_w := w3\<rparr>) else Some (Inr (), st2\<lparr>st_w := w3\<rparr>))"
proof (cases "criu_step s proc fds req st")
  case (Pair x st1)
  show ?thesis
  proof (cases x)
    case (StepErr e)
    then show ?thesis using assms(3) Pair by (subst (asm) swrk_loop.simps) simp
  next
    case (StepDone req1)
    then have "req1 = req2" using assms(3) Pair by (subst (asm) swrk_loop.simps) simp
    then have "rq_Type req2 = PRE_DUMP" using criu_step_done [of s proc fds req st req1 st1] Pair StepDone assms(1) by simp
    then show ?thesis using Pair StepDone assms(2) by (simp add: swrk_end_def)
  next
    case (StepMore req1)
    then have "swrk_loop s proc fds req1 st1 = Some (Inr req2, st2)" "req1 = notify_req"
      using assms(3) Pair criu_step_more by (subst (asm) swrk_loop.simps, auto)
    then have "rq_Type req2 = NOTIFY" using swrk_loop_type by (fastforce simp: notify_req_def)
    then show ?thesis using Pair StepMore assms(2) by (simp add: swrk_end_def)
  qed
qed

section \<open>What the checkpoint command destroys\<close>

definition alive :: "('w, 'z) criu_sys_scheme \<Rightarrow> container \<Rightarrow> bool" where
  "alive s c \<longleftrightarrow> (\<forall>w. runType s c w = Running \<and> (\<exists>b. isPaused s w = Inr b))"

definition observed :: "container_state \<Rightarrow> bool" where
  "observed x \<longleftrightarrow> x = RunningState \<or> x = PausedState \<or> (\<exists>st. x = LoadedState st)"

lemma runType_version [simp]: "runType s (c\<lparr>cn_criuVersion := v\<rparr>) w = runType s c w"
  by (simp add: runType_def cong: option.case_cong sum.case_cong if_cong del: Join.simps)

lemma alive_update: "alive s (c\<lparr>cn_criuVersion := v, cn_state := x\<rparr>) = alive s c" "alive s (c\<lparr>cn_state := x\<rparr>) = alive s c"
  "alive s (c\<lparr>cn_criuVersion := v\<rparr>) = alive s c"
  by (simp_all add: alive_def)

lemma Destroy_alive:
  assumes "alive s c" and "observed (cn_state c)"
  shows "cn_initProcess (fst (snd (Destroy s c w))) = cn_initProcess c"
proof -
  obtain b where rt: "runType s c w = Running" "isPaused s w = Inr b" using assms(1) by (auto simp: alive_def)
  show ?thesis
  proof (cases "cn_state c")
    case (LoadedState st)
    then have "\<exists>c'. refreshState s c w = (Inr (), c', w) \<and> (c' = c\<lparr>cn_state := PausedState\<rparr> \<or> c' = c\<lparr>cn_state := RunningState\<rparr>)"
      using rt by (cases b) (simp_all add: refreshState_def transition_loaded)
    then show ?thesis
      using LoadedState rt unfolding Destroy_def
      by (subst state_destroy.simps) (auto simp: state_destroy.simps [of s "c\<lparr>cn_state := _\<rparr>"] Let_def)
  qed (use assms(2) rt in \<open>simp_all add: observed_def Destroy_def state_destroy.simps Let_def\<close>)
qed

lemma Status_alive:
  assumes "alive s c" and "observed (cn_state c)" and "Status s c w = (r, c', w')"
  shows "\<exists>x. c' = c\<lparr>cn_state := x\<rparr> \<and> observed x"
proof -
  obtain b where rt: "runType s c w = Running" "isPaused s w = Inr b" using assms(1) by (auto simp: alive_def)
  obtain x where x: "c' = c\<lparr>cn_state := x\<rparr>" using assms(3) currentStatus_frame [of s c w] by (auto simp: Status_def)
  have "observed (cn_state c')"
    using assms(2,3) rt
    by (auto simp: observed_def Status_def currentStatus_def act_bind_def refreshState_def transition_def split: bool.splits)
  then show ?thesis using x by auto
qed


section \<open>A concrete migration\<close>

text \<open>An environment whose world is the list of the messages CRIU still has to send. The process with the number 7 is
  alive.\<close>

definition ex_criu :: "criu_recv list criu_sys" where
  "ex_criu =
    \<lparr>cg_Freeze = (\<lambda>x w. (None, w)), cg_GetFreezerState = (\<lambda>w. Inr Thawed), cg_Destroy = (\<lambda>w. (None, w)),
     cg_Exists = (\<lambda>w. True), cg_GetAllPids = (\<lambda>w. Inr []), cg_Set = (\<lambda>c w. (None, w)), cg_GetPaths = (\<lambda>w. []),
     s_Stat = (\<lambda>p w. if p = 7 then Inr \<lparr>ps_State = CHR ''S'', ps_StartTime = 5\<rparr> else Inl (Errno ENOENT)),
     s_osStat = (\<lambda>p w. Some (Errno ENOENT)), s_signal = (\<lambda>p sig w. (None, w)), s_subreaper = (\<lambda>w. Inr 0),
     s_isWaitable = (\<lambda>p w. Inr True), s_wait = (\<lambda>p w. w), s_RemoveAll = (\<lambda>p w. (None, w)),
     s_rdtDestroy = (\<lambda>w. (None, w)), s_rdtSet = (\<lambda>c w. (None, w)), s_rdtPath = (\<lambda>x. Inl (Errno ENOENT)),
     s_runHook = (\<lambda>h st w. (None, w)), s_nsSupported = (\<lambda>t. True),
     s_TempFile = (\<lambda>d p w. (Inr (d @ p), w)), s_WriteJSON = (\<lambda>f st w. (None, w)), s_Close = (\<lambda>f w. (None, w)),
     s_Remove = (\<lambda>f w. (None, w)), s_Rename = (\<lambda>f g w. (None, w)), s_Mkfifo = (\<lambda>f w. (None, w)),
     s_Chown = (\<lambda>f u g w. (None, w)),
     cr_Apply = (\<lambda>p w. (None, w)), cr_Path = (\<lambda>x w. ''/sys/fs/cgroup/c''), cr_Unified = True,
     cr_GetVersion = (\<lambda>p w. (Inr 31600, w)), cr_Mkdir = (\<lambda>p w. (None, w)), cr_MkdirAll = (\<lambda>p w. (None, w)),
     cr_createIfNotExists = (\<lambda>p d w. (None, w)), cr_Create = (\<lambda>p w. (None, w)), cr_Open = (\<lambda>p w. (Inr 9, w)),
     cr_CloseFd = (\<lambda>fd w. w), cr_WriteFd = (\<lambda>fd w. w), cr_SendFd = (\<lambda>fd w. (None, w)), cr_FcntlInt = (\<lambda>fd w. Inr 1),
     cr_StatIno = (\<lambda>p w. Inr 1), cr_StatDir = (\<lambda>p w. Inr False), cr_Readlink = (\<lambda>p w. Inr ''pipe:1''),
     cr_EvalSymlinks = (\<lambda>p w. Inr p), cr_SecureJoin = (\<lambda>r d w. Inr (r @ d)), cr_isProc = (\<lambda>p w. Inr False),
     cr_Mount = (\<lambda>x y w. (None, w)), cr_Unmount = (\<lambda>x w. w), cr_GetCgroupMounts = (\<lambda>w. Inr []),
     cr_ParseCgroupFile = (\<lambda>p w. Inr []), cr_WriteStrings = (\<lambda>p x w. (None, w)), cr_ReadStrings = (\<lambda>p w. Inr [''pipe:1'', [], []]),
     cr_Now = (\<lambda>w. 1), cr_Spawn = (\<lambda>p x w. (Inr 8, w)), cr_Send = (\<lambda>r w. (None, w)),
     cr_Recv = (\<lambda>w. case w of [] \<Rightarrow> (EndOfFile, []) | m # ms \<Rightarrow> (m, ms)), cr_Wait = (\<lambda>w. (Inr True, w))\<rparr>"

definition answer :: "req_type \<Rightarrow> (string \<times> int) option \<Rightarrow> criu_recv" where
  "answer t n = Msg \<lparr>rs_Type = t, rs_Success = True, rs_CrErrno = 0, rs_Features = None, rs_Notify = n\<rparr> (Inr [])"

definition ex_opts :: criu_opts where
  "ex_opts =
    \<lparr>co_ImagesDirectory = ''/ck'', co_WorkDirectory = [], co_ParentImage = [], co_LeaveRunning = False,
     co_TcpEstablished = True, co_ExternalUnixConnections = False, co_ShellJob = False, co_FileLocks = True,
     co_PreDump = False, co_PageServerAddress = [], co_PageServerPort = 0, co_VethPairs = [], co_ManageCgroupsMode = 0,
     co_EmptyNs = 0, co_AutoDedup = False, co_LazyPages = False, co_StatusFd = -1\<rparr>"

definition ex_mount :: mount where
  "ex_mount = (node_mount ''/data'')\<lparr>m_Destination := ''/mnt'', m_Device := ''bind''\<rparr>"

definition ex_migrated :: config where
  "ex_migrated = ex_config\<lparr>c_Mounts := [ex_mount], c_MaskPaths := [''/proc/kcore'']\<rparr>"

definition ex_dump :: "criu_recv list cst" where
  "ex_dump =
    \<lparr>st_c = ex_container\<lparr>cn_config := ex_migrated\<rparr>, st_opts = ex_opts, st_ops = None, st_features = None,
     st_w = [answer NOTIFY (Some (''network-lock'', 0)), answer NOTIFY (Some (''post-dump'', 0)), answer DUMP None]\<rparr>"

definition ex_fresh :: "criu_recv list cst" where
  "ex_fresh = ex_dump\<lparr>st_c := ex_container\<lparr>cn_config := ex_migrated, cn_state := StoppedState, cn_initProcess := None\<rparr>,
    st_w := [answer NOTIFY (Some (''post-restore'', 7)), answer RESTORE None]\<rparr>"

definition run_ok :: "((cerr, 'a) res \<times> 'w cst) option \<Rightarrow> bool" where
  "run_ok x = (case x of None \<Rightarrow> False | Some (r, _) \<Rightarrow> is_ok r)"

lemma run_okE: "run_ok x \<Longrightarrow> (\<And>a st. x = Some (Inr a, st) \<Longrightarrow> P) \<Longrightarrow> P"
  by (auto simp: run_ok_def is_ok_iff split: option.splits)

lemma ex_dump_ok: "run_ok (Checkpoint ex_criu ex_dump)" by code_simp

lemma ex_restore_ok: "run_ok (Restore ex_criu ex_fresh)" by code_simp

theorem checkpoint_keeps_container_witness:
  "\<exists>r st' v x. Checkpoint ex_criu ex_dump = Some (r, st') \<and> st_c st' = (st_c ex_dump)\<lparr>cn_criuVersion := v, cn_state := x\<rparr>"
  using ex_dump_ok by (rule run_okE) (use checkpoint_keeps_container [of ex_criu ex_dump] in blast)


lemma ex_prepare_ok: "run_ok (prepareCriuRestoreMounts ex_criu ex_fresh)" by code_simp

lemma ex_dump_mounts_ok: "run_ok (dump_mounts ex_criu ex_migrated 7 ex_dump)" by code_simp


definition ex_stopped_criu :: "criu_recv list criu_sys" where
  "ex_stopped_criu = ex_criu\<lparr>cr_Wait := (\<lambda>w. (Inr False, w))\<rparr>"

definition ex_predump :: criu_req where
  "ex_predump = \<lparr>rq_Type = PRE_DUMP, rq_Opts = None, rq_Features = None, rq_NotifySuccess = False\<rparr>"

definition ex_predump_st :: "criu_recv list cst" where
  "ex_predump_st = ex_dump\<lparr>st_w := [answer NOTIFY (Some (''pre-dump'', 0)), answer PRE_DUMP None]\<rparr>"

theorem predump_fails_after_notification_witness:
  "\<exists>req2 st2 w3. swrk_loop ex_stopped_criu False [] ex_predump ex_predump_st = Some (Inr req2, st2) \<and>
     swrk_end ex_stopped_criu req2 st2 = Some (Inl (err_text ''criu failed''), st2\<lparr>st_w := w3\<rparr>)"
proof -
  have "run_ok (swrk_loop ex_stopped_criu False [] ex_predump ex_predump_st)" by code_simp
  then obtain req2 st2 where run: "swrk_loop ex_stopped_criu False [] ex_predump ex_predump_st = Some (Inr req2, st2)"
    by (auto elim: run_okE)
  have "(case fst (criu_step ex_stopped_criu False [] ex_predump ex_predump_st) of StepMore _ \<Rightarrow> True | _ \<Rightarrow> False)" by code_simp
  then have "\<exists>req1 st1. criu_step ex_stopped_criu False [] ex_predump ex_predump_st = (StepMore req1, st1)"
    by (cases "criu_step ex_stopped_criu False [] ex_predump ex_predump_st") (auto split: step_result.splits)
  moreover have "cr_Wait ex_stopped_criu (st_w st2) = (Inr False, st_w st2)" by (simp add: ex_stopped_criu_def)
  moreover have "rq_Type ex_predump = PRE_DUMP" by (simp add: ex_predump_def)
  ultimately have "swrk_end ex_stopped_criu req2 st2 = Some (Inl (err_text ''criu failed''), st2\<lparr>st_w := st_w st2\<rparr>)"
    using predump_fails_after_notification [OF _ _ run] by simp
  then show ?thesis using run by blast
qed

definition ex_flags :: checkpoint_flags where
  "ex_flags =
    \<lparr>cf_cwd = Inr ''/root'', cf_imagePath = ''/ck'', cf_workPath = [], cf_parentPath = [], cf_leaveRunning = False,
     cf_tcpEstablished = True, cf_extUnixSk = False, cf_shellJob = False, cf_fileLocks = True, cf_preDump = False,
     cf_autoDedup = False, cf_lazyPages = False, cf_statusFd = -1, cf_pageServer = [], cf_cgroupsMode = [], cf_emptyNs = []\<rparr>"


end
