(* ===== verification/Gc_Mark.thy ===== *)
theory Gc_Mark
  imports Go_Prelude "HOL-Library.Multiset"
begin

text \<open>The garbage collector of containerd, \<^verbatim>\<open>gc/gc.go\<close>: the single-threaded tri-color marking with its
  gray stack, the concurrent marking as an interleaving of channel rendezvous between the root loop, the
  workers and the receiver, and the sweep. The references function is a parameter. Marking is shown to
  terminate on every finite graph and to yield exactly the reachable nodes.\<close>

section \<open>Nodes\<close>

type_synonym resource_type = "8 word"

definition ResourceMax :: resource_type where "ResourceMax = 0x1F"

record node =
  n_Type :: resource_type
  n_Namespace :: string
  n_Key :: string

definition strip :: "node \<Rightarrow> node" where
  "strip n = n\<lparr>n_Type := n_Type n AND ResourceMax\<rparr>"

section \<open>Tri-color marking\<close>

text \<open>The gray stack is a list with its top first: the targets that are not seen are appended in order, so
  the last of them is on top.\<close>

definition push_unseen :: "node set \<Rightarrow> node list \<Rightarrow> node list \<Rightarrow> node list" where
  "push_unseen seen rs grays = rev (filter (\<lambda>t. t \<notin> seen) rs) @ grays"

partial_function (option) tricolor_loop ::
  "(node \<Rightarrow> ('e, node list) res) \<Rightarrow> node list \<Rightarrow> node set \<Rightarrow> node set \<Rightarrow> ('e, node set) res option" where
  "tricolor_loop refs grays seen reachable =
    (case grays of
       [] \<Rightarrow> Some (Inr reachable)
     | i # grays' \<Rightarrow>
         (let seen' = insert i seen in
          case refs i of
            Inl err \<Rightarrow> Some (Inl err)
          | Inr rs \<Rightarrow> tricolor_loop refs (push_unseen seen' rs grays') seen' (insert (strip i) reachable)))"

definition Tricolor :: "node list \<Rightarrow> (node \<Rightarrow> ('e, node list) res) \<Rightarrow> ('e, node set) res option" where
  "Tricolor roots refs = tricolor_loop refs (rev roots) {} {}"

declare tricolor_loop.simps [code]

section \<open>Sweeping\<close>

fun Sweep :: "node set \<Rightarrow> node list \<Rightarrow> (node \<Rightarrow> 'w \<Rightarrow> 'e option \<times> 'w) \<Rightarrow> 'w \<Rightarrow> 'e option \<times> 'w" where
  "Sweep reachable [] remove w = (None, w)"
| "Sweep reachable (node # all) remove w =
    (if node \<notin> reachable then
       (case remove node w of (Some e, w') \<Rightarrow> (Some e, w') | (None, w') \<Rightarrow> Sweep reachable all remove w')
     else Sweep reachable all remove w)"

section \<open>Concurrent marking\<close>

text \<open>A worker runs \<^verbatim>\<open>refs\<close> for a node: it sends the remaining targets one by one and then returns an
  error or none. The channel has no buffer: a send happens together with the receiver's loop body, which
  drops a seen node and starts a worker for a new one. After a cancellation a send may be dropped.\<close>

record cmark =
  cm_roots :: "node list"
  cm_workers :: "(node \<times> node list) multiset"
  cm_seen :: "node set"
  cm_err :: "string option"
  cm_cancelled :: bool

type_synonym crefs = "node \<Rightarrow> node list \<times> string option"

definition cm_receive :: "crefs \<Rightarrow> node \<Rightarrow> cmark \<Rightarrow> cmark" where
  "cm_receive refs g st =
    (if g \<in> cm_seen st then st
     else st\<lparr>cm_seen := insert g (cm_seen st), cm_workers := add_mset (g, fst (refs g)) (cm_workers st)\<rparr>)"

definition cm_init :: "node list \<Rightarrow> cmark" where
  "cm_init roots = \<lparr>cm_roots = roots, cm_workers = {#}, cm_seen = {}, cm_err = None, cm_cancelled = False\<rparr>"

inductive cmstep :: "crefs \<Rightarrow> cmark \<Rightarrow> cmark \<Rightarrow> bool" for refs where
  send_root: "cm_roots st = r # rs \<Longrightarrow> cmstep refs st (cm_receive refs r (st\<lparr>cm_roots := rs\<rparr>))"
| drop_root: "\<lbrakk>cm_roots st = r # rs; cm_cancelled st\<rbrakk> \<Longrightarrow> cmstep refs st (st\<lparr>cm_roots := rs\<rparr>)"
| send: "cm_workers st = add_mset (n, t # ts) ws \<Longrightarrow>
    cmstep refs st (cm_receive refs t (st\<lparr>cm_workers := add_mset (n, ts) ws\<rparr>))"
| drop: "\<lbrakk>cm_workers st = add_mset (n, t # ts) ws; cm_cancelled st\<rbrakk> \<Longrightarrow>
    cmstep refs st (st\<lparr>cm_workers := add_mset (n, ts) ws\<rparr>)"
| finish: "\<lbrakk>cm_workers st = add_mset (n, []) ws; snd (refs n) = None\<rbrakk> \<Longrightarrow> cmstep refs st (st\<lparr>cm_workers := ws\<rparr>)"
| fail: "\<lbrakk>cm_workers st = add_mset (n, []) ws; snd (refs n) = Some e\<rbrakk> \<Longrightarrow>
    cmstep refs st (st\<lparr>cm_workers := ws, cm_err := (case cm_err st of None \<Rightarrow> Some e | Some e' \<Rightarrow> Some e'),
      cm_cancelled := True\<rparr>)"
| cancel: "cmstep refs st (st\<lparr>cm_cancelled := True\<rparr>)"

inductive_simps cmstep_iff: "cmstep refs st st'"

text \<open>The wait group is empty: the root loop ended and no worker runs.\<close>

definition cm_done :: "cmark \<Rightarrow> bool" where
  "cm_done st \<longleftrightarrow> cm_roots st = [] \<and> cm_workers st = {#}"

datatype cm_result = Marked "node set" | RefError string | ContextError

definition cm_result_of :: "cmark \<Rightarrow> cm_result" where
  "cm_result_of st =
    (case cm_err st of Some e \<Rightarrow> RefError e | None \<Rightarrow> if cm_cancelled st then ContextError else Marked (cm_seen st))"

section \<open>Reachability\<close>

inductive_set reach :: "(node \<Rightarrow> node list) \<Rightarrow> node list \<Rightarrow> node set" for refs roots where
  root: "n \<in> set roots \<Longrightarrow> n \<in> reach refs roots"
| ref: "\<lbrakk>n \<in> reach refs roots; t \<in> set (refs n)\<rbrakk> \<Longrightarrow> t \<in> reach refs roots"

lemma reach_least: "set roots \<subseteq> S \<Longrightarrow> (\<And>n. n \<in> S \<Longrightarrow> set (refs n) \<subseteq> S) \<Longrightarrow> reach refs roots \<subseteq> S"
proof
  fix x assume S: "set roots \<subseteq> S" "\<And>n. n \<in> S \<Longrightarrow> set (refs n) \<subseteq> S" and "x \<in> reach refs roots"
  from this(3) show "x \<in> S" by induction (use S in auto)
qed

definition targets :: "(node \<Rightarrow> ('e, node list) res) \<Rightarrow> node \<Rightarrow> node list" where
  "targets refs n = (case refs n of Inl _ \<Rightarrow> [] | Inr ts \<Rightarrow> ts)"

section \<open>The marking invariant\<close>

text \<open>Every seen node has its targets seen or on the stack; for a copy of it that is still on the stack
  they are above that copy, so the copy pushes nothing when it is taken.\<close>

definition above :: "(node \<Rightarrow> ('e, node list) res) \<Rightarrow> node list \<Rightarrow> node set \<Rightarrow> bool" where
  "above refs grays seen \<longleftrightarrow>
    (\<forall>xs n ys. grays = xs @ n # ys \<longrightarrow> n \<in> seen \<longrightarrow> set (targets refs n) \<subseteq> seen \<union> set xs)"

definition closed_by :: "(node \<Rightarrow> ('e, node list) res) \<Rightarrow> node list \<Rightarrow> node set \<Rightarrow> bool" where
  "closed_by refs grays seen \<longleftrightarrow> (\<forall>n \<in> seen. set (targets refs n) \<subseteq> seen \<union> set grays)"

lemma above_pop_seen:
  assumes "above refs (i # grays) seen" and "i \<in> seen"
  shows "push_unseen (insert i seen) (targets refs i) grays = grays" "above refs grays seen"
proof -
  have "set (targets refs i) \<subseteq> seen" using assms unfolding above_def by (metis append_Nil empty_set sup_bot_right)
  then show "push_unseen (insert i seen) (targets refs i) grays = grays"
    by (auto simp: push_unseen_def filter_empty_conv)
  show "above refs grays seen"
    unfolding above_def
  proof (intro allI impI)
    fix xs n ys assume "grays = xs @ n # ys" "n \<in> seen"
    then have "set (targets refs n) \<subseteq> seen \<union> set (i # xs)" using assms(1) unfolding above_def by (metis append_Cons)
    then show "set (targets refs n) \<subseteq> seen \<union> set xs" using assms(2) by auto
  qed
qed

lemma append_split_new:
  "as @ bs = xs @ n # ys \<Longrightarrow> n \<notin> set as \<Longrightarrow> \<exists>zs. bs = zs @ n # ys \<and> xs = as @ zs"
proof (induction as arbitrary: xs)
  case (Cons a as) then show ?case by (cases xs) auto
qed simp

lemma above_pop_new:
  assumes "above refs (i # grays) seen" and "i \<notin> seen"
  shows "above refs (push_unseen (insert i seen) (targets refs i) grays) (insert i seen)"
  unfolding above_def
proof (intro allI impI)
  let ?new = "rev (filter (\<lambda>t. t \<notin> insert i seen) (targets refs i))"
  fix xs n ys
  assume split: "push_unseen (insert i seen) (targets refs i) grays = xs @ n # ys" and n: "n \<in> insert i seen"
  then have "n \<notin> set ?new" by auto
  then obtain zs where zs: "grays = zs @ n # ys" "xs = ?new @ zs"
    using append_split_new [of ?new grays xs n ys] split unfolding push_unseen_def by blast
  show "set (targets refs n) \<subseteq> insert i seen \<union> set xs"
  proof (cases "n = i")
    case True
    then show ?thesis using zs(2) by auto
  next
    case False
    then have "set (targets refs n) \<subseteq> seen \<union> set (i # zs)"
      using assms(1) n zs(1) unfolding above_def by (metis append_Cons insertE)
    then show ?thesis using zs(2) by auto
  qed
qed

lemma closed_pop:
  assumes "closed_by refs (i # grays) seen"
  shows "closed_by refs (push_unseen (insert i seen) (targets refs i) grays) (insert i seen)"
  using assms by (auto simp: closed_by_def push_unseen_def)

text \<open>With the invariant, the unseen part of a finite closed set and then the stack shrink, so the loop
  ends; its result is told by the seen nodes of the final state.\<close>

definition mark_inv :: "(node \<Rightarrow> ('e, node list) res) \<Rightarrow> node list \<Rightarrow> node list \<Rightarrow> node set \<Rightarrow> bool" where
  "mark_inv refs roots grays seen \<longleftrightarrow>
    above refs grays seen \<and> closed_by refs grays seen \<and>
    set roots \<subseteq> seen \<union> set grays \<and> seen \<union> set grays \<subseteq> reach (targets refs) roots \<and>
    (\<forall>n \<in> seen. is_ok (refs n))"

lemma mark_inv_pop:
  assumes "mark_inv refs roots (i # grays) seen" and "refs i = Inr rs"
  shows "mark_inv refs roots (push_unseen (insert i seen) rs grays) (insert i seen)"
proof -
  have rs: "rs = targets refs i" using assms(2) by (simp add: targets_def)
  have "above refs (push_unseen (insert i seen) rs grays) (insert i seen)"
    using assms(1) above_pop_seen [of refs i grays seen] above_pop_new [of refs i grays seen]
    by (cases "i \<in> seen") (auto simp: mark_inv_def rs insert_absorb)
  moreover have "closed_by refs (push_unseen (insert i seen) rs grays) (insert i seen)"
    using assms(1) closed_pop by (auto simp: mark_inv_def rs)
  moreover have "set rs \<subseteq> reach (targets refs) roots"
    using assms(1) by (auto simp: mark_inv_def rs intro: reach.ref)
  ultimately show ?thesis
    using assms by (auto simp: mark_inv_def push_unseen_def is_ok_def)
qed

lemma mark_inv_end:
  assumes "mark_inv refs roots [] seen"
  shows "seen = reach (targets refs) roots"
  using assms reach_least [of roots seen "targets refs"] by (auto simp: mark_inv_def closed_by_def)

definition mark_result :: "(node \<Rightarrow> ('e, node list) res) \<Rightarrow> node list \<Rightarrow> ('e, node set) res \<Rightarrow> bool" where
  "mark_result refs roots r \<longleftrightarrow>
    (case r of
       Inr m \<Rightarrow> m = strip ` reach (targets refs) roots \<and> (\<forall>n \<in> reach (targets refs) roots. is_ok (refs n))
     | Inl e \<Rightarrow> (\<exists>n \<in> reach (targets refs) roots. refs n = Inl e))"

lemma tricolor_loop_result:
  assumes "finite (reach (targets refs) roots)" and "mark_inv refs roots grays seen"
  shows "\<exists>r. tricolor_loop refs grays seen (strip ` seen) = Some r \<and> mark_result refs roots r"
  using assms(2)
proof (induction "(card (reach (targets refs) roots - seen), length grays)" arbitrary: grays seen
    rule: wf_induct_rule [OF wf_lex_prod [OF wf_less_than wf_less_than]])
  case 1
  show ?case
  proof (cases grays)
    case Nil
    then have "seen = reach (targets refs) roots" using mark_inv_end 1(2) by auto
    then show ?thesis
      using 1(2) Nil by (subst tricolor_loop.simps) (auto simp: mark_result_def mark_inv_def)
  next
    case (Cons i grays')
    have i: "i \<in> reach (targets refs) roots" using 1(2) Cons by (auto simp: mark_inv_def)
    show ?thesis
    proof (cases "refs i")
      case (Inl e)
      then show ?thesis using Cons i by (subst tricolor_loop.simps) (auto simp: mark_result_def)
    next
      case (Inr rs)
      let ?grays = "push_unseen (insert i seen) rs grays'"
      have inv: "mark_inv refs roots ?grays (insert i seen)" using mark_inv_pop 1(2) Cons Inr by blast
      have "((card (reach (targets refs) roots - insert i seen), length ?grays),
          (card (reach (targets refs) roots - seen), length grays)) \<in> less_than <*lex*> less_than"
      proof (cases "i \<in> seen")
        case True
        then have "?grays = grays'"
          using above_pop_seen(1) [of refs i grays' seen] 1(2) Cons Inr by (auto simp: mark_inv_def targets_def)
        then show ?thesis using True Cons by (simp add: insert_absorb)
      next
        case False
        then have less: "reach (targets refs) roots - insert i seen \<subset> reach (targets refs) roots - seen" using i by auto
        show ?thesis using psubset_card_mono [OF _ less] assms(1) by simp
      qed
      from 1(1) [OF this inv] show ?thesis using Cons Inr by (subst tricolor_loop.simps) (simp add: Let_def)
    qed
  qed
qed

lemma mark_inv_init: "mark_inv refs roots (rev roots) {}"
  by (auto simp: mark_inv_def above_def closed_by_def intro: reach.root)

lemma Tricolor_result:
  assumes "finite (reach (targets refs) roots)"
  shows "\<exists>r. Tricolor roots refs = Some r \<and> mark_result refs roots r"
  using tricolor_loop_result [OF assms mark_inv_init] by (simp add: Tricolor_def)

section \<open>The concurrent invariant\<close>

text \<open>Unless it was cancelled, every target of a seen node is seen, still to be sent by the node's worker,
  or among the nodes \<open>P\<close> being received.\<close>

definition cm_inv :: "crefs \<Rightarrow> node list \<Rightarrow> node set \<Rightarrow> cmark \<Rightarrow> bool" where
  "cm_inv refs roots P st \<longleftrightarrow>
    set (cm_roots st) \<subseteq> set roots \<and> P \<subseteq> reach (\<lambda>n. fst (refs n)) roots \<and>
    cm_seen st \<subseteq> reach (\<lambda>n. fst (refs n)) roots \<and>
    (\<forall>n ts. (n, ts) \<in># cm_workers st \<longrightarrow> n \<in> cm_seen st \<and> set ts \<subseteq> set (fst (refs n))) \<and>
    (cm_err st \<noteq> None \<longrightarrow> cm_cancelled st) \<and>
    (\<not> cm_cancelled st \<longrightarrow>
       set roots \<subseteq> cm_seen st \<union> set (cm_roots st) \<union> P \<and>
       (\<forall>n \<in> cm_seen st. \<forall>t \<in> set (fst (refs n)).
          t \<in> cm_seen st \<or> t \<in> P \<or> (\<exists>ts. (n, ts) \<in># cm_workers st \<and> t \<in> set ts)) \<and>
       (\<forall>n \<in> cm_seen st. snd (refs n) = None \<or> (\<exists>ts. (n, ts) \<in># cm_workers st)))"

lemma cm_inv_receive:
  assumes "cm_inv refs roots {g} st"
  shows "cm_inv refs roots {} (cm_receive refs g st)"
proof (cases "g \<in> cm_seen st")
  case True
  then show ?thesis using assms by (auto simp: cm_inv_def cm_receive_def)
next
  case False
  let ?st = "cm_receive refs g st"
  have f: "cm_seen ?st = insert g (cm_seen st)" "cm_workers ?st = add_mset (g, fst (refs g)) (cm_workers st)"
    "cm_roots ?st = cm_roots st" "cm_cancelled ?st = cm_cancelled st" "cm_err ?st = cm_err st"
    using False by (simp_all add: cm_receive_def)
  have "\<forall>n \<in> insert g (cm_seen st). \<forall>t \<in> set (fst (refs n)).
      t \<in> insert g (cm_seen st) \<or> (\<exists>ts. (n, ts) \<in># add_mset (g, fst (refs g)) (cm_workers st) \<and> t \<in> set ts)"
    if "\<not> cm_cancelled st"
  proof (intro ballI)
    fix n t assume n: "n \<in> insert g (cm_seen st)" and t: "t \<in> set (fst (refs n))"
    show "t \<in> insert g (cm_seen st) \<or> (\<exists>ts. (n, ts) \<in># add_mset (g, fst (refs g)) (cm_workers st) \<and> t \<in> set ts)"
    proof (cases "n = g")
      case False
      then have "t \<in> cm_seen st \<or> t \<in> {g} \<or> (\<exists>ts. (n, ts) \<in># cm_workers st \<and> t \<in> set ts)"
        using assms n t that by (simp add: cm_inv_def)
      then show ?thesis by auto
    qed (use t in auto)
  qed
  moreover have "\<forall>n \<in> insert g (cm_seen st). snd (refs n) = None \<or> (\<exists>ts. (n, ts) \<in># add_mset (g, fst (refs g)) (cm_workers st))"
    if "\<not> cm_cancelled st"
  proof
    fix n assume n: "n \<in> insert g (cm_seen st)"
    show "snd (refs n) = None \<or> (\<exists>ts. (n, ts) \<in># add_mset (g, fst (refs g)) (cm_workers st))"
    proof (cases "n = g")
      case False
      then have "snd (refs n) = None \<or> (\<exists>ts. (n, ts) \<in># cm_workers st)" using assms n that by (simp add: cm_inv_def)
      then show ?thesis by auto
    qed auto
  qed
  ultimately show ?thesis using assms unfolding cm_inv_def f by auto
qed

lemma cm_inv_send_root:
  assumes "cm_inv refs roots {} st" and "cm_roots st = r # rs"
  shows "cm_inv refs roots {r} (st\<lparr>cm_roots := rs\<rparr>)"
  using assms by (auto simp: cm_inv_def intro: reach.root)

lemma cm_inv_send:
  assumes "cm_inv refs roots {} st" and "cm_workers st = add_mset (n, t # ts) ws"
  shows "cm_inv refs roots {t} (st\<lparr>cm_workers := add_mset (n, ts) ws\<rparr>)"
proof -
  have "n \<in> cm_seen st" "set (t # ts) \<subseteq> set (fst (refs n))"
    using assms by (auto simp: cm_inv_def)
  then have "t \<in> reach (\<lambda>n. fst (refs n)) roots" "set ts \<subseteq> set (fst (refs n))"
    using assms(1) by (auto simp: cm_inv_def intro: reach.ref)
  moreover have "x \<in> cm_seen st \<or> x = t \<or> (\<exists>us. (m, us) \<in># add_mset (n, ts) ws \<and> x \<in> set us)"
    if "\<not> cm_cancelled st" "m \<in> cm_seen st" "x \<in> set (fst (refs m))" for m x
  proof -
    have "x \<in> cm_seen st \<or> (\<exists>us. (m, us) \<in># add_mset (n, t # ts) ws \<and> x \<in> set us)"
      using assms that by (simp add: cm_inv_def)
    then show ?thesis by auto
  qed
  moreover have "snd (refs m) = None \<or> (\<exists>us. (m, us) \<in># add_mset (n, ts) ws)"
    if "\<not> cm_cancelled st" "m \<in> cm_seen st" for m
  proof -
    have "snd (refs m) = None \<or> (\<exists>us. (m, us) \<in># add_mset (n, t # ts) ws)" using assms that by (simp add: cm_inv_def)
    then show ?thesis by auto
  qed
  ultimately show ?thesis using assms \<open>n \<in> cm_seen st\<close> by (simp add: cm_inv_def) blast
qed

lemma cm_inv_finish:
  assumes "cm_inv refs roots {} st" and "cm_workers st = add_mset (n, []) ws" and "snd (refs n) = None"
  shows "cm_inv refs roots {} (st\<lparr>cm_workers := ws\<rparr>)"
proof -
  have "x \<in> cm_seen st \<or> (\<exists>us. (m, us) \<in># ws \<and> x \<in> set us)"
    if "\<not> cm_cancelled st" "m \<in> cm_seen st" "x \<in> set (fst (refs m))" for m x
  proof -
    have "x \<in> cm_seen st \<or> (\<exists>us. (m, us) \<in># add_mset (n, []) ws \<and> x \<in> set us)"
      using assms that by (simp add: cm_inv_def)
    then show ?thesis by auto
  qed
  moreover have "snd (refs m) = None \<or> (\<exists>us. (m, us) \<in># ws)" if "\<not> cm_cancelled st" "m \<in> cm_seen st" for m
  proof -
    have "snd (refs m) = None \<or> (\<exists>us. (m, us) \<in># add_mset (n, []) ws)" using assms that by (simp add: cm_inv_def)
    then show ?thesis using assms(3) by auto
  qed
  ultimately show ?thesis using assms by (simp add: cm_inv_def)
qed

lemma cm_inv_step:
  assumes "cmstep refs st st'" and "cm_inv refs roots {} st"
  shows "cm_inv refs roots {} st'"
  using assms
proof cases
  case (send_root r rs) then show ?thesis using cm_inv_receive cm_inv_send_root assms(2) by blast
next
  case (send n t ts ws) then show ?thesis using cm_inv_receive cm_inv_send assms(2) by blast
next
  case (finish n ws) then show ?thesis using cm_inv_finish assms(2) by blast
qed (use assms(2) in \<open>auto simp: cm_inv_def split: option.splits\<close>)

lemma cm_inv_steps: "(cmstep refs)\<^sup>*\<^sup>* (cm_init roots) st \<Longrightarrow> cm_inv refs roots {} st"
  by (induction rule: rtranclp_induct) (auto simp: cm_inv_step, simp add: cm_inv_def cm_init_def)

lemma cm_inv_done:
  assumes "cm_inv refs roots {} st" and "cm_done st" and "\<not> cm_cancelled st"
  shows "cm_seen st = reach (\<lambda>n. fst (refs n)) roots" "\<forall>n \<in> cm_seen st. snd (refs n) = None"
  using assms reach_least [of roots "cm_seen st" "\<lambda>n. fst (refs n)"] by (auto simp: cm_inv_def cm_done_def)

section \<open>Properties\<close>

definition ex_node :: "string \<Rightarrow> node" where
  "ex_node k = \<lparr>n_Type = 0x23, n_Namespace = ''ns'', n_Key = k\<rparr>"

definition ex_refs :: "node \<Rightarrow> (string, node list) res" where
  "ex_refs n = Inr (if n_Key n = ''a'' then [ex_node ''b'', ex_node ''c'', ex_node ''b'']
     else if n_Key n = ''b'' then [ex_node ''a'', ex_node ''c''] else [])"

lemma ex_reach: "reach (targets ex_refs) [ex_node ''a''] \<subseteq> {ex_node ''a'', ex_node ''b'', ex_node ''c''}"
  by (rule reach_least) (auto simp: targets_def ex_refs_def ex_node_def)

lemma Sweep_delete:
  "Sweep reachable all (\<lambda>n S. (None, S - {n})) S = (None, S - {n \<in> set all. n \<notin> reachable})"
  by (induction all arbitrary: S) auto

text \<open>C22: A collection terminates and removes exactly the garbage: on every graph in which finitely many nodes are
  reachable from the roots, tri-color marking returns. If no reachable node's references fail, sweeping a store with the marked
  nodes leaves the nodes that are reachable once the caller's upper type bits are stripped, and no other; otherwise the
  result is the error of a reachable node.\<close>

theorem collect_exact:
  assumes "finite (reach (targets refs) roots)"
  shows "\<exists>r. Tricolor roots refs = Some r \<and>
    (case r of
       Inr m \<Rightarrow> (\<forall>n \<in> reach (targets refs) roots. is_ok (refs n)) \<and>
         Sweep m all (\<lambda>n S. (None, S - {n})) (set all) =
           (None, {n \<in> set all. \<exists>x \<in> reach (targets refs) roots. n = strip x})
     | Inl e \<Rightarrow> (\<exists>n \<in> reach (targets refs) roots. refs n = Inl e))"
proof -
  obtain r where r: "Tricolor roots refs = Some r" "mark_result refs roots r"
    using Tricolor_result [OF assms] by blast
  then show ?thesis by (cases r) (auto simp: mark_result_def Sweep_delete)
qed

theorem collect_exact_witness:
  "\<exists>m. Tricolor [ex_node ''a''] ex_refs = Some (Inr m) \<and>
     Sweep m [strip (ex_node ''b''), ex_node ''b'', strip (ex_node ''z'')] (\<lambda>n S. (None :: string option, S - {n}))
       (set [strip (ex_node ''b''), ex_node ''b'', strip (ex_node ''z'')]) =
     (None, {n \<in> set [strip (ex_node ''b''), ex_node ''b'', strip (ex_node ''z'')].
        \<exists>x \<in> reach (targets ex_refs) [ex_node ''a'']. n = strip x})"
proof -
  let ?all = "[strip (ex_node ''b''), ex_node ''b'', strip (ex_node ''z'')]"
  have run: "Tricolor [ex_node ''a''] ex_refs = Some (Inr (strip ` {ex_node ''a'', ex_node ''b'', ex_node ''c''}))"
    by code_simp
  have "finite (reach (targets ex_refs) [ex_node ''a''])" by (rule finite_subset [OF ex_reach]) simp
  from collect_exact [OF this, of ?all] obtain r where r: "Tricolor [ex_node ''a''] ex_refs = Some r \<and>
      (case r of Inr m \<Rightarrow> (\<forall>n \<in> reach (targets ex_refs) [ex_node ''a'']. is_ok (ex_refs n)) \<and>
        Sweep m ?all (\<lambda>n S. (None :: string option, S - {n})) (set ?all) =
          (None, {n \<in> set ?all. \<exists>x \<in> reach (targets ex_refs) [ex_node ''a'']. n = strip x})
      | Inl e \<Rightarrow> (\<exists>n \<in> reach (targets ex_refs) [ex_node ''a'']. ex_refs n = Inl e))" ..
  then have "r = Inr (strip ` {ex_node ''a'', ex_node ''b'', ex_node ''c''})" using run by (simp only: option.inject)
  then obtain m where m: "r = Inr m" ..
  show ?thesis
    by (rule exI [of _ m], rule conjI [OF conjunct1 [OF r, unfolded m] conjunct2 [OF conjunct2 [OF r, unfolded m sum.case]]])
qed

text \<open>C20: Concurrent marking yields exactly the reachable nodes however the sends of roots and workers
  interleave: in every final state that was neither cancelled nor failed the marked set is the set of reachable nodes,
  and none of their references failed.\<close>

theorem concurrent_mark_exact:
  assumes "(cmstep refs)\<^sup>*\<^sup>* (cm_init roots) st" and "cm_done st" and "cm_result_of st = Marked S"
  shows "S = reach (\<lambda>n. fst (refs n)) roots \<and> (\<forall>n \<in> S. snd (refs n) = None)"
proof -
  have "\<not> cm_cancelled st" "cm_seen st = S"
    using assms(3) by (auto simp: cm_result_of_def split: option.splits if_splits)
  then show ?thesis using cm_inv_done [OF cm_inv_steps [OF assms(1)] assms(2)] by blast
qed

definition ex_crefs :: crefs where
  "ex_crefs n = ((if n_Key n = ''a'' then [ex_node ''b''] else []), None)"

lemma ex_cm_run:
  "(cmstep ex_crefs)\<^sup>*\<^sup>* (cm_init [ex_node ''a''])
     \<lparr>cm_roots = [], cm_workers = {#}, cm_seen = {ex_node ''a'', ex_node ''b''}, cm_err = None, cm_cancelled = False\<rparr>"
proof -
  let ?st = "\<lambda>ws seen. \<lparr>cm_roots = [], cm_workers = ws, cm_seen = seen, cm_err = None, cm_cancelled = False\<rparr>"
  let ?a = "ex_node ''a''" and ?b = "ex_node ''b''"
  have ab: "?a \<noteq> ?b" by (simp add: ex_node_def)
  have "cmstep ex_crefs (cm_init [?a]) (?st {#(?a, [?b])#} {?a})"
    using cmstep.send_root [of "cm_init [?a]" ?a "[]" ex_crefs] by (simp add: cm_init_def cm_receive_def ex_crefs_def ex_node_def)
  moreover have "cmstep ex_crefs (?st {#(?a, [?b])#} {?a}) (?st {#(?b, []), (?a, [])#} {?a, ?b})"
    using cmstep.send [of "?st {#(?a, [?b])#} {?a}" ?a ?b "[]" "{#}" ex_crefs] ab
    by (simp add: cm_receive_def ex_crefs_def ex_node_def insert_commute)
  moreover have "cmstep ex_crefs (?st {#(?b, []), (?a, [])#} {?a, ?b}) (?st {#(?a, [])#} {?a, ?b})"
    using cmstep.finish [of "?st {#(?b, []), (?a, [])#} {?a, ?b}" ?b "{#(?a, [])#}" ex_crefs] by (simp add: ex_crefs_def)
  moreover have "cmstep ex_crefs (?st {#(?a, [])#} {?a, ?b}) (?st {#} {?a, ?b})"
    using cmstep.finish [of "?st {#(?a, [])#} {?a, ?b}" ?a "{#}" ex_crefs] by (simp add: ex_crefs_def)
  ultimately show ?thesis by (meson converse_rtranclp_into_rtranclp rtranclp.rtrancl_refl)
qed

theorem concurrent_mark_exact_witness:
  "reach (\<lambda>n. fst (ex_crefs n)) [ex_node ''a''] = {ex_node ''a'', ex_node ''b''}"
  using concurrent_mark_exact [OF ex_cm_run, of "{ex_node ''a'', ex_node ''b''}"]
  by (simp add: cm_done_def cm_result_of_def)

text \<open>Every step but a cancellation makes progress.\<close>

definition weight :: "cmark \<Rightarrow> nat" where
  "weight st = length (cm_roots st) + (\<Sum>(n, ts) \<in># cm_workers st. 1 + length ts)"

definition unseen :: "crefs \<Rightarrow> node list \<Rightarrow> cmark \<Rightarrow> nat" where
  "unseen refs roots st = card (reach (\<lambda>n. fst (refs n)) roots - cm_seen st)"

lemma receive_progress:
  assumes "finite (reach (\<lambda>n. fst (refs n)) roots)" and "g \<in> reach (\<lambda>n. fst (refs n)) roots"
  shows "unseen refs roots (cm_receive refs g st) < unseen refs roots st \<or> cm_receive refs g st = st"
proof (cases "g \<in> cm_seen st")
  case False
  let ?R = "reach (\<lambda>n. fst (refs n)) roots"
  have "?R - cm_seen (cm_receive refs g st) \<subset> ?R - cm_seen st" using False assms(2) by (auto simp: cm_receive_def)
  then show ?thesis using psubset_card_mono [of "?R - cm_seen st"] assms(1) by (auto simp: unseen_def)
qed (simp add: cm_receive_def)

lemma cm_progress:
  assumes "finite (reach (\<lambda>n. fst (refs n)) roots)" and "cm_inv refs roots {} st" and "\<not> cm_done st"
    and "\<forall>n. snd (refs n) = None"
  obtains st' where "cmstep refs st st'" "cm_cancelled st' = cm_cancelled st"
    "unseen refs roots st' < unseen refs roots st \<or> unseen refs roots st' = unseen refs roots st \<and> weight st' < weight st"
proof (cases "cm_roots st")
  case (Cons r rs)
  let ?st = "st\<lparr>cm_roots := rs\<rparr>"
  have "r \<in> reach (\<lambda>n. fst (refs n)) roots" using cm_inv_send_root [OF assms(2) Cons] by (simp add: cm_inv_def)
  from receive_progress [OF assms(1) this, of ?st]
  have "unseen refs roots (cm_receive refs r ?st) < unseen refs roots st \<or>
      unseen refs roots (cm_receive refs r ?st) = unseen refs roots st \<and> weight (cm_receive refs r ?st) < weight st"
    using Cons by (auto simp: unseen_def weight_def)
  then show thesis by (intro that [OF cmstep.send_root [OF Cons]]) (auto simp: cm_receive_def)
next
  case Nil
  then obtain n ts ws where w: "cm_workers st = add_mset (n, ts) ws"
    using assms(3) by (metis cm_done_def multiset_cases surj_pair)
  show thesis
  proof (cases ts)
    case Nil
    then have "cmstep refs st (st\<lparr>cm_workers := ws\<rparr>)" using cmstep.finish w assms(4) by blast
    then show thesis by (rule that) (simp_all add: unseen_def weight_def w)
  next
    case (Cons t us)
    let ?st = "st\<lparr>cm_workers := add_mset (n, us) ws\<rparr>"
    have w': "cm_workers st = add_mset (n, t # us) ws" using w Cons by simp
    have "t \<in> reach (\<lambda>n. fst (refs n)) roots" using cm_inv_send [OF assms(2) w'] by (simp add: cm_inv_def)
    from receive_progress [OF assms(1) this, of ?st]
    have "unseen refs roots (cm_receive refs t ?st) < unseen refs roots st \<or>
        unseen refs roots (cm_receive refs t ?st) = unseen refs roots st \<and> weight (cm_receive refs t ?st) < weight st"
      using w' by (auto simp: unseen_def weight_def)
    then show thesis by (intro that [OF cmstep.send [OF w']]) (auto simp: cm_receive_def)
  qed
qed



end
