(* ===== verification/Shim_Process.thy ===== *)
theory Shim_Process
  imports Go_Paths
begin

text \<open>The process objects of containerd's runc shim, \<^verbatim>\<open>cmd/containerd-shim-runc-v2/process\<close>: the init process
  with its six states (\<^verbatim>\<open>init_state.go\<close>, \<^verbatim>\<open>deleted_state.go\<close>, \<^verbatim>\<open>init.go\<close>) and the exec processes
  (\<^verbatim>\<open>exec_state.go\<close>, \<^verbatim>\<open>exec.go\<close>). This is the layer through which a checkpoint or a restore of a task reaches
  runc. Calls of the runtime and the platform are the record \<^verbatim>\<open>rt\<close> over a world type. An operation is
  called with the process locked, so operations are atomic; the reaper's SetExited interleaves with
  them in any order. A Go panic is an outcome of its own.\<close>

section \<open>State\<close>

datatype init_state = ICreated | ICreatedCheckpoint restore_opts | IRunning | IPaused | IStopped | IDeleted
  and restore_opts = RestoreOpts (ro_ImagePath: string) (ro_WorkDir: string) (ro_ParentPath: string)
    (ro_PidFile: string) (ro_NoPivot: bool) (ro_Detach: bool) (ro_NoSubreaper: bool) (ro_Console: bool)

record stdio =
  sio_Stdin :: string
  sio_Terminal :: bool

record init_proc =
  ip_state :: init_state
  ip_id :: string
  ip_Bundle :: string
  ip_WorkDir :: string
  ip_CriuWorkPath :: string
  ip_Rootfs :: string
  ip_NoPivotRoot :: bool
  ip_NoNewKeyring :: bool
  ip_pausing :: bool
  ip_status :: int
  ip_exited :: bool
  ip_pid :: int
  ip_waitClosed :: bool
  ip_hasIO :: bool
  ip_console :: bool
  ip_stdin :: bool
  ip_stdio :: stdio

datatype shim_err = Msg string | NotFound string | AlreadyExists string | FailedPrecondition string | RtErr string go_err | CriuErr string string

datatype 'a outcome = Ok 'a | Err shim_err | Panic

record checkpoint_config =
  cc_WorkDir :: string
  cc_Path :: string
  cc_Exit :: bool
  cc_AllowOpenTCP :: bool
  cc_AllowExternalUnixSockets :: bool
  cc_AllowTerminal :: bool
  cc_FileLocks :: bool
  cc_EmptyNamespaces :: "string list"

record checkpoint_opts =
  co_WorkDir :: string
  co_ImagePath :: string
  co_AllowOpenTCP :: bool
  co_AllowExternalUnixSockets :: bool
  co_AllowTerminal :: bool
  co_FileLocks :: bool
  co_EmptyNamespaces :: "string list"

record 'w rt =
  rt_Start :: "string \<Rightarrow> 'w \<Rightarrow> go_err option \<times> 'w"
  rt_Delete :: "string \<Rightarrow> 'w \<Rightarrow> go_err option \<times> 'w"
  rt_Pause :: "string \<Rightarrow> 'w \<Rightarrow> go_err option \<times> 'w"
  rt_Resume :: "string \<Rightarrow> 'w \<Rightarrow> go_err option \<times> 'w"
  rt_Kill :: "string \<Rightarrow> nat \<Rightarrow> bool \<Rightarrow> 'w \<Rightarrow> go_err option \<times> 'w"
  rt_Update :: "string \<Rightarrow> string \<Rightarrow> 'w \<Rightarrow> go_err option \<times> 'w"
  rt_Checkpoint :: "string \<Rightarrow> checkpoint_opts \<Rightarrow> bool \<Rightarrow> 'w \<Rightarrow> go_err option \<times> 'w"
  rt_Restore :: "string \<Rightarrow> string \<Rightarrow> restore_opts \<Rightarrow> 'w \<Rightarrow> go_err option \<times> 'w"
  rt_Exec :: "string \<Rightarrow> string \<Rightarrow> 'w \<Rightarrow> go_err option \<times> 'w"
  rt_Unmarshal :: "string \<Rightarrow> go_err option"
  rt_lastError :: "'w \<Rightarrow> (go_err, string) res"
  rt_text :: "go_err \<Rightarrow> string"
  rt_NewSocket :: "'w \<Rightarrow> go_err option \<times> 'w"
  rt_OpenFifo :: "string \<Rightarrow> 'w \<Rightarrow> go_err option \<times> 'w"
  rt_ReceiveMaster :: "'w \<Rightarrow> go_err option \<times> 'w"
  rt_CopyConsole :: "'w \<Rightarrow> go_err option \<times> 'w"
  rt_CopyIO :: "'w \<Rightarrow> go_err option \<times> 'w"
  rt_CreateIO :: "'w \<Rightarrow> go_err option \<times> 'w"
  rt_ReadPidFile :: "string \<Rightarrow> 'w \<Rightarrow> (go_err, int) res"
  rt_Unmount :: "string \<Rightarrow> 'w \<Rightarrow> go_err option \<times> 'w"
  rt_CloseIO :: "'w \<Rightarrow> 'w"
  rt_RemoveAll :: "string \<Rightarrow> 'w \<Rightarrow> 'w"
  rt_CopyFile :: "string \<Rightarrow> string \<Rightarrow> 'w \<Rightarrow> 'w"
  rt_kill_pid :: "int \<Rightarrow> nat \<Rightarrow> 'w \<Rightarrow> go_err option \<times> 'w"

type_synonym ('a, 'p, 'w) shim_op = "'p \<Rightarrow> 'w \<Rightarrow> 'a outcome \<times> 'p \<times> 'w"

section \<open>Helpers\<close>

definition runtimeError :: "('w, 'z) rt_scheme \<Rightarrow> go_err \<Rightarrow> string \<Rightarrow> 'w \<Rightarrow> shim_err" where
  "runtimeError r e msg w =
    (case rt_lastError r w of
       Inl e' \<Rightarrow> RtErr (msg @ '': unable to retrieve OCI runtime error ('' @ rt_text r e' @ '')'') e
     | Inr rMsg \<Rightarrow> if rMsg = [] then RtErr msg e else Msg (msg @ '': '' @ rMsg))"

definition checkKillError :: "('w, 'z) rt_scheme \<Rightarrow> go_err \<Rightarrow> shim_err" where
  "checkKillError r e =
    (let t = rt_text r e in
     if str_contains t ''os: process already finished'' \<or> str_contains t ''container not running'' \<or>
        str_contains (ToLower t) ''no such process'' \<or> e = Errno ESRCH
     then NotFound ''process already finished''
     else if str_contains t ''does not exist'' then NotFound ''no such container''
     else RtErr ''unknown error after kill'' e)"

text \<open>\<^verbatim>\<open>fmt.Errorf\<close> with a prefix and \<^verbatim>\<open>%w\<close>: the text grows, the kind of the error stays.\<close>

fun wrap_err :: "string \<Rightarrow> shim_err \<Rightarrow> shim_err" where
  "wrap_err pre (Msg m) = Msg (pre @ m)"
| "wrap_err pre (NotFound m) = NotFound (pre @ m)"
| "wrap_err pre (AlreadyExists m) = AlreadyExists (pre @ m)"
| "wrap_err pre (FailedPrecondition m) = FailedPrecondition (pre @ m)"
| "wrap_err pre (RtErr m e) = RtErr (pre @ m) e"
| "wrap_err pre (CriuErr m l) = CriuErr (pre @ m) l"

definition criuError :: "('w, 'z) rt_scheme \<Rightarrow> go_err \<Rightarrow> string" where
  "criuError r e = hd (split_on CHR 0x0A (rt_text r e))"

section \<open>The init process\<close>

definition init_start :: "('w, 'z) rt_scheme \<Rightarrow> (unit, init_proc, 'w) shim_op" where
  "init_start r p w =
    (case rt_Start r (ip_id p) w of
       (None, w') \<Rightarrow> (Ok (), p, w')
     | (Some e, w') \<Rightarrow> (Err (runtimeError r e ''OCI runtime start failed'' w'), p, w'))"

definition init_delete :: "('w, 'z) rt_scheme \<Rightarrow> (unit, init_proc, 'w) shim_op" where
  "init_delete r p w =
    (case rt_Delete r (ip_id p) w of (e0, w1) \<Rightarrow>
     (let err = (case e0 of None \<Rightarrow> None
                 | Some e \<Rightarrow> if str_contains (rt_text r e) ''does not exist'' then None
                             else Some (runtimeError r e ''failed to delete task'' w1));
          w2 = (if ip_hasIO p then rt_CloseIO r w1 else w1)
      in case rt_Unmount r (ip_Rootfs p) w2 of
           (None, w3) \<Rightarrow> ((case err of None \<Rightarrow> Ok () | Some e \<Rightarrow> Err e), p, w3)
         | (Some e2, w3) \<Rightarrow>
             ((case err of None \<Rightarrow> Err (RtErr ''failed rootfs umount'' e2) | Some e \<Rightarrow> Err e), p, w3)))"

definition init_kill :: "('w, 'z) rt_scheme \<Rightarrow> nat \<Rightarrow> bool \<Rightarrow> (unit, init_proc, 'w) shim_op" where
  "init_kill r sig all p w =
    (case rt_Kill r (ip_id p) sig all w of
       (None, w') \<Rightarrow> (Ok (), p, w') | (Some e, w') \<Rightarrow> (Err (checkKillError r e), p, w'))"

definition init_KillAll :: "('w, 'z) rt_scheme \<Rightarrow> (unit, init_proc, 'w) shim_op" where
  "init_KillAll r p w =
    (case rt_Kill r (ip_id p) 9 True w of
       (None, w') \<Rightarrow> (Ok (), p, w')
     | (Some e, w') \<Rightarrow> (Err (runtimeError r e ''OCI runtime killall failed'' w'), p, w'))"

text \<open>\<^verbatim>\<open>update\<close> with the JSON of the resources\<close>

definition init_update :: "('w, 'z) rt_scheme \<Rightarrow> string \<Rightarrow> (unit, init_proc, 'w) shim_op" where
  "init_update r res p w =
    (case rt_Unmarshal r res of
       Some e \<Rightarrow> (Err (RtErr [] e), p, w)
     | None \<Rightarrow>
         (case rt_Update r (ip_id p) res w of
            (None, w') \<Rightarrow> (Ok (), p, w') | (Some e, w') \<Rightarrow> (Err (RtErr [] e), p, w')))"

definition init_checkpoint :: "('w, 'z) rt_scheme \<Rightarrow> checkpoint_config \<Rightarrow> (unit, init_proc, 'w) shim_op" where
  "init_checkpoint r cf p w =
    (let work = (if cc_WorkDir cf = [] then Join [ip_WorkDir p, ''criu-work''] else cc_WorkDir cf);
         cleanup = (\<lambda>w. if cc_WorkDir cf = [] then rt_RemoveAll r work w else w);
         opts = \<lparr>co_WorkDir = work, co_ImagePath = cc_Path cf, co_AllowOpenTCP = cc_AllowOpenTCP cf,
                 co_AllowExternalUnixSockets = cc_AllowExternalUnixSockets cf, co_AllowTerminal = cc_AllowTerminal cf,
                 co_FileLocks = cc_FileLocks cf, co_EmptyNamespaces = cc_EmptyNamespaces cf\<rparr>
     in case rt_Checkpoint r (ip_id p) opts (\<not> cc_Exit cf) w of
          (None, w1) \<Rightarrow> (Ok (), p, cleanup w1)
        | (Some e, w1) \<Rightarrow>
            (let dumpLog = Join [ip_Bundle p, ''criu-dump.log''] in
             (Err (CriuErr (criuError r e) dumpLog), p, cleanup (rt_CopyFile r dumpLog (Join [work, ''dump.log'']) w1))))"

definition init_setExited :: "int \<Rightarrow> init_proc \<Rightarrow> unit outcome \<times> init_proc" where
  "init_setExited st p =
    (let p' = p\<lparr>ip_exited := True, ip_status := st\<rparr> in
     if ip_waitClosed p then (Panic, p') else (Ok (), p'\<lparr>ip_waitClosed := True\<rparr>))"

definition createCheckpointedState :: "string \<Rightarrow> string \<Rightarrow> init_proc \<Rightarrow> init_proc" where
  "createCheckpointedState checkpoint parent p =
    p\<lparr>ip_state := ICreatedCheckpoint (RestoreOpts checkpoint (ip_CriuWorkPath p) parent
        (Join [ip_Bundle p, ''init.pid'']) (ip_NoPivotRoot p) True True False)\<rparr>"

definition init_openStdin :: "('w, 'z) rt_scheme \<Rightarrow> string \<Rightarrow> (unit, init_proc, 'w) shim_op" where
  "init_openStdin r path p w =
    (case rt_OpenFifo r path w of
       (None, w') \<Rightarrow> (Ok (), p\<lparr>ip_stdin := True\<rparr>, w')
     | (Some e, w') \<Rightarrow> (Err (RtErr (''failed to open stdin fifo '' @ path) e), p, w'))"

text \<open>A chain of fallible steps\<close>

definition sh_bind :: "('a, 'p, 'w) shim_op \<Rightarrow> ('a \<Rightarrow> ('b, 'p, 'w) shim_op) \<Rightarrow> ('b, 'p, 'w) shim_op" where
  "sh_bind m f p w =
    (case m p w of
       (Ok a, p', w') \<Rightarrow> f a p' w' | (Err e, p', w') \<Rightarrow> (Err e, p', w') | (Panic, p', w') \<Rightarrow> (Panic, p', w'))"

definition sh_call :: "string \<Rightarrow> ('w \<Rightarrow> go_err option \<times> 'w) \<Rightarrow> (unit, 'p, 'w) shim_op" where
  "sh_call msg f p w = (case f w of (None, w') \<Rightarrow> (Ok (), p, w') | (Some e, w') \<Rightarrow> (Err (RtErr msg e), p, w'))"

definition sh_when :: "bool \<Rightarrow> (unit, 'p, 'w) shim_op \<Rightarrow> (unit, 'p, 'w) shim_op" where
  "sh_when b m p w = (if b then m p w else (Ok (), p, w))"

definition restore_call :: "('w, 'z) rt_scheme \<Rightarrow> restore_opts \<Rightarrow> (unit, init_proc, 'w) shim_op" where
  "restore_call r opts p w =
    (case rt_Restore r (ip_id p) (ip_Bundle p) opts w of
       (None, w') \<Rightarrow> (Ok (), p, w')
     | (Some e, w') \<Rightarrow> (Err (runtimeError r e ''OCI runtime restore failed'' w'), p, w'))"

definition read_pid :: "('w, 'z) rt_scheme \<Rightarrow> string \<Rightarrow> (unit, init_proc, 'w) shim_op" where
  "read_pid r file p w =
    (case rt_ReadPidFile r file w of
       Inl e \<Rightarrow> (Err (RtErr ''failed to retrieve OCI runtime container pid'' e), p, w)
     | Inr pid \<Rightarrow> (Ok (), p\<lparr>ip_pid := pid, ip_state := IRunning\<rparr>, w))"

text \<open>\<^verbatim>\<open>createdCheckpointState.Start\<close>: the restore of a checkpointed task\<close>

definition checkpoint_start :: "('w, 'z) rt_scheme \<Rightarrow> restore_opts \<Rightarrow> (unit, init_proc, 'w) shim_op" where
  "checkpoint_start r opts p w =
    (let term = sio_Terminal (ip_stdio p);
         opts' = (if term then RestoreOpts (ro_ImagePath opts) (ro_WorkDir opts) (ro_ParentPath opts) (ro_PidFile opts)
                    (ro_NoPivot opts) (ro_Detach opts) (ro_NoSubreaper opts) True else opts)
     in sh_bind (sh_when term (sh_call ''failed to create OCI runtime console socket'' (rt_NewSocket r))) (\<lambda>_.
        sh_bind (restore_call r opts') (\<lambda>_.
        sh_bind (sh_when (sio_Stdin (ip_stdio p) \<noteq> []) (init_openStdin r (sio_Stdin (ip_stdio p)))) (\<lambda>_.
        sh_bind (if term then
                   sh_bind (sh_call ''failed to retrieve console master'' (rt_ReceiveMaster r)) (\<lambda>_.
                   sh_bind (sh_call ''failed to start console copy'' (rt_CopyConsole r)) (\<lambda>_ p w.
                     (Ok (), p\<lparr>ip_console := True\<rparr>, w)))
                 else sh_call ''failed to start io pipe copy'' (rt_CopyIO r)) (\<lambda>_.
        read_pid r (ro_PidFile opts))))) p w)"

section \<open>The operations of each state\<close>

definition fail_msg :: "string \<Rightarrow> ('a, 'p, 'w) shim_op" where
  "fail_msg m p w = (Err (Msg m), p, w)"

definition goto :: "init_state \<Rightarrow> (unit, init_proc, 'w) shim_op" where
  "goto st p w = (Ok (), p\<lparr>ip_state := st\<rparr>, w)"

definition task_Start :: "('w, 'z) rt_scheme \<Rightarrow> (unit, init_proc, 'w) shim_op" where
  "task_Start r p w =
    (case ip_state p of
       ICreated \<Rightarrow> sh_bind (init_start r) (\<lambda>_. goto IRunning) p w
     | ICreatedCheckpoint opts \<Rightarrow> checkpoint_start r opts p w
     | IRunning \<Rightarrow> fail_msg ''cannot start a running process'' p w
     | IPaused \<Rightarrow> fail_msg ''cannot start a paused process'' p w
     | IStopped \<Rightarrow> fail_msg ''cannot start a stopped process'' p w
     | IDeleted \<Rightarrow> fail_msg ''cannot start a deleted process'' p w)"

definition task_Delete :: "('w, 'z) rt_scheme \<Rightarrow> (unit, init_proc, 'w) shim_op" where
  "task_Delete r p w =
    (case ip_state p of
       ICreated \<Rightarrow> sh_bind (init_delete r) (\<lambda>_. goto IDeleted) p w
     | ICreatedCheckpoint _ \<Rightarrow> sh_bind (init_delete r) (\<lambda>_. goto IDeleted) p w
     | IRunning \<Rightarrow> fail_msg ''cannot delete a running process'' p w
     | IPaused \<Rightarrow> fail_msg ''cannot delete a paused process'' p w
     | IStopped \<Rightarrow> sh_bind (init_delete r) (\<lambda>_. goto IDeleted) p w
     | IDeleted \<Rightarrow> (Err (NotFound ''cannot delete a deleted process''), p, w))"

text \<open>The flag \<^verbatim>\<open>pausing\<close> is set for the time of the runtime call and reset by the deferred store.\<close>

definition task_Pause :: "('w, 'z) rt_scheme \<Rightarrow> (unit, init_proc, 'w) shim_op" where
  "task_Pause r p w =
    (case ip_state p of
       ICreated \<Rightarrow> fail_msg ''cannot pause task in created state'' p w
     | ICreatedCheckpoint _ \<Rightarrow> fail_msg ''cannot pause task in created state'' p w
     | IRunning \<Rightarrow>
         (let p1 = p\<lparr>ip_pausing := True\<rparr> in
          case rt_Pause r (ip_id p1) w of
            (Some e, w') \<Rightarrow> (Err (runtimeError r e ''OCI runtime pause failed'' w'), p1\<lparr>ip_pausing := False\<rparr>, w')
          | (None, w') \<Rightarrow> (Ok (), (p1\<lparr>ip_state := IPaused\<rparr>)\<lparr>ip_pausing := False\<rparr>, w'))
     | IPaused \<Rightarrow> fail_msg ''cannot pause a paused container'' p w
     | IStopped \<Rightarrow> fail_msg ''cannot pause a stopped container'' p w
     | IDeleted \<Rightarrow> fail_msg ''cannot pause a deleted process'' p w)"

definition task_Resume :: "('w, 'z) rt_scheme \<Rightarrow> (unit, init_proc, 'w) shim_op" where
  "task_Resume r p w =
    (case ip_state p of
       ICreated \<Rightarrow> fail_msg ''cannot resume task in created state'' p w
     | ICreatedCheckpoint _ \<Rightarrow> fail_msg ''cannot resume task in created state'' p w
     | IRunning \<Rightarrow> fail_msg ''cannot resume a running process'' p w
     | IPaused \<Rightarrow>
         (case rt_Resume r (ip_id p) w of
            (Some e, w') \<Rightarrow> (Err (runtimeError r e ''OCI runtime resume failed'' w'), p, w')
          | (None, w') \<Rightarrow> goto IRunning p w')
     | IStopped \<Rightarrow> fail_msg ''cannot resume a stopped container'' p w
     | IDeleted \<Rightarrow> fail_msg ''cannot resume a deleted process'' p w)"

definition task_Update :: "('w, 'z) rt_scheme \<Rightarrow> string \<Rightarrow> (unit, init_proc, 'w) shim_op" where
  "task_Update r res p w =
    (case ip_state p of
       IStopped \<Rightarrow> fail_msg ''cannot update a stopped container'' p w
     | IDeleted \<Rightarrow> fail_msg ''cannot update a deleted process'' p w
     | _ \<Rightarrow> init_update r res p w)"

definition task_Checkpoint :: "('w, 'z) rt_scheme \<Rightarrow> checkpoint_config \<Rightarrow> (unit, init_proc, 'w) shim_op" where
  "task_Checkpoint r cf p w =
    (case ip_state p of
       ICreated \<Rightarrow> fail_msg ''cannot checkpoint a task in created state'' p w
     | ICreatedCheckpoint _ \<Rightarrow> fail_msg ''cannot checkpoint a task in created state'' p w
     | IRunning \<Rightarrow> init_checkpoint r cf p w
     | IPaused \<Rightarrow> init_checkpoint r cf p w
     | IStopped \<Rightarrow> fail_msg ''cannot checkpoint a stopped container'' p w
     | IDeleted \<Rightarrow> fail_msg ''cannot checkpoint a deleted process'' p w)"

definition task_Kill :: "('w, 'z) rt_scheme \<Rightarrow> nat \<Rightarrow> bool \<Rightarrow> (unit, init_proc, 'w) shim_op" where
  "task_Kill r sig all p w =
    (case ip_state p of
       IDeleted \<Rightarrow> (Err (NotFound ''cannot kill a deleted process''), p, w)
     | _ \<Rightarrow> init_kill r sig all p w)"

text \<open>SetExited: the exit is recorded and the waiters released; a paused container is resumed so that it
  can be deleted. \<^verbatim>\<open>close\<close> of a closed channel panics.\<close>

definition task_SetExited :: "('w, 'z) rt_scheme \<Rightarrow> int \<Rightarrow> (unit, init_proc, 'w) shim_op" where
  "task_SetExited r st p w =
    (case ip_state p of
       IStopped \<Rightarrow> (Ok (), p, w)
     | IDeleted \<Rightarrow> (Ok (), p, w)
     | s \<Rightarrow>
         (case init_setExited st p of
            (Ok _, p1) \<Rightarrow>
              (let w1 = (if s = IPaused then snd (rt_Resume r (ip_id p1) w) else w) in goto IStopped p1 w1)
          | (Err e, p1) \<Rightarrow> (Err e, p1, w)
          | (Panic, p1) \<Rightarrow> (Panic, p1, w)))"

definition task_Status :: "init_proc \<Rightarrow> string" where
  "task_Status p =
    (if ip_pausing p then ''pausing''
     else case ip_state p of
       ICreated \<Rightarrow> ''created'' | ICreatedCheckpoint _ \<Rightarrow> ''created'' | IRunning \<Rightarrow> ''running''
     | IPaused \<Rightarrow> ''paused'' | IStopped \<Rightarrow> ''stopped'' | IDeleted \<Rightarrow> ''stopped'')"

section \<open>Exec processes\<close>

datatype exec_state = ECreated | ERunning | EStopped | EDeleted

record exec_proc =
  ep_state :: exec_state
  ep_id :: string
  ep_path :: string
  ep_spec :: string
  ep_status :: int
  ep_exited :: bool
  ep_pid :: int
  ep_waitClosed :: bool
  ep_hasIO :: bool
  ep_console :: bool
  ep_stdio :: stdio

definition new_exec :: "string \<Rightarrow> string \<Rightarrow> string \<Rightarrow> stdio \<Rightarrow> exec_proc" where
  "new_exec i path spec sio =
    \<lparr>ep_state = ECreated, ep_id = i, ep_path = path, ep_spec = spec, ep_status = 0, ep_exited = False, ep_pid = 0,
     ep_waitClosed = False, ep_hasIO = False, ep_console = False, ep_stdio = sio\<rparr>"

definition task_Exec :: "('w, 'z) rt_scheme \<Rightarrow> string \<Rightarrow> string \<Rightarrow> string \<Rightarrow> stdio \<Rightarrow> (exec_proc, init_proc, 'w) shim_op" where
  "task_Exec r i path spec sio p w =
    (case ip_state p of
       ICreatedCheckpoint _ \<Rightarrow> fail_msg ''cannot exec in a created state'' p w
     | IPaused \<Rightarrow> fail_msg ''cannot exec in a paused state'' p w
     | IStopped \<Rightarrow> fail_msg ''cannot exec in a stopped state'' p w
     | IDeleted \<Rightarrow> fail_msg ''cannot exec in a deleted state'' p w
     | _ \<Rightarrow>
         (case rt_Unmarshal r spec of
            Some e \<Rightarrow> (Err (RtErr [] e), p, w)
          | None \<Rightarrow> (Ok (new_exec i path spec sio), p, w)))"

text \<open>A failed runtime call closes the wait channel before it returns; \<^verbatim>\<open>close\<close> panics when it is closed.\<close>

definition exec_call :: "('w, 'z) rt_scheme \<Rightarrow> string \<Rightarrow> (unit, exec_proc, 'w) shim_op" where
  "exec_call r cid e w =
    (case rt_Exec r cid (ep_spec e) w of
       (None, w') \<Rightarrow> (Ok (), e, w')
     | (Some er, w') \<Rightarrow>
         if ep_waitClosed e then (Panic, e, w')
         else (Err (runtimeError r er ''OCI runtime exec failed'' w'), e\<lparr>ep_waitClosed := True\<rparr>, w'))"

definition exec_read_pid :: "('w, 'z) rt_scheme \<Rightarrow> (unit, exec_proc, 'w) shim_op" where
  "exec_read_pid r e w =
    (case rt_ReadPidFile r (Join [ep_path e, ep_id e @ ''.pid'']) w of
       Inl er \<Rightarrow> (Err (RtErr ''failed to retrieve OCI runtime exec pid'' er), e, w)
     | Inr pid \<Rightarrow> (Ok (), e\<lparr>ep_pid := pid\<rparr>, w))"

definition exec_start :: "('w, 'z) rt_scheme \<Rightarrow> string \<Rightarrow> (unit, exec_proc, 'w) shim_op" where
  "exec_start r cid e w =
    (let term = sio_Terminal (ep_stdio e) in
     sh_bind (if term then sh_call ''failed to create runc console socket'' (rt_NewSocket r)
              else sh_bind (sh_call ''failed to create init process I/O'' (rt_CreateIO r)) (\<lambda>_ e w. (Ok (), e\<lparr>ep_hasIO := True\<rparr>, w))) (\<lambda>_.
     sh_bind (exec_call r cid) (\<lambda>_.
     sh_bind (sh_when (sio_Stdin (ep_stdio e) \<noteq> []) (sh_call ''failed to open stdin fifo'' (rt_OpenFifo r (sio_Stdin (ep_stdio e))))) (\<lambda>_.
     sh_bind (if term then
                sh_bind (sh_call ''failed to retrieve console master'' (rt_ReceiveMaster r)) (\<lambda>_.
                sh_bind (sh_call ''failed to start console copy'' (rt_CopyConsole r)) (\<lambda>_ e w. (Ok (), e\<lparr>ep_console := True\<rparr>, w)))
              else sh_call ''failed to start io pipe copy'' (rt_CopyIO r)) (\<lambda>_.
     exec_read_pid r)))) e w)"

definition exec_Start :: "('w, 'z) rt_scheme \<Rightarrow> string \<Rightarrow> (unit, exec_proc, 'w) shim_op" where
  "exec_Start r cid e w =
    (case ep_state e of
       ECreated \<Rightarrow> sh_bind (exec_start r cid) (\<lambda>_ e w. (Ok (), e\<lparr>ep_state := ERunning\<rparr>, w)) e w
     | ERunning \<Rightarrow> fail_msg ''cannot start a running process'' e w
     | EStopped \<Rightarrow> fail_msg ''cannot start a stopped process'' e w
     | EDeleted \<Rightarrow> fail_msg ''cannot start a deleted process'' e w)"

definition exec_delete :: "('w, 'z) rt_scheme \<Rightarrow> exec_proc \<Rightarrow> 'w \<Rightarrow> 'w" where
  "exec_delete r e w =
    rt_RemoveAll r (Join [ep_path e, ep_id e @ ''.pid'']) (if ep_hasIO e then rt_CloseIO r w else w)"

definition exec_Delete :: "('w, 'z) rt_scheme \<Rightarrow> (unit, exec_proc, 'w) shim_op" where
  "exec_Delete r e w =
    (case ep_state e of
       ERunning \<Rightarrow> fail_msg ''cannot delete a running process'' e w
     | EDeleted \<Rightarrow> (Err (NotFound ''cannot delete a deleted process''), e, w)
     | _ \<Rightarrow> (Ok (), e\<lparr>ep_state := EDeleted\<rparr>, exec_delete r e w))"

definition exec_kill :: "('w, 'z) rt_scheme \<Rightarrow> nat \<Rightarrow> (unit, exec_proc, 'w) shim_op" where
  "exec_kill r sig e w =
    (if ep_pid e = 0 then (Err (FailedPrecondition ''process not created''), e, w)
     else if ep_exited e then (Err (NotFound ''process already finished''), e, w)
     else case rt_kill_pid r (ep_pid e) sig w of
       (None, w') \<Rightarrow> (Ok (), e, w')
     | (Some er, w') \<Rightarrow> (Err (wrap_err ''exec kill error: '' (checkKillError r er)), e, w'))"

definition exec_Kill :: "('w, 'z) rt_scheme \<Rightarrow> nat \<Rightarrow> (unit, exec_proc, 'w) shim_op" where
  "exec_Kill r sig e w =
    (case ep_state e of
       EDeleted \<Rightarrow> (Err (NotFound ''cannot kill a deleted process''), e, w)
     | _ \<Rightarrow> exec_kill r sig e w)"

definition exec_SetExited :: "int \<Rightarrow> (unit, exec_proc, 'w) shim_op" where
  "exec_SetExited st e w =
    (case ep_state e of
       EStopped \<Rightarrow> (Ok (), e, w)
     | EDeleted \<Rightarrow> (Ok (), e, w)
     | _ \<Rightarrow>
         (let e' = e\<lparr>ep_status := st, ep_exited := True\<rparr> in
          if ep_waitClosed e then (Panic, e', w)
          else (Ok (), e'\<lparr>ep_waitClosed := True, ep_state := EStopped\<rparr>, w)))"

definition exec_Status :: "init_proc \<Rightarrow> exec_proc \<Rightarrow> string" where
  "exec_Status parent e =
    (let s = task_Status parent in
     if s = ''paused'' \<or> s = ''pausing'' then s
     else case ep_state e of
       ECreated \<Rightarrow> ''created'' | ERunning \<Rightarrow> ''running'' | EStopped \<Rightarrow> ''stopped'' | EDeleted \<Rightarrow> ''stopped'')"

section \<open>The task as a state machine\<close>

definition new_task :: "string \<Rightarrow> string \<Rightarrow> stdio \<Rightarrow> init_proc" where
  "new_task i bundle sio =
    \<lparr>ip_state = ICreated, ip_id = i, ip_Bundle = bundle, ip_WorkDir = [], ip_CriuWorkPath = [], ip_Rootfs = [],
     ip_NoPivotRoot = False, ip_NoNewKeyring = False, ip_pausing = False, ip_status = 0, ip_exited = False, ip_pid = 0, ip_waitClosed = False,
     ip_hasIO = False, ip_console = False, ip_stdin = False, ip_stdio = sio\<rparr>"

text \<open>The requests of the shim service and the exit event of the reaper; each is one step.\<close>

datatype task_req =
    RStart | RDelete | RPause | RResume | RUpdate string | RCheckpoint checkpoint_config | RKill nat bool | RKillAll | RExited int

fun task_do :: "('w, 'z) rt_scheme \<Rightarrow> task_req \<Rightarrow> (unit, init_proc, 'w) shim_op" where
  "task_do r RStart = task_Start r"
| "task_do r RDelete = task_Delete r"
| "task_do r RPause = task_Pause r"
| "task_do r RResume = task_Resume r"
| "task_do r (RUpdate res) = task_Update r res"
| "task_do r (RCheckpoint cf) = task_Checkpoint r cf"
| "task_do r (RKill sig all) = task_Kill r sig all"
| "task_do r RKillAll = init_KillAll r"
| "task_do r (RExited st) = task_SetExited r st"

inductive tstep :: "('w, 'z) rt_scheme \<Rightarrow> init_proc \<times> 'w \<Rightarrow> init_proc \<times> 'w \<Rightarrow> bool" for r where
  request: "task_do r q p w = (res, p', w') \<Longrightarrow> tstep r (p, w) (p', w')"
| environment: "tstep r (p, w) (p, w')"

inductive_simps tstep_iff: "tstep r (p, w) (p', w')"

text \<open>The waiters are released exactly when the exit is recorded, a live state has no recorded exit and a
  stopped one has, and no request leaves the pausing flag set.\<close>

definition live :: "init_state \<Rightarrow> bool" where
  "live s \<longleftrightarrow> s \<noteq> IStopped \<and> s \<noteq> IDeleted"

definition task_ok :: "init_proc \<Rightarrow> bool" where
  "task_ok p \<longleftrightarrow> \<not> ip_pausing p \<and> ip_waitClosed p = ip_exited p \<and> (live (ip_state p) \<longrightarrow> \<not> ip_exited p) \<and>
     (ip_state p = IStopped \<longrightarrow> ip_exited p)"

lemma live_simps [simp]:
  "live ICreated" "live (ICreatedCheckpoint x)" "live IRunning" "live IPaused" "\<not> live IStopped" "\<not> live IDeleted"
  by (simp_all add: live_def)

text \<open>A steady operation changes neither the state nor the wait channel, the recorded exit and the pausing
  flag; a moving one may, from a live state, go to another live state or to the deleted one.\<close>

definition same_marks :: "init_proc \<Rightarrow> init_proc \<Rightarrow> bool" where
  "same_marks p p' \<longleftrightarrow> ip_waitClosed p' = ip_waitClosed p \<and> ip_exited p' = ip_exited p \<and> ip_pausing p' = ip_pausing p"

definition steady :: "(unit, init_proc, 'w) shim_op \<Rightarrow> bool" where
  "steady m \<longleftrightarrow> (\<forall>p w a p' w'. m p w = (a, p', w') \<longrightarrow> same_marks p p' \<and> ip_state p' = ip_state p \<and> a \<noteq> Panic)"

definition moving :: "(unit, init_proc, 'w) shim_op \<Rightarrow> bool" where
  "moving m \<longleftrightarrow> (\<forall>p w a p' w'. m p w = (a, p', w') \<longrightarrow> live (ip_state p) \<longrightarrow>
     same_marks p p' \<and> (live (ip_state p') \<or> ip_state p' = IDeleted) \<and> a \<noteq> Panic)"

lemma same_marks_trans: "same_marks p q \<Longrightarrow> same_marks q u \<Longrightarrow> same_marks p u"
  by (simp add: same_marks_def)

lemma steady_moving: "steady m \<Longrightarrow> moving m"
  by (fastforce simp: steady_def moving_def)

lemma steady_bind:
  assumes "steady m" and "\<And>a. steady (f a)"
  shows "steady (sh_bind m f)"
  unfolding steady_def
proof (intro allI impI)
  fix p w a p' w' assume run: "sh_bind m f p w = (a, p', w')"
  obtain b p1 w1 where m: "m p w = (b, p1, w1)" by (cases "m p w")
  then have 1: "same_marks p p1" "ip_state p1 = ip_state p" "b \<noteq> Panic" using assms(1) unfolding steady_def by blast+
  show "same_marks p p' \<and> ip_state p' = ip_state p \<and> a \<noteq> Panic"
  proof (cases b)
    case (Ok x)
    then have "f x p1 w1 = (a, p', w')" using run m by (simp add: sh_bind_def)
    then have "same_marks p1 p'" "ip_state p' = ip_state p1" "a \<noteq> Panic" using assms(2) unfolding steady_def by blast+
    then show ?thesis using 1 by (auto intro: same_marks_trans)
  qed (use run m 1 in \<open>auto simp: sh_bind_def\<close>)
qed

lemma moving_bind:
  assumes "steady m" and "\<And>a. moving (f a)"
  shows "moving (sh_bind m f)"
  unfolding moving_def
proof (intro allI impI)
  fix p w a p' w' assume run: "sh_bind m f p w = (a, p', w')" and l: "live (ip_state p)"
  obtain b p1 w1 where m: "m p w = (b, p1, w1)" by (cases "m p w")
  then have 1: "same_marks p p1" "ip_state p1 = ip_state p" "b \<noteq> Panic" using assms(1) unfolding steady_def by blast+
  show "same_marks p p' \<and> (live (ip_state p') \<or> ip_state p' = IDeleted) \<and> a \<noteq> Panic"
  proof (cases b)
    case (Ok x)
    then have "f x p1 w1 = (a, p', w')" using run m by (simp add: sh_bind_def)
    then have "same_marks p1 p'" "live (ip_state p') \<or> ip_state p' = IDeleted" "a \<noteq> Panic"
      using assms(2) 1(2) l unfolding moving_def by metis+
    then show ?thesis using 1 same_marks_trans by blast
  qed (use run m 1 l in \<open>auto simp: sh_bind_def\<close>)
qed

lemma steady_basic [simp]:
  "steady (sh_call msg g)" "steady (init_start r)" "steady (init_delete r)" "steady (init_kill r sig all)"
  "steady (init_KillAll r)" "steady (init_update r res)" "steady (init_checkpoint r cf)"
  "steady (init_openStdin r path)" "steady (restore_call r opts)" "steady (fail_msg msg)"
  "steady (\<lambda>p w. (Ok (), p\<lparr>ip_console := True\<rparr>, w))"
  by (auto simp: steady_def sh_call_def init_start_def init_delete_def init_kill_def init_KillAll_def init_update_def
      init_checkpoint_def init_openStdin_def restore_call_def fail_msg_def same_marks_def Let_def
      split: prod.splits option.splits)

lemma steady_when: "steady m \<Longrightarrow> steady (sh_when b m)"
  by (auto simp: steady_def sh_when_def same_marks_def)

lemma moving_basic [simp]: "moving (read_pid r file)" "moving (goto IRunning)" "moving (goto IDeleted)"
  by (auto simp: moving_def read_pid_def goto_def same_marks_def split: sum.splits)

lemma moving_checkpoint_start: "moving (checkpoint_start r opts)"
proof -
  have "steady (if t then sh_bind (sh_call a (rt_ReceiveMaster r)) (\<lambda>_. sh_bind (sh_call b (rt_CopyConsole r))
      (\<lambda>_ p w. (Ok (), p\<lparr>ip_console := True\<rparr>, w))) else sh_call d (rt_CopyIO r))" for t a b d
    by (simp add: steady_bind)
  then have "moving (\<lambda>p w. sh_bind (sh_when t (sh_call a (rt_NewSocket r))) (\<lambda>_. sh_bind (restore_call r o1) (\<lambda>_.
      sh_bind (sh_when u (init_openStdin r v)) (\<lambda>_. sh_bind
        (if t then sh_bind (sh_call b (rt_ReceiveMaster r)) (\<lambda>_. sh_bind (sh_call c (rt_CopyConsole r))
          (\<lambda>_ p w. (Ok (), p\<lparr>ip_console := True\<rparr>, w))) else sh_call d (rt_CopyIO r)) (\<lambda>_. read_pid r f)))) p w)"
    for t a o1 u v b c d f by (intro moving_bind steady_when steady_basic moving_basic)
  then show ?thesis unfolding moving_def checkpoint_start_def Let_def by blast
qed

definition safe_res :: "unit outcome \<times> init_proc \<times> 'w \<Rightarrow> bool" where
  "safe_res x \<longleftrightarrow> task_ok (fst (snd x)) \<and> fst x \<noteq> Panic"

lemma safe_steady: "steady m \<Longrightarrow> task_ok p \<Longrightarrow> safe_res (m p w)"
  by (cases "m p w") (metis safe_res_def steady_def task_ok_def same_marks_def fst_conv snd_conv)

lemma safe_moving: "moving m \<Longrightarrow> task_ok p \<Longrightarrow> live (ip_state p) \<Longrightarrow> safe_res (m p w)"
proof -
  assume m: "moving m" and ok: "task_ok p" and l: "live (ip_state p)"
  obtain a p' w' where run: "m p w = (a, p', w')" by (cases "m p w")
  then have "same_marks p p'" "live (ip_state p') \<or> ip_state p' = IDeleted" "a \<noteq> Panic"
    using m l unfolding moving_def by blast+
  then show ?thesis using ok l run by (auto simp: safe_res_def task_ok_def same_marks_def)
qed

lemmas safe_basic = steady_basic [THEN safe_steady] moving_checkpoint_start [THEN safe_moving]

lemma safe_start: "task_ok p \<Longrightarrow> live (ip_state p) \<Longrightarrow> safe_res (sh_bind (init_start r) (\<lambda>_. goto IRunning) p w)"
  by (rule safe_moving) (simp_all add: moving_bind)

lemma safe_delete:
  assumes "task_ok p"
  shows "safe_res (sh_bind (init_delete r) (\<lambda>_. goto IDeleted) p w)"
proof -
  obtain b p1 w1 where m: "init_delete r p w = (b, p1, w1)" by (cases "init_delete r p w")
  then have "task_ok p1 \<and> b \<noteq> Panic" using safe_basic(3) [OF assms, of r w] by (simp add: safe_res_def)
  then show ?thesis using m by (cases b) (auto simp: sh_bind_def goto_def task_ok_def safe_res_def)
qed

lemma safe_task_do:
  assumes ok: "task_ok p"
  shows "safe_res (task_do r q p w)"
proof (cases q)
  case RStart
  then show ?thesis
    using safe_start [OF ok] safe_basic(12) [OF ok] by (cases "ip_state p") (simp_all add: task_Start_def safe_basic(10) [OF ok])
next
  case RDelete
  then show ?thesis using ok
    by (cases "ip_state p") (simp_all add: task_Delete_def safe_delete [OF ok] safe_basic(10) [OF ok] safe_res_def [of "(_, _)"])
next
  case RPause
  then show ?thesis
    using ok by (auto simp: task_Pause_def fail_msg_def task_ok_def safe_res_def Let_def split: init_state.splits prod.splits option.splits)
next
  case RResume
  then show ?thesis
    using ok by (auto simp: task_Resume_def fail_msg_def goto_def task_ok_def safe_res_def split: init_state.splits prod.splits option.splits)
next
  case (RUpdate res)
  then show ?thesis by (cases "ip_state p") (simp_all add: task_Update_def safe_basic [OF ok])
next
  case (RCheckpoint cf)
  then show ?thesis by (cases "ip_state p") (simp_all add: task_Checkpoint_def safe_basic(7,10) [OF ok])
next
  case (RKill sig all)
  then show ?thesis using ok
    by (cases "ip_state p") (simp_all add: task_Kill_def safe_basic(4) [OF ok] safe_res_def [of "(_, _)"])
next
  case RKillAll
  then show ?thesis by (simp add: safe_basic(5) [OF ok])
next
  case (RExited st)
  then show ?thesis
    using ok by (cases "ip_state p") (simp_all add: task_SetExited_def init_setExited_def goto_def task_ok_def safe_res_def)
qed

lemma task_ok_ops: "task_ok p \<Longrightarrow> task_do r q p w = (a, p', w') \<Longrightarrow> task_ok p' \<and> a \<noteq> Panic"
  using safe_task_do [of p r q w] by (simp add: safe_res_def)

lemma task_ok_new: "task_ok (new_task i bundle sio)" "task_ok (createCheckpointedState c q (new_task i bundle sio))"
  by (simp_all add: task_ok_def new_task_def createCheckpointedState_def)

lemma task_ok_reach: "(tstep r)\<^sup>*\<^sup>* (p, w) (p', w') \<Longrightarrow> task_ok p \<Longrightarrow> task_ok p'"
proof (induction rule: rtranclp_induct2)
  case (step p1 w1 p2 w2)
  then show ?case using task_ok_ops [of p1 r] unfolding tstep_iff by blast
qed

section \<open>Properties\<close>



text \<open>A chain of steps that succeeds has succeeded at each; one that fails after steady steps is in the state
  it started from.\<close>

lemma sh_bind_Ok:
  assumes "sh_bind m f p w = (Ok b, p', w')"
  obtains a p1 w1 where "m p w = (Ok a, p1, w1)" "f a p1 w1 = (Ok b, p', w')"
  using assms by (auto simp: sh_bind_def split: prod.splits outcome.splits)

definition stays_on_error :: "(unit, init_proc, 'w) shim_op \<Rightarrow> bool" where
  "stays_on_error m \<longleftrightarrow> (\<forall>p w a p' w'. m p w = (a, p', w') \<longrightarrow> a \<noteq> Ok () \<longrightarrow> ip_state p' = ip_state p)"

lemma stays_bind:
  assumes "steady m" and "\<And>a. stays_on_error (f a)"
  shows "stays_on_error (sh_bind m f)"
  unfolding stays_on_error_def
proof (intro allI impI)
  fix p w a p' w' assume run: "sh_bind m f p w = (a, p', w')" and a: "a \<noteq> Ok ()"
  obtain b p1 w1 where m: "m p w = (b, p1, w1)" by (cases "m p w")
  then have 1: "ip_state p1 = ip_state p" using assms(1) unfolding steady_def by blast
  show "ip_state p' = ip_state p"
  proof (cases b)
    case (Ok x)
    then have "f x p1 w1 = (a, p', w')" using run m by (simp add: sh_bind_def)
    then show ?thesis using assms(2) a 1 unfolding stays_on_error_def by metis
  qed (use run m 1 in \<open>auto simp: sh_bind_def\<close>)
qed

lemma stays_read_pid: "stays_on_error (read_pid r f)"
  by (auto simp: stays_on_error_def read_pid_def split: sum.splits)

definition console_steps :: "('w, 'z) rt_scheme \<Rightarrow> bool \<Rightarrow> (unit, init_proc, 'w) shim_op" where
  "console_steps r t =
    (if t then sh_bind (sh_call ''failed to retrieve console master'' (rt_ReceiveMaster r)) (\<lambda>_.
       sh_bind (sh_call ''failed to start console copy'' (rt_CopyConsole r)) (\<lambda>_ p w. (Ok (), p\<lparr>ip_console := True\<rparr>, w)))
     else sh_call ''failed to start io pipe copy'' (rt_CopyIO r))"

lemma steady_console: "steady (console_steps r t)"
  by (simp add: console_steps_def steady_bind)

lemma steady_socket: "steady (sh_when t (sh_call msg f))"
  by (intro steady_when steady_basic)

text \<open>Starting a task from a checkpoint restores it or leaves it created: on success the runtime has
  restored the checkpoint's image into the bundle, the pid file was read and the task is running; on a failure at any
  step the task stays in the created state, from which it can be started again or deleted.\<close>

theorem shim_restore_start:
  assumes "ip_state p = ICreatedCheckpoint opts" and "task_Start r p w = (res, p', w')"
  shows "if res = Ok ()
    then ip_state p' = IRunning \<and>
      (\<exists>opts' w1 w2. ro_ImagePath opts' = ro_ImagePath opts \<and> ro_ParentPath opts' = ro_ParentPath opts \<and>
         rt_Restore r (ip_id p) (ip_Bundle p) opts' w1 = (None, w2) \<and> rt_ReadPidFile r (ro_PidFile opts) w' = Inr (ip_pid p'))
    else ip_state p' = ip_state p"
proof -
  let ?t = "sio_Terminal (ip_stdio p)" and ?in = "sio_Stdin (ip_stdio p)"
  let ?o = "if ?t then RestoreOpts (ro_ImagePath opts) (ro_WorkDir opts) (ro_ParentPath opts) (ro_PidFile opts)
      (ro_NoPivot opts) (ro_Detach opts) (ro_NoSubreaper opts) True else opts"
  let ?sock = "sh_when ?t (sh_call ''failed to create OCI runtime console socket'' (rt_NewSocket r))"
  let ?rest = "sh_bind (sh_when (?in \<noteq> []) (init_openStdin r ?in)) (\<lambda>_. sh_bind (console_steps r ?t) (\<lambda>_. read_pid r (ro_PidFile opts)))"
  have run: "sh_bind ?sock (\<lambda>_. sh_bind (restore_call r ?o) (\<lambda>_. ?rest)) p w = (res, p', w')"
    using assms by (simp add: task_Start_def checkpoint_start_def console_steps_def Let_def)
  have "stays_on_error (sh_bind ?sock (\<lambda>_. sh_bind (restore_call r ?o) (\<lambda>_. ?rest)))"
    by (intro stays_bind steady_when steady_basic steady_console stays_read_pid)
  then have err: "ip_state p' = ip_state p" if "res \<noteq> Ok ()" using run that unfolding stays_on_error_def by blast
  show ?thesis
  proof (cases "res = Ok ()")
    case True
    obtain a0 p0 w1 where "?sock p w = (Ok a0, p0, w1)" and cont: "sh_bind (restore_call r ?o) (\<lambda>_. ?rest) p0 w1 = (Ok (), p', w')"
      using sh_bind_Ok [OF run [unfolded True]] by blast
    then have "p0 = p" by (auto simp: sh_when_def sh_call_def split: if_splits prod.splits option.splits)
    with cont obtain p1 w2 where 1: "restore_call r ?o p w1 = (Ok (), p1, w2)" "?rest p1 w2 = (Ok (), p', w')"
      by (auto elim: sh_bind_Ok)
    from 1(2) obtain p2 w3 where "read_pid r (ro_PidFile opts) p2 w3 = (Ok (), p', w')" by (auto elim!: sh_bind_Ok)
    then have "ip_state p' = IRunning" "rt_ReadPidFile r (ro_PidFile opts) w' = Inr (ip_pid p')"
      by (auto simp: read_pid_def split: sum.splits)
    moreover have "rt_Restore r (ip_id p) (ip_Bundle p) ?o w1 = (None, w2)"
      using 1(1) by (auto simp: restore_call_def split: prod.splits option.splits)
    moreover have "ro_ImagePath ?o = ro_ImagePath opts" "ro_ParentPath ?o = ro_ParentPath opts" by simp_all
    ultimately show ?thesis using True by meson
  qed (use err in simp)
qed

definition ex_rt :: "string list rt" where
  "ex_rt =
    \<lparr>rt_Start = (\<lambda>i w. (None, ''start'' # w)), rt_Delete = (\<lambda>i w. (None, w)), rt_Pause = (\<lambda>i w. (None, w)),
     rt_Resume = (\<lambda>i w. (None, w)), rt_Kill = (\<lambda>i sig all w. (None, w)), rt_Update = (\<lambda>i res w. (None, w)),
     rt_Checkpoint = (\<lambda>i opts leave w. (None, co_ImagePath opts # w)),
     rt_Restore = (\<lambda>i b opts w. (None, ro_ImagePath opts # w)), rt_Exec = (\<lambda>i sp w. (None, w)),
     rt_Unmarshal = (\<lambda>x. None), rt_lastError = (\<lambda>w. Inr []), rt_text = (\<lambda>e. []), rt_NewSocket = (\<lambda>w. (None, w)),
     rt_OpenFifo = (\<lambda>f w. (None, w)), rt_ReceiveMaster = (\<lambda>w. (None, w)), rt_CopyConsole = (\<lambda>w. (None, w)),
     rt_CopyIO = (\<lambda>w. (None, w)), rt_CreateIO = (\<lambda>w. (None, w)), rt_ReadPidFile = (\<lambda>f w. Inr 42),
     rt_Unmount = (\<lambda>d w. (None, w)), rt_CloseIO = (\<lambda>w. w), rt_RemoveAll = (\<lambda>d w. w), rt_CopyFile = (\<lambda>a b w. w),
     rt_kill_pid = (\<lambda>p sig w. (None, w))\<rparr>"

definition ex_task :: init_proc where
  "ex_task = createCheckpointedState ''/img'' [] (new_task ''t1'' ''/b'' \<lparr>sio_Stdin = [], sio_Terminal = True\<rparr>)"

definition ex_running :: init_proc where
  "ex_running = ex_task\<lparr>ip_state := IRunning, ip_pid := 42, ip_console := True\<rparr>"

lemma ex_restore: "task_Start ex_rt ex_task [] = (Ok (), ex_running, [''/img''])"
  by code_simp

theorem shim_restore_start_witness:
  "task_Start ex_rt ex_task [] = (Ok (), ex_running, [''/img'']) \<and> ip_state ex_running = IRunning"
proof -
  obtain opts where "ip_state ex_task = ICreatedCheckpoint opts" by (simp add: ex_task_def createCheckpointedState_def)
  from shim_restore_start [OF this ex_restore] ex_restore show ?thesis by simp
qed


definition ex_checkpoint :: checkpoint_config where
  "ex_checkpoint = \<lparr>cc_WorkDir = [], cc_Path = ''/img2'', cc_Exit = True, cc_AllowOpenTCP = True,
     cc_AllowExternalUnixSockets = False, cc_AllowTerminal = False, cc_FileLocks = False, cc_EmptyNamespaces = []\<rparr>"


text \<open>Starting an exec process a second time after the runtime refused it panics when the runtime
  refuses it again: the failed start has closed the wait channel and left the process in its created state, and the
  second failure closes the channel again.\<close>

theorem exec_second_failed_start_panics:
  assumes "\<forall>w. fst (rt_CreateIO r w) = None" and "\<forall>w. fst (rt_Exec r cid spec w) \<noteq> None" and "\<not> sio_Terminal sio"
  shows "\<exists>x e' w'. exec_Start r cid (new_exec i path spec sio) w = (Err x, e', w') \<and> fst (exec_Start r cid e' w') = Panic"
proof -
  have io: "\<exists>v'. rt_CreateIO r v = (None, v')" for v using assms(1) by (metis prod.collapse)
  have ex: "\<exists>er v'. rt_Exec r cid spec v = (Some er, v')" for v using assms(2) by (metis not_None_eq prod.collapse)
  obtain w1 where w1: "rt_CreateIO r w = (None, w1)" using io by blast
  obtain er1 w2 where w2: "rt_Exec r cid spec w1 = (Some er1, w2)" using ex by blast
  obtain w3 where w3: "rt_CreateIO r w2 = (None, w3)" using io by blast
  obtain er2 w4 where w4: "rt_Exec r cid spec w3 = (Some er2, w4)" using ex by blast
  let ?e = "(new_exec i path spec sio)\<lparr>ep_hasIO := True, ep_waitClosed := True\<rparr>"
  have "exec_Start r cid (new_exec i path spec sio) w = (Err (runtimeError r er1 ''OCI runtime exec failed'' w2), ?e, w2)"
    using assms(3) w1 w2
    by (simp add: exec_Start_def exec_start_def new_exec_def sh_bind_def sh_call_def exec_call_def Let_def)
  moreover have "fst (exec_Start r cid ?e w2) = Panic"
    using assms(3) w3 w4
    by (simp add: exec_Start_def exec_start_def new_exec_def sh_bind_def sh_call_def exec_call_def Let_def)
  ultimately show ?thesis by blast
qed

definition ex_refusing :: "string list rt" where
  "ex_refusing = ex_rt\<lparr>rt_Exec := (\<lambda>i sp w. (Some (ErrText ''no such file''), w))\<rparr>"

theorem exec_second_failed_start_panics_witness:
  "\<exists>x e' w'. exec_Start ex_refusing ''t1'' (new_exec ''e1'' ''/b'' ''{}'' \<lparr>sio_Stdin = [], sio_Terminal = False\<rparr>) [] = (Err x, e', w') \<and>
     fst (exec_Start ex_refusing ''t1'' e' w') = Panic"
  by (rule exec_second_failed_start_panics) (simp_all add: ex_refusing_def ex_rt_def)

end
