(* ===== verification/Shim_Container.thy ===== *)
theory Shim_Container
  imports Shim_Process
begin

text \<open>A container of containerd's runc shim, \<^verbatim>\<open>cmd/containerd-shim-runc-v2/runc/container.go\<close>, with the creation of its
  init process (\<^verbatim>\<open>Init.Create\<close> of \<^verbatim>\<open>process/init.go\<close>). A container object holds its init process and every exec
  process object made for it; the map of exec ids refers to these by position, so an object that the map has dropped
  can still be referred to, as in the code. The only constructor sets the init process, so its nil checks have no
  counterpart. The additional calls of the platform are the record \<^verbatim>\<open>rtc\<close>, which extends the runtime.\<close>

section \<open>Data\<close>

record shim_mount =
  mt_Type :: string
  mt_Source :: string
  mt_Target :: string
  mt_Options :: "string list"

text \<open>The parts of an OCI specification that are read; a nil section is None. The features of a runtime are
  nested optional sections down to the flag that tells whether idmap mounts are supported.\<close>

record spec_mount =
  sm_UIDMappings :: bool
  sm_GIDMappings :: bool
  sm_Options :: "string list"

record oci_spec =
  os_Mounts :: "spec_mount list"
  os_Namespaces :: "(string \<times> string) list option"

type_synonym features = "bool option option option option"

record options =
  op_BinaryName :: string
  op_NoPivotRoot :: bool
  op_NoNewKeyring :: bool
  op_CriuWorkPath :: string

record ck_options =
  ck_Exit :: bool
  ck_OpenTcp :: bool
  ck_ExternalUnixSockets :: bool
  ck_Terminal :: bool
  ck_FileLocks :: bool
  ck_EmptyNamespaces :: "string list"
  ck_CgroupsMode :: string
  ck_ImagePath :: string
  ck_WorkPath :: string

record create_request =
  cq_ID :: string
  cq_Bundle :: string
  cq_Rootfs :: "shim_mount list"
  cq_Terminal :: bool
  cq_Stdin :: string
  cq_Checkpoint :: string
  cq_ParentCheckpoint :: string
  cq_Options :: "string option"

record exec_request =
  xq_ExecID :: string
  xq_Terminal :: bool
  xq_Stdin :: string
  xq_Spec :: string

record create_opts =
  cp_PidFile :: string
  cp_NoPivot :: bool
  cp_NoNewKeyring :: bool
  cp_IO :: bool
  cp_ConsoleSocket :: bool

text \<open>The interface value that holds a cgroup: nil, a cgroup v1, or a pointer to a cgroup v2 manager. The
  pointer may be nil inside an interface that is not.\<close>

datatype cgroup_if = CgNil | CgV1 string | CgV2 "string option"

record ctr =
  ct_ID :: string
  ct_Bundle :: string
  ct_cgroup :: cgroup_if
  ct_process :: init_proc
  ct_execs :: "exec_proc list"
  ct_processes :: "string \<rightharpoonup> nat"
  ct_reservedProcess :: "string set"

datatype pref = PInit | PExec nat

record 'w rtc = "'w rt" +
  rc_Create :: "string \<Rightarrow> string \<Rightarrow> create_opts \<Rightarrow> 'w \<Rightarrow> go_err option \<times> 'w"
  rc_Features :: "'w \<Rightarrow> (go_err, features) res"
  rc_readConfig :: "string \<Rightarrow> 'w \<Rightarrow> (go_err, oci_spec) res"
  rc_ReadSpec :: "string \<Rightarrow> 'w \<Rightarrow> (go_err, oci_spec) res"
  rc_Namespace :: "(go_err, string) res"
  rc_UnmarshalOptions :: "string \<Rightarrow> (go_err, options option) res"
  rc_UnmarshalCheckpoint :: "string \<Rightarrow> (go_err, ck_options) res"
  rc_MarshalOptions :: "options \<Rightarrow> (go_err, string) res"
  rc_Mkdir :: "string \<Rightarrow> 'w \<Rightarrow> go_err option \<times> 'w"
  rc_WriteFile :: "string \<Rightarrow> string \<Rightarrow> 'w \<Rightarrow> go_err option \<times> 'w"
  rc_Mount :: "shim_mount \<Rightarrow> string \<Rightarrow> 'w \<Rightarrow> go_err option \<times> 'w"
  rc_RootPath :: "string \<Rightarrow> string \<Rightarrow> 'w \<Rightarrow> (go_err, string) res"
  rc_UnmountAll :: "string \<Rightarrow> 'w \<Rightarrow> go_err option \<times> 'w"
  rc_Unified :: bool
  rc_PidGroupPath :: "int \<Rightarrow> 'w \<Rightarrow> (go_err, string) res"
  rc_LoadV1 :: "int \<Rightarrow> 'w \<Rightarrow> string option"
  rc_WatchOOM :: "string \<Rightarrow> cgroup_if \<Rightarrow> 'w \<Rightarrow> 'w"

section \<open>Creating the init process\<close>

definition uses_idmap :: "spec_mount \<Rightarrow> bool" where
  "uses_idmap m \<longleftrightarrow> sm_UIDMappings m \<or> sm_GIDMappings m \<or> ''idmap'' \<in> set (sm_Options m) \<or> ''ridmap'' \<in> set (sm_Options m)"

text \<open>A runtime whose features have no Linux section is dereferenced through a nil pointer.\<close>

definition validateIDMapMounts :: "('w, 'z) rtc_scheme \<Rightarrow> oci_spec \<Rightarrow> 'w \<Rightarrow> unit outcome" where
  "validateIDMapMounts r spec w =
    (if \<not> list_ex uses_idmap (os_Mounts spec) then Ok ()
     else case rc_Features r w of
       Inl e \<Rightarrow> Err (RtErr ''features command failed'' e)
     | Inr None \<Rightarrow> Panic
     | Inr (Some (Some (Some (Some True)))) \<Rightarrow> Ok ()
     | Inr (Some (Some (Some _))) \<Rightarrow> Err (Msg ''idmap mounts not supported'')
     | Inr (Some _) \<Rightarrow> Err (Msg ''missing `mountExtensions.idmap` entry in `features` command''))"

definition validateRuncFeatures :: "('w, 'z) rtc_scheme \<Rightarrow> string \<Rightarrow> 'w \<Rightarrow> unit outcome" where
  "validateRuncFeatures r bundle w =
    (case rc_readConfig r bundle w of
       Inl e \<Rightarrow> Err (RtErr ''failed to read config'' e)
     | Inr spec \<Rightarrow>
         (case validateIDMapMounts r spec w of
            Err e \<Rightarrow> Err (wrap_err ''OCI runtime doesn't support idmap mounts: '' e) | res \<Rightarrow> res))"

definition create_call :: "('w, 'z) rtc_scheme \<Rightarrow> create_request \<Rightarrow> (unit, init_proc, 'w) shim_op" where
  "create_call r q p w =
    (let opts = \<lparr>cp_PidFile = Join [ip_Bundle p, ''init.pid''], cp_NoPivot = ip_NoPivotRoot p,
                 cp_NoNewKeyring = ip_NoNewKeyring p, cp_IO = ip_hasIO p, cp_ConsoleSocket = cq_Terminal q\<rparr>
     in case validateRuncFeatures r (cq_Bundle q) w of
          Panic \<Rightarrow> (Panic, p, w)
        | Err e \<Rightarrow> (Err (wrap_err ''failed to detect OCI runtime features: '' e), p, w)
        | Ok _ \<Rightarrow>
            (case rc_Create r (cq_ID q) (cq_Bundle q) opts w of
               (None, w') \<Rightarrow> (Ok (), p, w')
             | (Some e, w') \<Rightarrow> (Err (runtimeError r e ''OCI runtime create failed'' w'), p, w')))"

definition create_read_pid :: "('w, 'z) rtc_scheme \<Rightarrow> (unit, init_proc, 'w) shim_op" where
  "create_read_pid r p w =
    (case rt_ReadPidFile r (Join [ip_Bundle p, ''init.pid'']) w of
       Inl e \<Rightarrow> (Err (RtErr ''failed to retrieve OCI runtime container pid'' e), p, w)
     | Inr pid \<Rightarrow> (Ok (), p\<lparr>ip_pid := pid\<rparr>, w))"

definition init_Create :: "('w, 'z) rtc_scheme \<Rightarrow> create_request \<Rightarrow> (unit, init_proc, 'w) shim_op" where
  "init_Create r q =
    sh_bind (if cq_Terminal q then sh_call ''failed to create OCI runtime console socket'' (rt_NewSocket r)
             else sh_bind (sh_call ''failed to create init process I/O'' (rt_CreateIO r)) (\<lambda>_ p w. (Ok (), p\<lparr>ip_hasIO := True\<rparr>, w)))
      (\<lambda>_. if cq_Checkpoint q \<noteq> []
           then (\<lambda>p w. (Ok (), createCheckpointedState (cq_Checkpoint q) (cq_ParentCheckpoint q) p, w))
           else
             sh_bind (create_call r q) (\<lambda>_.
             sh_bind (sh_when (cq_Stdin q \<noteq> []) (init_openStdin r (cq_Stdin q))) (\<lambda>_.
             sh_bind (console_steps r (cq_Terminal q)) (\<lambda>_.
             create_read_pid r))))"

section \<open>The cgroup of a process\<close>

definition VerifyGroupPath :: "string \<Rightarrow> bool" where
  "VerifyGroupPath g \<longleftrightarrow> IsAbs g \<and> Clean g = g \<and> \<not> has_prefix g ''/sys/fs/cgroup''"

definition cgroup2_Load :: "string \<Rightarrow> string option" where
  "cgroup2_Load g = (if VerifyGroupPath g then Some (Join [''/sys/fs/cgroup'', g]) else None)"

definition load_v1 :: "('w, 'z) rtc_scheme \<Rightarrow> int \<Rightarrow> 'w \<Rightarrow> cgroup_if" where
  "load_v1 r pid w = (case rc_LoadV1 r pid w of None \<Rightarrow> CgNil | Some g \<Rightarrow> CgV1 g)"

text \<open>Creating a container stops at an unknown group; starting it goes on with the empty group.\<close>

definition new_cgroup :: "('w, 'z) rtc_scheme \<Rightarrow> int \<Rightarrow> 'w \<Rightarrow> cgroup_if" where
  "new_cgroup r pid w =
    (if rc_Unified r then (case rc_PidGroupPath r pid w of Inl e \<Rightarrow> CgNil | Inr g \<Rightarrow> CgV2 (cgroup2_Load g))
     else load_v1 r pid w)"

definition start_cgroup :: "('w, 'z) rtc_scheme \<Rightarrow> int \<Rightarrow> 'w \<Rightarrow> cgroup_if" where
  "start_cgroup r pid w =
    (if rc_Unified r then CgV2 (cgroup2_Load (case rc_PidGroupPath r pid w of Inl e \<Rightarrow> [] | Inr g \<Rightarrow> g))
     else load_v1 r pid w)"


section \<open>Creating a container\<close>

definition newInit :: "create_request \<Rightarrow> options \<Rightarrow> string \<Rightarrow> init_proc" where
  "newInit q opts rootfs =
    (new_task (cq_ID q) (cq_Bundle q) \<lparr>sio_Stdin = cq_Stdin q, sio_Terminal = cq_Terminal q\<rparr>)
      \<lparr>ip_WorkDir := Join [cq_Bundle q, ''work''], ip_Rootfs := rootfs, ip_NoPivotRoot := op_NoPivotRoot opts,
       ip_NoNewKeyring := op_NoNewKeyring opts,
       ip_CriuWorkPath := (if op_CriuWorkPath opts = [] then Join [cq_Bundle q, ''work''] else op_CriuWorkPath opts)\<rparr>"

definition no_options :: options where
  "no_options = \<lparr>op_BinaryName = [], op_NoPivotRoot = False, op_NoNewKeyring = False, op_CriuWorkPath = []\<rparr>"

definition read_options :: "('w, 'z) rtc_scheme \<Rightarrow> string option \<Rightarrow> (go_err, options) res" where
  "read_options r v =
    (case v of None \<Rightarrow> Inr no_options
     | Some x \<Rightarrow> res_map (\<lambda>y. case y of None \<Rightarrow> no_options | Some opts \<Rightarrow> opts) (rc_UnmarshalOptions r x))"

definition WriteOptions :: "('w, 'z) rtc_scheme \<Rightarrow> string \<Rightarrow> options \<Rightarrow> 'w \<Rightarrow> go_err option \<times> 'w" where
  "WriteOptions r path opts w =
    (case rc_MarshalOptions r opts of
       Inl e \<Rightarrow> (Some e, w) | Inr data \<Rightarrow> rc_WriteFile r (Join [path, ''options.json'']) data w)"

definition WriteRuntime :: "('w, 'z) rtc_scheme \<Rightarrow> string \<Rightarrow> string \<Rightarrow> 'w \<Rightarrow> go_err option \<times> 'w" where
  "WriteRuntime r path runtime w = rc_WriteFile r (Join [path, ''runtime'']) runtime w"

fun mount_All :: "('w, 'z) rtc_scheme \<Rightarrow> shim_mount list \<Rightarrow> string \<Rightarrow> 'w \<Rightarrow> go_err option \<times> 'w" where
  "mount_All r [] target w = (None, w)"
| "mount_All r (m # ms) target w =
    (case rc_Mount r m target w of (Some e, w') \<Rightarrow> (Some e, w') | (None, w') \<Rightarrow> mount_All r ms target w')"

text \<open>\<^verbatim>\<open>UnmountMounts\<close> goes through the mounts in reverse; only the error of the last mount ends it.\<close>

fun unmount_loop :: "('w, 'z) rtc_scheme \<Rightarrow> bool \<Rightarrow> shim_mount list \<Rightarrow> string \<Rightarrow> 'w \<Rightarrow> go_err option \<times> 'w" where
  "unmount_loop r last_one [] target w = (None, w)"
| "unmount_loop r last_one (m # ms) target w =
    (case rc_RootPath r target (mt_Target m) w of
       Inl e \<Rightarrow> (Some e, w)
     | Inr mountpoint \<Rightarrow>
         (case rc_UnmountAll r mountpoint w of
            (Some e, w') \<Rightarrow> if last_one then (Some e, w') else unmount_loop r False ms target w'
          | (None, w') \<Rightarrow> unmount_loop r False ms target w'))"

definition UnmountMounts :: "('w, 'z) rtc_scheme \<Rightarrow> shim_mount list \<Rightarrow> string \<Rightarrow> 'w \<Rightarrow> go_err option \<times> 'w" where
  "UnmountMounts r ms target w = unmount_loop r True (rev ms) target w"

definition make_rootfs :: "('w, 'z) rtc_scheme \<Rightarrow> string \<Rightarrow> 'w \<Rightarrow> go_err option \<times> 'w" where
  "make_rootfs r rootfs w =
    (if rootfs = [] then (None, w)
     else case rc_Mkdir r rootfs w of (e, w') \<Rightarrow> (if e = Some (Errno EEXIST) then None else e, w'))"

text \<open>The part of \<^verbatim>\<open>NewContainer\<close> after the mounts are known to the deferred clean-up\<close>

definition mounted_init :: "('w, 'z) rtc_scheme \<Rightarrow> create_request \<Rightarrow> options \<Rightarrow> string \<Rightarrow> 'w \<Rightarrow> unit outcome \<times> init_proc \<times> 'w" where
  "mounted_init r q opts rootfs w =
    (let p = newInit q opts rootfs in
     case mount_All r (cq_Rootfs q) rootfs w of
       (Some e, w1) \<Rightarrow> (Err (RtErr ''failed to mount rootfs component'' e), p, w1)
     | (None, w1) \<Rightarrow> init_Create r q p w1)"

definition new_ctr :: "create_request \<Rightarrow> init_proc \<Rightarrow> cgroup_if \<Rightarrow> ctr" where
  "new_ctr q p cg =
    \<lparr>ct_ID = cq_ID q, ct_Bundle = cq_Bundle q, ct_cgroup = cg, ct_process = p, ct_execs = [],
     ct_processes = Map.empty, ct_reservedProcess = {}\<rparr>"

definition NewContainer :: "('w, 'z) rtc_scheme \<Rightarrow> create_request \<Rightarrow> 'w \<Rightarrow> ctr outcome \<times> 'w" where
  "NewContainer r q w =
    (case rc_Namespace r of Inl e \<Rightarrow> (Err (RtErr ''create namespace'' e), w) | Inr ns \<Rightarrow>
    (case read_options r (cq_Options q) of Inl e \<Rightarrow> (Err (RtErr [] e), w) | Inr opts \<Rightarrow>
    (let rootfs = (if cq_Rootfs q = [] then [] else Join [cq_Bundle q, ''rootfs'']) in
     case make_rootfs r rootfs w of (Some e, w1) \<Rightarrow> (Err (RtErr [] e), w1) | (None, w1) \<Rightarrow>
    (case WriteOptions r (cq_Bundle q) opts w1 of (Some e, w2) \<Rightarrow> (Err (RtErr [] e), w2) | (None, w2) \<Rightarrow>
    (case WriteRuntime r (cq_Bundle q) (op_BinaryName opts) w2 of (Some e, w3) \<Rightarrow> (Err (RtErr [] e), w3) | (None, w3) \<Rightarrow>
    (case mounted_init r q opts rootfs w3 of
       (Panic, p, w4) \<Rightarrow> (Panic, w4)
     | (Err e, p, w4) \<Rightarrow> (Err e, snd (UnmountMounts r (cq_Rootfs q) rootfs w4))
     | (Ok _, p, w4) \<Rightarrow> (Ok (new_ctr q p (if 0 < ip_pid p then new_cgroup r (ip_pid p) w4 else CgNil)), w4)))))))"

section \<open>The operations of a container\<close>

definition ct_Pid :: "ctr \<Rightarrow> int" where
  "ct_Pid c = ip_pid (ct_process c)"

definition ct_Process :: "string \<Rightarrow> ctr \<Rightarrow> (shim_err, pref) res" where
  "ct_Process i c =
    (if i = [] then Inr PInit
     else case ct_processes c i of
       None \<Rightarrow> Inl (NotFound (''process does not exist '' @ i)) | Some k \<Rightarrow> Inr (PExec k))"

definition ct_ReserveProcess :: "string \<Rightarrow> ctr \<Rightarrow> bool \<times> ctr" where
  "ct_ReserveProcess i c =
    (if i \<in> dom (ct_processes c) \<or> i \<in> ct_reservedProcess c then (False, c)
     else (True, c\<lparr>ct_reservedProcess := insert i (ct_reservedProcess c)\<rparr>))"

definition ct_cancel :: "string \<Rightarrow> ctr \<Rightarrow> ctr" where
  "ct_cancel i c = c\<lparr>ct_reservedProcess := ct_reservedProcess c - {i}\<rparr>"

text \<open>A new exec process object is stored and entered in the map.\<close>

definition ct_ProcessAdd :: "exec_proc \<Rightarrow> ctr \<Rightarrow> ctr" where
  "ct_ProcessAdd e c =
    c\<lparr>ct_execs := ct_execs c @ [e], ct_processes := (ct_processes c)(ep_id e \<mapsto> length (ct_execs c)),
      ct_reservedProcess := ct_reservedProcess c - {ep_id e}\<rparr>"

definition ct_ProcessRemove :: "string \<Rightarrow> ctr \<Rightarrow> ctr" where
  "ct_ProcessRemove i c = c\<lparr>ct_processes := (ct_processes c)(i := None)\<rparr>"

text \<open>The methods of the interface \<^verbatim>\<open>process.Process\<close>, by the object a reference stands for\<close>

definition on_init :: "('a, init_proc, 'w) shim_op \<Rightarrow> ('a, ctr, 'w) shim_op" where
  "on_init m c w = (case m (ct_process c) w of (a, p', w') \<Rightarrow> (a, c\<lparr>ct_process := p'\<rparr>, w'))"

definition on_exec :: "nat \<Rightarrow> ('a, exec_proc, 'w) shim_op \<Rightarrow> ('a, ctr, 'w) shim_op" where
  "on_exec k m c w = (case m (ct_execs c ! k) w of (a, e', w') \<Rightarrow> (a, c\<lparr>ct_execs := (ct_execs c)[k := e']\<rparr>, w'))"

fun proc_Pid :: "pref \<Rightarrow> ctr \<Rightarrow> int" where
  "proc_Pid PInit c = ip_pid (ct_process c)"
| "proc_Pid (PExec k) c = ep_pid (ct_execs c ! k)"

fun proc_ID :: "pref \<Rightarrow> ctr \<Rightarrow> string" where
  "proc_ID PInit c = ip_id (ct_process c)"
| "proc_ID (PExec k) c = ep_id (ct_execs c ! k)"

fun proc_ExitStatus :: "pref \<Rightarrow> ctr \<Rightarrow> int" where
  "proc_ExitStatus PInit c = ip_status (ct_process c)"
| "proc_ExitStatus (PExec k) c = ep_status (ct_execs c ! k)"

fun proc_waitClosed :: "pref \<Rightarrow> ctr \<Rightarrow> bool" where
  "proc_waitClosed PInit c = ip_waitClosed (ct_process c)"
| "proc_waitClosed (PExec k) c = ep_waitClosed (ct_execs c ! k)"

fun proc_Status :: "pref \<Rightarrow> ctr \<Rightarrow> string" where
  "proc_Status PInit c = task_Status (ct_process c)"
| "proc_Status (PExec k) c = exec_Status (ct_process c) (ct_execs c ! k)"

definition proc_Start :: "('w, 'z) rt_scheme \<Rightarrow> pref \<Rightarrow> (unit, ctr, 'w) shim_op" where
  "proc_Start r p c w =
    (case p of PInit \<Rightarrow> on_init (task_Start r) c w | PExec k \<Rightarrow> on_exec k (exec_Start r (ip_id (ct_process c))) c w)"

definition proc_Delete :: "('w, 'z) rt_scheme \<Rightarrow> pref \<Rightarrow> (unit, ctr, 'w) shim_op" where
  "proc_Delete r p c w = (case p of PInit \<Rightarrow> on_init (task_Delete r) c w | PExec k \<Rightarrow> on_exec k (exec_Delete r) c w)"

definition proc_Kill :: "('w, 'z) rt_scheme \<Rightarrow> pref \<Rightarrow> nat \<Rightarrow> bool \<Rightarrow> (unit, ctr, 'w) shim_op" where
  "proc_Kill r p sig all c w =
    (case p of PInit \<Rightarrow> on_init (task_Kill r sig all) c w | PExec k \<Rightarrow> on_exec k (exec_Kill r sig) c w)"

definition proc_SetExited :: "('w, 'z) rt_scheme \<Rightarrow> pref \<Rightarrow> int \<Rightarrow> (unit, ctr, 'w) shim_op" where
  "proc_SetExited r p st c w =
    (case p of PInit \<Rightarrow> on_init (task_SetExited r st) c w | PExec k \<Rightarrow> on_exec k (exec_SetExited st) c w)"

text \<open>\<^verbatim>\<open>Start\<close> returns the process with the error when the process was found.\<close>

definition ct_Start :: "('w, 'z) rtc_scheme \<Rightarrow> string \<Rightarrow> ctr \<Rightarrow> 'w \<Rightarrow> pref option \<times> unit outcome \<times> ctr \<times> 'w" where
  "ct_Start r x c w =
    (case ct_Process x c of
       Inl e \<Rightarrow> (None, Err e, c, w)
     | Inr p \<Rightarrow>
         (case proc_Start r p c w of
            (Ok _, c1, w1) \<Rightarrow>
              (Some p, Ok (),
               (if ct_cgroup c1 = CgNil \<and> 0 < proc_Pid p c1 then c1\<lparr>ct_cgroup := start_cgroup r (proc_Pid p c1) w1\<rparr> else c1), w1)
          | (res, c1, w1) \<Rightarrow> (Some p, res, c1, w1)))"

definition ct_Delete :: "('w, 'z) rt_scheme \<Rightarrow> string \<Rightarrow> (pref, ctr, 'w) shim_op" where
  "ct_Delete r x c w =
    (case ct_Process x c of
       Inl e \<Rightarrow> (Err e, c, w)
     | Inr p \<Rightarrow>
         (case proc_Delete r p c w of
            (Ok _, c1, w1) \<Rightarrow> (Ok p, (if x \<noteq> [] then ct_ProcessRemove x c1 else c1), w1)
          | (Err e, c1, w1) \<Rightarrow> (Err e, c1, w1)
          | (Panic, c1, w1) \<Rightarrow> (Panic, c1, w1)))"

definition ct_Exec :: "('w, 'z) rt_scheme \<Rightarrow> exec_request \<Rightarrow> (string, ctr, 'w) shim_op" where
  "ct_Exec r q c w =
    (case on_init (task_Exec r (xq_ExecID q) (ct_Bundle c) (xq_Spec q)
                     \<lparr>sio_Stdin = xq_Stdin q, sio_Terminal = xq_Terminal q\<rparr>) c w of
       (Ok e, c1, w1) \<Rightarrow> (Ok (ep_id e), ct_ProcessAdd e c1, w1)
     | (Err er, c1, w1) \<Rightarrow> (Err er, c1, w1)
     | (Panic, c1, w1) \<Rightarrow> (Panic, c1, w1))"

definition ct_Pause :: "('w, 'z) rt_scheme \<Rightarrow> (unit, ctr, 'w) shim_op" where
  "ct_Pause r = on_init (task_Pause r)"

definition ct_Resume :: "('w, 'z) rt_scheme \<Rightarrow> (unit, ctr, 'w) shim_op" where
  "ct_Resume r = on_init (task_Resume r)"

definition ct_Kill :: "('w, 'z) rt_scheme \<Rightarrow> string \<Rightarrow> nat \<Rightarrow> bool \<Rightarrow> (unit, ctr, 'w) shim_op" where
  "ct_Kill r x sig all c w = (case ct_Process x c of Inl e \<Rightarrow> (Err e, c, w) | Inr p \<Rightarrow> proc_Kill r p sig all c w)"

definition no_ck_options :: ck_options where
  "no_ck_options = \<lparr>ck_Exit = False, ck_OpenTcp = False, ck_ExternalUnixSockets = False, ck_Terminal = False,
     ck_FileLocks = False, ck_EmptyNamespaces = [], ck_CgroupsMode = [], ck_ImagePath = [], ck_WorkPath = []\<rparr>"

definition ct_Checkpoint :: "('w, 'z) rtc_scheme \<Rightarrow> string \<Rightarrow> string option \<Rightarrow> (unit, ctr, 'w) shim_op" where
  "ct_Checkpoint r path v c w =
    (case (case v of None \<Rightarrow> Inr no_ck_options | Some x \<Rightarrow> rc_UnmarshalCheckpoint r x) of
       Inl e \<Rightarrow> (Err (RtErr [] e), c, w)
     | Inr opts \<Rightarrow>
         on_init (task_Checkpoint r
           \<lparr>cc_WorkDir = ck_WorkPath opts, cc_Path = path, cc_Exit = ck_Exit opts, cc_AllowOpenTCP = ck_OpenTcp opts,
            cc_AllowExternalUnixSockets = ck_ExternalUnixSockets opts, cc_AllowTerminal = ck_Terminal opts,
            cc_FileLocks = ck_FileLocks opts, cc_EmptyNamespaces = ck_EmptyNamespaces opts\<rparr>) c w)"

definition ct_Update :: "('w, 'z) rt_scheme \<Rightarrow> string \<Rightarrow> (unit, ctr, 'w) shim_op" where
  "ct_Update r res = on_init (task_Update r res)"

definition ct_HasPid :: "int \<Rightarrow> ctr \<Rightarrow> bool" where
  "ct_HasPid pid c \<longleftrightarrow> ct_Pid c = pid \<or> (\<exists>k \<in> ran (ct_processes c). ep_pid (ct_execs c ! k) = pid)"


section \<open>What no operation of a container changes\<close>

text \<open>A process that has not been started has no pid; a pid once known stays, and so do the ids. The exec process
  objects are never forgotten, the map of exec ids refers to objects of that id, and no id is both reserved and in use.\<close>

definition pid0 :: "init_proc \<Rightarrow> bool" where
  "pid0 p \<longleftrightarrow> (\<forall>opts. ip_state p = ICreatedCheckpoint opts \<longrightarrow> ip_pid p = 0)"

definition init_le :: "init_proc \<Rightarrow> init_proc \<Rightarrow> bool" where
  "init_le p p' \<longleftrightarrow> ip_id p' = ip_id p \<and> (ip_pid p \<noteq> 0 \<longrightarrow> ip_pid p' = ip_pid p)"

definition exec_le :: "exec_proc \<Rightarrow> exec_proc \<Rightarrow> bool" where
  "exec_le e e' \<longleftrightarrow> ep_id e' = ep_id e \<and> (ep_pid e \<noteq> 0 \<longrightarrow> ep_pid e' = ep_pid e)"

definition epid0 :: "exec_proc \<Rightarrow> bool" where
  "epid0 e \<longleftrightarrow> (ep_state e = ECreated \<longrightarrow> ep_pid e = 0)"

definition ct_wf :: "ctr \<Rightarrow> bool" where
  "ct_wf c \<longleftrightarrow> pid0 (ct_process c) \<and> (\<forall>e \<in> set (ct_execs c). epid0 e) \<and>
     (\<forall>i k. ct_processes c i = Some k \<longrightarrow> k < length (ct_execs c) \<and> ep_id (ct_execs c ! k) = i) \<and>
     ct_reservedProcess c \<inter> dom (ct_processes c) = {}"

definition ct_le :: "ctr \<Rightarrow> ctr \<Rightarrow> bool" where
  "ct_le c c' \<longleftrightarrow> ct_ID c' = ct_ID c \<and> init_le (ct_process c) (ct_process c') \<and> length (ct_execs c) \<le> length (ct_execs c') \<and>
     (\<forall>k < length (ct_execs c). exec_le (ct_execs c ! k) (ct_execs c' ! k))"

lemma ct_le_refl [simp]: "ct_le c c"
  by (simp add: ct_le_def init_le_def exec_le_def)

lemma le_trans_parts: "init_le p q \<Longrightarrow> init_le q u \<Longrightarrow> init_le p u" "exec_le e f \<Longrightarrow> exec_le f g \<Longrightarrow> exec_le e g"
  by (auto simp: init_le_def exec_le_def)

lemma ct_le_trans: "ct_le a b \<Longrightarrow> ct_le b c \<Longrightarrow> ct_le a c"
  unfolding ct_le_def by (auto intro: le_trans_parts(1)) (blast intro: le_trans_parts(2) order_less_le_trans)

text \<open>What a chain of steps keeps of an object, and what it establishes between the object before and after\<close>

definition keeps :: "('p \<Rightarrow> 'k) \<Rightarrow> ('a, 'p, 'w) shim_op \<Rightarrow> bool" where
  "keeps f m \<longleftrightarrow> (\<forall>p w. f (fst (snd (m p w))) = f p)"

definition relates :: "('p \<Rightarrow> bool) \<Rightarrow> ('p \<Rightarrow> 'p \<Rightarrow> bool) \<Rightarrow> ('a, 'p, 'w) shim_op \<Rightarrow> bool" where
  "relates A R m \<longleftrightarrow> (\<forall>p w. A p \<longrightarrow> R p (fst (snd (m p w))))"

lemma keeps_chain:
  assumes "keeps f m" and "\<And>a. keeps f (g a)"
  shows "keeps f (sh_bind m g)"
  unfolding keeps_def
proof (intro allI)
  fix p w
  obtain b p1 w1 where m: "m p w = (b, p1, w1)" by (cases "m p w")
  then have "f p1 = f p" using assms(1) unfolding keeps_def by (metis fst_conv snd_conv)
  then show "f (fst (snd (sh_bind m g p w))) = f p"
    using assms(2) m by (cases b) (simp_all add: sh_bind_def keeps_def)
qed

lemma relates_bind:
  assumes m: "keeps f m" and g: "\<And>a. relates A R (g a)"
    and f: "\<And>p p'. A p \<Longrightarrow> f p' = f p \<Longrightarrow> A p' \<and> R p p'" "\<And>p p' q. f p' = f p \<Longrightarrow> R p' q \<Longrightarrow> R p q"
  shows "relates A R (sh_bind m g)"
  unfolding relates_def
proof (intro allI impI)
  fix p w assume A: "A p"
  obtain b p1 w1 where m1: "m p w = (b, p1, w1)" by (cases "m p w")
  then have p1: "f p1 = f p" using m unfolding keeps_def by (metis fst_conv snd_conv)
  then have A1: "A p1" "R p p1" using f(1) [OF A] by blast+
  show "R p (fst (snd (sh_bind m g p w)))"
  proof (cases b)
    case (Ok a)
    have "R p1 (fst (snd (g a p1 w1)))" using g A1(1) unfolding relates_def by blast
    then show ?thesis using f(2) [OF p1] m1 Ok by (simp add: sh_bind_def)
  qed (use A1 m1 in \<open>simp_all add: sh_bind_def\<close>)
qed

lemma keeps_when: "keeps f m \<Longrightarrow> keeps f (sh_when b m)"
  by (simp add: keeps_def sh_when_def)

lemma keeps_call [simp]: "keeps f (sh_call msg g)" "keeps f (fail_msg msg)"
  by (auto simp: keeps_def sh_call_def fail_msg_def split: prod.splits option.splits)

lemma relates_weaken: "relates A R m \<Longrightarrow> (\<And>p. B p \<Longrightarrow> A p) \<Longrightarrow> relates B R m"
  by (auto simp: relates_def)

definition init_key :: "init_proc \<Rightarrow> string \<times> int \<times> init_state" where
  "init_key p = (ip_id p, ip_pid p, ip_state p)"

abbreviation fixed :: "('a, init_proc, 'w) shim_op \<Rightarrow> bool" where
  "fixed \<equiv> keeps init_key"

abbreviation tame :: "('a, init_proc, 'w) shim_op \<Rightarrow> bool" where
  "tame \<equiv> relates pid0 (\<lambda>p p'. pid0 p' \<and> init_le p p')"

lemma init_key_facts:
  assumes "init_key p' = init_key p"
  shows "ip_state p' = ip_state p" "pid0 p \<Longrightarrow> pid0 p'" "init_le p' q \<Longrightarrow> init_le p q" "init_le p p'"
  using assms by (auto simp: init_key_def pid0_def init_le_def)

lemma init_le_refl [simp]: "init_le p p"
  by (simp add: init_le_def)

lemma fixed_tame: "fixed m \<Longrightarrow> tame m"
  unfolding relates_def keeps_def using init_key_facts by blast

lemma tame_bind: "fixed m \<Longrightarrow> (\<And>a. tame (g a)) \<Longrightarrow> tame (sh_bind m g)"
  by (rule relates_bind [where f = init_key]) (use init_key_facts in blast)+

text \<open>Most steps of an init process do not change the object at all.\<close>

lemma same_object:
  "fst (snd (sh_call msg g p w)) = p" "fst (snd (init_start r p w)) = p" "fst (snd (init_delete r p w)) = p" "fst (snd (init_kill r sig all p w)) = p"
  "fst (snd (init_KillAll r p w)) = p" "fst (snd (init_update r res p w)) = p" "fst (snd (restore_call r opts p w)) = p"
  "fst (snd (fail_msg msg p w)) = p" "fst (snd (init_checkpoint r cf p w)) = p"
  by (simp_all add: sh_call_def init_start_def init_delete_def init_kill_def init_KillAll_def init_update_def
      restore_call_def fail_msg_def init_checkpoint_def Let_def split: prod.splits option.splits)

lemma fixed_basic [simp]:
  "fixed (init_start r)" "fixed (init_delete r)" "fixed (init_kill r sig all)"
  "fixed (init_KillAll r)" "fixed (init_update r res)" "fixed (restore_call r opts)" "fixed (init_checkpoint r cf)"
  "fixed (init_openStdin r path)" "fixed (\<lambda>p w. (Ok (), p\<lparr>ip_console := True\<rparr>, w))"
  "fixed (\<lambda>p w. (Ok (), p\<lparr>ip_hasIO := True\<rparr>, w))"
  by (simp_all add: keeps_def same_object init_key_def init_openStdin_def split: prod.splits option.splits)

lemma fixed_console: "fixed (console_steps r t)"
  by (simp add: console_steps_def keeps_chain)

lemma tame_goto: "\<forall>opts. st \<noteq> ICreatedCheckpoint opts \<Longrightarrow> tame (goto st)"
  by (auto simp: relates_def goto_def pid0_def init_le_def)

lemma tame_bind_goto: "fixed m \<Longrightarrow> \<forall>opts. st \<noteq> ICreatedCheckpoint opts \<Longrightarrow> tame (sh_bind m (\<lambda>_. goto st))"
  by (rule tame_bind) (simp_all add: tame_goto)

text \<open>An operation that depends on the state is tame when its branches are.\<close>

lemma tame_branches: "(\<And>p w. pid0 p \<Longrightarrow> \<exists>m. tame m \<and> f p w = m p w) \<Longrightarrow> tame f"
  unfolding relates_def by metis

lemma tame_checkpoint_start:
  "relates (\<lambda>p. pid0 p \<and> (\<exists>opts. ip_state p = ICreatedCheckpoint opts)) (\<lambda>p p'. pid0 p' \<and> init_le p p') (checkpoint_start r opts)"
  (is "relates ?A ?R _")
proof -
  have read: "relates ?A ?R (read_pid r f)" for f
    by (auto simp: relates_def read_pid_def pid0_def init_le_def split: sum.splits)
  have "relates ?A ?R (sh_bind (sh_when t (sh_call a (rt_NewSocket r))) (\<lambda>_. sh_bind (restore_call r o1) (\<lambda>_.
      sh_bind (sh_when u (init_openStdin r v)) (\<lambda>_. sh_bind (console_steps r t) (\<lambda>_. read_pid r f)))))" for t a o1 u v f
    by (intro relates_bind [where f = init_key] keeps_when keeps_call fixed_basic fixed_console read)
      (use init_key_facts in metis)+
  then show ?thesis by (simp add: relates_def checkpoint_start_def Let_def console_steps_def del: all_simps)
qed

lemmas tame_fixed = fixed_basic [THEN fixed_tame] keeps_call(2) [of init_key, THEN fixed_tame]

lemma tame_task_Start: "tame (task_Start r)"
  unfolding relates_def
proof (intro allI impI)
  fix p w assume "pid0 p"
  moreover have "tame (sh_bind (init_start r) (\<lambda>_. goto IRunning))" by (simp add: tame_bind_goto)
  ultimately show "pid0 (fst (snd (task_Start r p w))) \<and> init_le p (fst (snd (task_Start r p w)))"
    using tame_checkpoint_start [of r] by (cases "ip_state p") (simp_all add: task_Start_def relates_def same_object)
qed


lemma tame_by_state:
  assumes "\<And>p w. pid0 p \<Longrightarrow> pid0 (fst (snd (m p w))) \<and> init_le p (fst (snd (m p w)))"
  shows "tame m"
  using assms by (simp add: relates_def)

lemma tame_task_Delete: "tame (task_Delete r)"
proof -
  have "tame (sh_bind (init_delete r) (\<lambda>_. goto IDeleted))" by (simp add: tame_bind_goto)
  then show ?thesis
    by (intro tame_by_state) (simp add: task_Delete_def relates_def same_object split: init_state.split)
qed

lemma tame_task_ops:
  "tame (task_Pause r)" "tame (task_Resume r)" "tame (task_Update r res)" "tame (task_Checkpoint r cf)"
  "tame (task_Kill r sig all)" "tame (task_SetExited r st)"
  by (rule tame_by_state, (auto simp: task_Pause_def task_Resume_def task_Update_def task_Checkpoint_def task_Kill_def
      task_SetExited_def init_setExited_def goto_def same_object Let_def pid0_def init_le_def
      split: init_state.splits prod.splits option.splits) [1])+

lemma tame_task_Exec: "tame (task_Exec r i path spec sio)"
  by (intro tame_by_state) (auto simp: task_Exec_def same_object split: init_state.splits option.splits)

text \<open>Creating a process without a pid gives it one or prepares its restore.\<close>

lemma fixed_create_call: "fixed (create_call r q)"
  by (auto simp: keeps_def create_call_def Let_def simp del: Join.simps split: outcome.splits prod.splits option.splits)

lemma relates_init_Create:
  "relates (\<lambda>p. ip_state p = ICreated \<and> ip_pid p = 0) (\<lambda>p p'. pid0 p' \<and> ip_id p' = ip_id p) (init_Create r q)"
  (is "relates ?A ?R _")
proof -
  have read: "relates ?A ?R (create_read_pid r)"
    by (auto simp: relates_def create_read_pid_def pid0_def split: sum.splits)
  have "relates ?A ?R (sh_bind (create_call r q) (\<lambda>_. sh_bind (sh_when u (init_openStdin r v)) (\<lambda>_.
      sh_bind (console_steps r t) (\<lambda>_. create_read_pid r))))" for t u v
    by (intro relates_bind [where f = init_key] keeps_when keeps_call fixed_basic fixed_console fixed_create_call read)
      (auto simp: init_key_def pid0_def)
  moreover have "relates ?A ?R (\<lambda>p w. (Ok (), createCheckpointedState a b p, w))" for a b
    by (simp add: relates_def createCheckpointedState_def pid0_def)
  ultimately show ?thesis unfolding init_Create_def
    by (intro relates_bind [where f = init_key]) (auto simp: init_key_def pid0_def keeps_chain)
qed

subsection \<open>Exec processes\<close>

definition exec_key :: "exec_proc \<Rightarrow> string \<times> int \<times> exec_state" where
  "exec_key e = (ep_id e, ep_pid e, ep_state e)"

abbreviation etame :: "('a, exec_proc, 'w) shim_op \<Rightarrow> bool" where
  "etame \<equiv> relates epid0 (\<lambda>e e'. epid0 e' \<and> exec_le e e')"

lemma exec_keeps [simp]:
  "keeps exec_key (exec_call r cid)" "keeps exec_key (\<lambda>e w. (Ok (), e\<lparr>ep_hasIO := True\<rparr>, w))"
  "keeps exec_key (\<lambda>e w. (Ok (), e\<lparr>ep_console := True\<rparr>, w))"
  by (auto simp: keeps_def exec_call_def exec_key_def split: prod.splits option.splits)

definition keeps_on_error :: "('p \<Rightarrow> 'k) \<Rightarrow> (unit, 'p, 'w) shim_op \<Rightarrow> bool" where
  "keeps_on_error f m \<longleftrightarrow> (\<forall>p w. fst (m p w) \<noteq> Ok () \<longrightarrow> f (fst (snd (m p w))) = f p)"

lemma keeps_on_error_bind:
  assumes "keeps f m" and "\<And>a. keeps_on_error f (g a)"
  shows "keeps_on_error f (sh_bind m g)"
  unfolding keeps_on_error_def
proof (intro allI impI)
  fix p w assume err: "fst (sh_bind m g p w) \<noteq> Ok ()"
  obtain b p1 w1 where m: "m p w = (b, p1, w1)" by (cases "m p w")
  then have "f p1 = f p" using assms(1) unfolding keeps_def by (metis fst_conv snd_conv)
  then show "f (fst (snd (sh_bind m g p w))) = f p"
    using assms(2) m err by (cases b) (simp_all add: sh_bind_def keeps_on_error_def)
qed

lemma keeps_imp: "keeps f m \<Longrightarrow> keeps_on_error f m" "keeps exec_key n \<Longrightarrow> keeps ep_id n"
  by (auto simp: keeps_def keeps_on_error_def exec_key_def)

text \<open>A start of an exec process that fails changes neither its pid nor its state, and no start changes its id.\<close>

lemma exec_start_keeps: "keeps_on_error exec_key (exec_start r cid)" "keeps ep_id (exec_start r cid)"
proof -
  let ?io = "\<lambda>t a b. if t then sh_call a (rt_NewSocket r)
      else sh_bind (sh_call b (rt_CreateIO r)) (\<lambda>_ e w. (Ok (), e\<lparr>ep_hasIO := True\<rparr>, w))"
  let ?con = "\<lambda>t a b d. if t then sh_bind (sh_call a (rt_ReceiveMaster r)) (\<lambda>_. sh_bind (sh_call b (rt_CopyConsole r))
      (\<lambda>_ e w. (Ok (), e\<lparr>ep_console := True\<rparr>, w))) else sh_call d (rt_CopyIO r)"
  have key: "keeps exec_key (?io t a b)" "keeps exec_key (?con t a b d)" for t a b d by (simp_all add: keeps_chain)
  have read: "keeps_on_error exec_key (exec_read_pid r)" "keeps ep_id (exec_read_pid r)"
    by (auto simp: keeps_on_error_def keeps_def exec_read_pid_def split: sum.splits)
  have "keeps_on_error exec_key (sh_bind (?io t a b) (\<lambda>_. sh_bind (exec_call r cid) (\<lambda>_.
      sh_bind (sh_when u (sh_call c f)) (\<lambda>_. sh_bind (?con t d e g) (\<lambda>_. exec_read_pid r)))))" for t a b u c f d e g
    by (intro keeps_on_error_bind key exec_keeps keeps_when keeps_call read)
  then show "keeps_on_error exec_key (exec_start r cid)"
    by (simp add: keeps_on_error_def exec_start_def Let_def del: all_simps)
  have "keeps ep_id (sh_bind (?io t a b) (\<lambda>_. sh_bind (exec_call r cid) (\<lambda>_.
      sh_bind (sh_when u (sh_call c f)) (\<lambda>_. sh_bind (?con t d e g) (\<lambda>_. exec_read_pid r)))))" for t a b u c f d e g
    by (intro keeps_chain keeps_imp(2) [OF key(1)] keeps_imp(2) [OF key(2)] keeps_imp(2) [OF exec_keeps(1)] keeps_when
        keeps_call read)
  then show "keeps ep_id (exec_start r cid)" by (simp add: keeps_def exec_start_def Let_def del: all_simps)
qed

lemma etame_Start: "etame (exec_Start r cid)"
  unfolding relates_def
proof (intro allI impI)
  fix e w assume e: "epid0 e"
  obtain a e1 w1 where m: "exec_start r cid e w = (a, e1, w1)" by (cases "exec_start r cid e w")
  have i: "ep_id e1 = ep_id e" using exec_start_keeps(2) [of r cid] m unfolding keeps_def by (metis fst_conv snd_conv)
  have k: "exec_key e1 = exec_key e" if "a \<noteq> Ok ()"
    using exec_start_keeps(1) [of r cid] m that unfolding keeps_on_error_def by (metis fst_conv snd_conv)
  show "epid0 (fst (snd (exec_Start r cid e w))) \<and> exec_le e (fst (snd (exec_Start r cid e w)))"
    using e m i k
    by (cases "ep_state e"; cases a) (simp_all add: exec_Start_def sh_bind_def epid0_def exec_le_def exec_key_def fail_msg_def)
qed

lemma etame_ops: "etame (exec_Delete r)" "etame (exec_Kill r sig)" "etame (exec_SetExited st)"
  by (auto simp: relates_def exec_Delete_def exec_Kill_def exec_kill_def exec_SetExited_def epid0_def exec_le_def
      fail_msg_def Let_def split: exec_state.splits prod.splits option.splits)


subsection \<open>Containers\<close>

abbreviation ctame :: "('a, ctr, 'w) shim_op \<Rightarrow> bool" where
  "ctame \<equiv> relates ct_wf (\<lambda>c c'. ct_wf c' \<and> ct_le c c')"

fun pref_ok :: "pref \<Rightarrow> ctr \<Rightarrow> bool" where
  "pref_ok PInit c = True"
| "pref_ok (PExec k) c = (k < length (ct_execs c))"

lemma ct_le_pref:
  assumes "ct_le c c'" and "pref_ok p c"
  shows "pref_ok p c'" "proc_ID p c' = proc_ID p c" "proc_Pid p c \<noteq> 0 \<Longrightarrow> proc_Pid p c' = proc_Pid p c" "ct_ID c' = ct_ID c"
  using assms by (cases p; auto simp: ct_le_def init_le_def exec_le_def)+

lemma exec_le_refl [simp]: "exec_le e e"
  by (simp add: exec_le_def)

lemma ctame_on_init: "tame m \<Longrightarrow> ctame (on_init m)"
  by (auto simp: relates_def on_init_def ct_wf_def ct_le_def split: prod.splits) (metis fst_conv snd_conv)+

lemma ctame_on_exec:
  assumes "etame m"
  shows "ctame (on_exec k m)"
  unfolding relates_def
proof (intro allI impI)
  fix c :: ctr and w assume wf: "ct_wf c"
  obtain a e w1 where m: "m (ct_execs c ! k) w = (a, e, w1)" by (cases "m (ct_execs c ! k) w")
  have e: "epid0 e \<and> exec_le (ct_execs c ! k) e" if "k < length (ct_execs c)"
    using assms wf that m unfolding relates_def ct_wf_def by (metis fst_conv snd_conv nth_mem)
  have "\<forall>x \<in> set ((ct_execs c)[k := e]). epid0 x"
    using wf e set_update_subset_insert [of "ct_execs c" k e]
    by (cases "k < length (ct_execs c)") (auto simp: ct_wf_def list_update_beyond)
  moreover have "exec_le (ct_execs c ! j) ((ct_execs c)[k := e] ! j)" if "j < length (ct_execs c)" for j
    using e that by (cases "j = k") simp_all
  moreover have "ep_id ((ct_execs c)[k := e] ! j) = ep_id (ct_execs c ! j)" if "j < length (ct_execs c)" for j
    using calculation(2) [OF that] by (simp add: exec_le_def)
  ultimately show "ct_wf (fst (snd (on_exec k m c w))) \<and> ct_le c (fst (snd (on_exec k m c w)))"
    using wf m by (auto simp: on_exec_def ct_wf_def ct_le_def)
qed

lemma ctame_select:
  assumes "ctame m" and "\<And>k c. ctame (n k c)" and "\<And>c w. f c w = (case p of PInit \<Rightarrow> m c w | PExec k \<Rightarrow> n k c c w)"
  shows "ctame f"
  using assms by (cases p) (simp_all add: relates_def)

lemma ctame_proc:
  "ctame (proc_Start r p)" "ctame (proc_Delete r p)" "ctame (proc_Kill r p sig all)" "ctame (proc_SetExited r p st)"
  by (rule ctame_select [OF ctame_on_init [OF tame_task_Start] ctame_on_exec [OF etame_Start] proc_Start_def]
      ctame_select [OF ctame_on_init [OF tame_task_Delete] ctame_on_exec [OF etame_ops(1)] proc_Delete_def]
      ctame_select [OF ctame_on_init [OF tame_task_ops(5)] ctame_on_exec [OF etame_ops(2)] proc_Kill_def]
      ctame_select [OF ctame_on_init [OF tame_task_ops(6)] ctame_on_exec [OF etame_ops(3)] proc_SetExited_def])+

lemma ctame_simple:
  "ctame (ct_Pause r)" "ctame (ct_Resume r)" "ctame (ct_Update r res)" "ctame (on_init (init_KillAll r))"
  unfolding ct_Pause_def ct_Resume_def ct_Update_def
  by (intro ctame_on_init tame_task_ops fixed_tame fixed_basic)+

lemma ctame_branch: "(\<And>c w. ct_wf c \<Longrightarrow> ct_wf (fst (snd (m c w))) \<and> ct_le c (fst (snd (m c w)))) \<Longrightarrow> ctame m"
  by (simp add: relates_def)

lemma ctameD: "ctame m \<Longrightarrow> m c w = (a, c', w') \<Longrightarrow> ct_wf c \<Longrightarrow> ct_wf c' \<and> ct_le c c'"
  unfolding relates_def by (metis fst_conv snd_conv)

lemma ctame_Checkpoint: "ctame (ct_Checkpoint r path v)"
  using ctame_on_init [OF tame_task_ops(4), of r]
  by (intro ctame_branch) (auto simp: ct_Checkpoint_def relates_def split: sum.split)

lemma ctame_Kill: "ctame (ct_Kill r x sig all)"
  using ctame_proc(3) [of r] by (intro ctame_branch) (auto simp: ct_Kill_def relates_def split: sum.split)

lemma ctame_Delete: "ctame (ct_Delete r x)"
proof (rule ctame_branch)
  fix c w assume wf: "ct_wf c"
  have rem: "ct_wf (ct_ProcessRemove x c) \<and> ct_le c (ct_ProcessRemove x c)" if "ct_wf c" for c
    using that by (auto simp: ct_ProcessRemove_def ct_wf_def ct_le_def split: if_splits)
  show "ct_wf (fst (snd (ct_Delete r x c w))) \<and> ct_le c (fst (snd (ct_Delete r x c w)))"
    using wf rem by (auto simp: ct_Delete_def split: sum.split prod.splits outcome.split
        dest!: ctameD [OF ctame_proc(2)] intro: ct_le_trans)
qed

lemma ctame_Start:
  assumes "ct_wf c" and "ct_Start r x c w = (p, res, c', w')"
  shows "ct_wf c' \<and> ct_le c c'"
proof -
  have cg: "ct_wf (b\<lparr>ct_cgroup := g\<rparr>) = ct_wf b" "ct_le a (b\<lparr>ct_cgroup := g\<rparr>) = ct_le a b" for a b g
    by (simp_all add: ct_wf_def ct_le_def)
  show ?thesis
    using assms by (auto simp: ct_Start_def cg split: sum.splits prod.splits outcome.splits if_splits
        dest!: ctameD [OF ctame_proc(1)])
qed

lemma ct_Start_ref:
  assumes "ct_wf c" and "ct_Start r x c w = (Some p, res, c', w')"
  shows "pref_ok p c'" "x = [] \<Longrightarrow> p = PInit"
proof -
  have p: "ct_Process x c = Inr p"
    using assms(2) by (auto simp: ct_Start_def split: sum.splits prod.splits outcome.splits)
  then have "pref_ok p c" using assms(1) by (auto simp: ct_Process_def ct_wf_def split: if_splits option.splits)
  then show "pref_ok p c'" using ct_le_pref(1) ctame_Start [OF assms] by blast
  show "x = [] \<Longrightarrow> p = PInit" using p by (simp add: ct_Process_def)
qed

lemma ctame_Exec: "ctame (ct_Exec r q)"
proof (rule ctame_branch)
  fix c w assume wf: "ct_wf c"
  obtain a c1 w1 where m: "on_init (task_Exec r (xq_ExecID q) (ct_Bundle c) (xq_Spec q)
      \<lparr>sio_Stdin = xq_Stdin q, sio_Terminal = xq_Terminal q\<rparr>) c w = (a, c1, w1)" by (metis prod_cases3)
  then have 1: "ct_wf c1" "ct_le c c1" using ctameD [OF ctame_on_init [OF tame_task_Exec] m wf] by simp_all
  have "a = Ok e \<Longrightarrow> epid0 e" for e
    using m by (auto simp: on_init_def task_Exec_def fail_msg_def new_exec_def epid0_def
        split: prod.splits init_state.splits option.splits)
  then have "a = Ok e \<Longrightarrow> ct_wf (ct_ProcessAdd e c1) \<and> ct_le c1 (ct_ProcessAdd e c1)" for e
    using 1(1) by (auto simp: ct_ProcessAdd_def ct_wf_def ct_le_def nth_append less_Suc_eq)
  then show "ct_wf (fst (snd (ct_Exec r q c w))) \<and> ct_le c (fst (snd (ct_Exec r q c w)))"
    using m 1 by (cases a) (auto simp: ct_Exec_def intro: ct_le_trans)
qed

lemma ctame_reserve:
  assumes "ct_wf c"
  shows "ct_wf (snd (ct_ReserveProcess i c)) \<and> ct_le c (snd (ct_ReserveProcess i c))" "ct_wf (ct_cancel i c) \<and> ct_le c (ct_cancel i c)"
  using assms by (auto simp: ct_ReserveProcess_def ct_cancel_def ct_wf_def ct_le_def)

lemma NewContainer_wf: "NewContainer r q w = (Ok c, w') \<Longrightarrow> ct_wf c"
proof -
  assume "NewContainer r q w = (Ok c, w')"
  then obtain opts rootfs w3 p w4 g where m: "mounted_init r q opts rootfs w3 = (Ok (), p, w4)" "c = new_ctr q p g"
    by (auto simp: NewContainer_def Let_def split: sum.splits prod.splits option.splits outcome.splits)
  then obtain w5 where "init_Create r q (newInit q opts rootfs) w5 = (Ok (), p, w4)"
    by (auto simp: mounted_init_def Let_def split: prod.splits option.splits)
  moreover have "ip_state (newInit q opts rootfs) = ICreated" "ip_pid (newInit q opts rootfs) = 0"
    by (simp_all add: newInit_def new_task_def)
  ultimately have "pid0 p" using relates_init_Create [of r q] unfolding relates_def by (metis fst_conv snd_conv)
  then show "ct_wf c" using m(2) by (simp add: new_ctr_def ct_wf_def)
qed

end
