(* ===== verification/Shim_Service.thy ===== *)
theory Shim_Service
  imports Shim_Container
begin

text \<open>The task service of containerd's runc shim, \<^verbatim>\<open>cmd/containerd-shim-runc-v2/task/service.go\<close>, as a step relation.
  Requests run concurrently with each other and with the loop that receives the exits of processes. A request is a thread
  whose phases are the stretches between the points where it takes or releases a lock or sends an event; the exit loop
  has its own phase. The lock \<^verbatim>\<open>mu\<close> is held across phases only by a create request, all other critical sections lie
  inside a phase. The event channel is drained by a goroutine that only publishes, so it is the list of the events sent.
  A nil dereference or another panic in a request ends the shim.\<close>

section \<open>State\<close>

record exit =
  ex_Pid :: int
  ex_Status :: int

datatype event =
    EvCreate string int | EvStart string int | EvExecAdded string string | EvExecStarted string string int
  | EvExit string string int int | EvDelete string int int | EvPaused string | EvResumed string

datatype task_status = UNKNOWN | CREATED | RUNNING | STOPPED | PAUSED | PAUSING

datatype response =
    RPid int | REmpty | RErr shim_err | RState string string int task_status int | RExit int | RDeleted int int

datatype request =
    QStart string | QDelete string string | QExec exec_request | QState string | QPause | QResume
  | QKill string nat bool | QCheckpoint string "string option" | QUpdate string | QWait string

text \<open>The phases of a request. A container is a position in the heap of container objects.

  \<^item> \<open>TCall\<close>: the container of the request is known;
  \<^item> \<open>TCreate\<close>: a create request that holds \<^verbatim>\<open>mu\<close> and has subscribed to exits;
  \<^item> \<open>TStart\<close>: a start request that has subscribed;
  \<^item> \<open>TStarted\<close>: \<^verbatim>\<open>container.Start\<close> has returned;
  \<^item> \<open>TAnnounced\<close>: the event is sent (if there is one) and \<^verbatim>\<open>handleStarted\<close> has read the pid;
  \<^item> \<open>TEarly\<close>: exits that came early are still to be handled;
  \<^item> \<open>TReserved\<close>, \<open>TDeleted\<close>, \<open>TSend\<close>: an exec id is reserved, a container is deleted, an event is to be sent;
  \<^item> \<open>TDone\<close>: the request is answered.\<close>

datatype thread =
    TCall nat request
  | TCreate create_request
  | TStart nat string
  | TStarted nat "pref option" "shim_err option" string
  | TAnnounced nat "pref option" int response bool
  | TEarly nat pref "exit list" response bool
  | TReserved nat exec_request
  | TDeleted string nat pref
  | TSend event response
  | TDone response

record 'w svc =
  sv_heap :: "ctr list"
  sv_containers :: "(string, nat) fmap"
  sv_running :: "int \<Rightarrow> (nat \<times> pref) list"
  sv_exitSubscribers :: "nat \<rightharpoonup> (int \<rightharpoonup> exit list)"
  sv_events :: "event list"
  sv_mu :: "nat option"
  sv_threads :: "nat \<rightharpoonup> thread"
  sv_reaper :: "(exit \<times> (nat \<times> pref) list) option"
  sv_reaped :: "exit list"
  sv_shutdown :: bool
  sv_panicked :: bool
  sv_w :: 'w

text \<open>The state of a new service. The list of all exits received so far and the flag of a panic are kept for the
  statements only.\<close>

definition new_service :: "'w \<Rightarrow> 'w svc" where
  "new_service w =
    \<lparr>sv_heap = [], sv_containers = fmempty, sv_running = (\<lambda>_. []), sv_exitSubscribers = Map.empty, sv_events = [],
     sv_mu = None, sv_threads = Map.empty, sv_reaper = None, sv_reaped = [], sv_shutdown = False, sv_panicked = False,
     sv_w = w\<rparr>"

section \<open>Shared operations\<close>

definition send :: "event \<Rightarrow> 'w svc \<Rightarrow> 'w svc" where
  "send ev s = s\<lparr>sv_events := sv_events s @ [ev]\<rparr>"

definition goto_phase :: "nat \<Rightarrow> thread \<Rightarrow> 'w svc \<Rightarrow> 'w svc" where
  "goto_phase t th s = s\<lparr>sv_threads := (sv_threads s)(t \<mapsto> th)\<rparr>"

definition unlock :: "bool \<Rightarrow> 'w svc \<Rightarrow> 'w svc" where
  "unlock muLocked s = (if muLocked then s\<lparr>sv_mu := None\<rparr> else s)"

definition put_ctr :: "nat \<Rightarrow> ctr \<Rightarrow> 'w \<Rightarrow> 'w svc \<Rightarrow> 'w svc" where
  "put_ctr c ct w s = s\<lparr>sv_heap := (sv_heap s)[c := ct], sv_w := w\<rparr>"

definition panicked :: "'w svc \<Rightarrow> 'w svc" where
  "panicked s = s\<lparr>sv_panicked := True\<rparr>"

text \<open>A new subscriber; the init process of a container that is started stops being a running process until its exit
  can be handled again.\<close>

definition preStart :: "nat \<Rightarrow> nat option \<Rightarrow> 'w svc \<Rightarrow> 'w svc" where
  "preStart t cinit s =
    (let s1 = s\<lparr>sv_exitSubscribers := (sv_exitSubscribers s)(t \<mapsto> Map.empty)\<rparr> in
     case cinit of
       None \<Rightarrow> s1
     | Some c \<Rightarrow>
         (let pid = ct_Pid (sv_heap s1 ! c) in
          s1\<lparr>sv_running := (sv_running s1)(pid := filter (\<lambda>cp. fst cp \<noteq> c) (sv_running s1 pid))\<rparr>))"

text \<open>The critical section of \<^verbatim>\<open>handleStarted\<close>, with the early exits that are left to be handled\<close>

definition handleStarted :: "nat \<Rightarrow> nat \<Rightarrow> pref option \<Rightarrow> int \<Rightarrow> 'w svc \<Rightarrow> exit list \<times> 'w svc" where
  "handleStarted t c po pid s =
    (let early = (case sv_exitSubscribers s t of None \<Rightarrow> None | Some exits \<Rightarrow> exits pid);
         s1 = s\<lparr>sv_exitSubscribers := (sv_exitSubscribers s)(t := None)\<rparr>
     in case po of
          None \<Rightarrow> ([], s1)
        | Some p \<Rightarrow>
            if pid = 0 then ([], s1)
            else case early of
              Some ees \<Rightarrow> (ees, s1)
            | None \<Rightarrow> ([], s1\<lparr>sv_running := (sv_running s1)(pid := sv_running s1 pid @ [(c, p)])\<rparr>))"

definition cleanup :: "nat \<Rightarrow> 'w svc \<Rightarrow> 'w svc" where
  "cleanup t s = s\<lparr>sv_exitSubscribers := (sv_exitSubscribers s)(t := None)\<rparr>"

definition ShouldKillAllOnExit :: "('w, 'z) rtc_scheme \<Rightarrow> string \<Rightarrow> 'w \<Rightarrow> bool" where
  "ShouldKillAllOnExit r bundle w =
    (case rc_ReadSpec r (Join [bundle, ''config.json'']) w of
       Inl e \<Rightarrow> True
     | Inr spec \<Rightarrow> (case os_Namespaces spec of None \<Rightarrow> True | Some nss \<Rightarrow> (''pid'', []) \<notin> set nss))"

definition handleProcessExit :: "('w, 'z) rtc_scheme \<Rightarrow> exit \<Rightarrow> nat \<Rightarrow> pref \<Rightarrow> 'w svc \<Rightarrow> 'w svc" where
  "handleProcessExit r e c p s =
    (let ct = sv_heap s ! c;
         (ct1, w1) = (if p = PInit \<and> ShouldKillAllOnExit r (ct_Bundle ct) (sv_w s)
                      then snd (on_init (init_KillAll r) ct (sv_w s)) else (ct, sv_w s))
     in case proc_SetExited r p (ex_Status e) ct1 w1 of
          (Panic, ct2, w2) \<Rightarrow> panicked (put_ctr c ct2 w2 s)
        | (_, ct2, w2) \<Rightarrow>
            send (EvExit (ct_ID ct2) (proc_ID p ct2) (ex_Pid e) (ex_Status e)) (put_ctr c ct2 w2 s))"

section \<open>The phases\<close>

definition status_of :: "string \<Rightarrow> task_status" where
  "status_of st =
    (if st = ''created'' then CREATED else if st = ''running'' then RUNNING else if st = ''stopped'' then STOPPED
     else if st = ''paused'' then PAUSED else if st = ''pausing'' then PAUSING else UNKNOWN)"

text \<open>An operation of a container whose answer is the given phase\<close>

definition with_ctr :: "nat \<Rightarrow> nat \<Rightarrow> ('a, ctr, 'w) shim_op \<Rightarrow> ('a \<Rightarrow> ctr \<Rightarrow> thread) \<Rightarrow> 'w svc \<Rightarrow> 'w svc" where
  "with_ctr t c m k s =
    (case m (sv_heap s ! c) (sv_w s) of
       (Ok a, ct, w) \<Rightarrow> goto_phase t (k a ct) (put_ctr c ct w s)
     | (Err e, ct, w) \<Rightarrow> goto_phase t (TDone (RErr e)) (put_ctr c ct w s)
     | (Panic, ct, w) \<Rightarrow> panicked (put_ctr c ct w s))"

definition reserve_op :: "string \<Rightarrow> (unit, ctr, 'w) shim_op" where
  "reserve_op i c w =
    (case ct_ReserveProcess i c of (ok, c1) \<Rightarrow> (if ok then Ok () else Err (AlreadyExists (''id '' @ i)), c1, w))"

definition exec_op :: "('w, 'z) rt_scheme \<Rightarrow> exec_request \<Rightarrow> (string, ctr, 'w) shim_op" where
  "exec_op r q c w =
    (case ct_Exec r q c w of (Err e, c1, w1) \<Rightarrow> (Err e, ct_cancel (xq_ExecID q) c1, w1) | res \<Rightarrow> res)"

definition state_op :: "string \<Rightarrow> (response, ctr, 'w) shim_op" where
  "state_op x c w =
    (case ct_Process x c of
       Inl e \<Rightarrow> (Err e, c, w)
     | Inr p \<Rightarrow> (Ok (RState (proc_ID p c) (ct_Bundle c) (proc_Pid p c) (status_of (proc_Status p c)) (proc_ExitStatus p c)), c, w))"

definition delete_phase :: "string \<Rightarrow> string \<Rightarrow> nat \<Rightarrow> pref \<Rightarrow> ctr \<Rightarrow> thread" where
  "delete_phase i x c p ct =
    (if x = [] then TDeleted i c p else TDone (RDeleted (proc_Pid p ct) (proc_ExitStatus p ct)))"

text \<open>The requests once their container is known\<close>

definition Start_call :: "nat \<Rightarrow> nat \<Rightarrow> string \<Rightarrow> 'w svc \<Rightarrow> 'w svc" where
  "Start_call t c x s = goto_phase t (TStart c x) (preStart t (if x = [] then Some c else None) s)"

definition Delete_call :: "('w, 'z) rtc_scheme \<Rightarrow> nat \<Rightarrow> nat \<Rightarrow> string \<Rightarrow> string \<Rightarrow> 'w svc \<Rightarrow> 'w svc" where
  "Delete_call r t c i x s = with_ctr t c (ct_Delete r x) (delete_phase i x c) s"

definition Exec_call :: "nat \<Rightarrow> nat \<Rightarrow> exec_request \<Rightarrow> 'w svc \<Rightarrow> 'w svc" where
  "Exec_call t c q s = with_ctr t c (reserve_op (xq_ExecID q)) (\<lambda>_ _. TReserved c q) s"

definition State_call :: "nat \<Rightarrow> nat \<Rightarrow> string \<Rightarrow> 'w svc \<Rightarrow> 'w svc" where
  "State_call t c x s = with_ctr t c (state_op x) (\<lambda>resp _. TDone resp) s"

definition Pause_call :: "('w, 'z) rtc_scheme \<Rightarrow> nat \<Rightarrow> nat \<Rightarrow> 'w svc \<Rightarrow> 'w svc" where
  "Pause_call r t c s = with_ctr t c (ct_Pause r) (\<lambda>_ ct. TSend (EvPaused (ct_ID ct)) REmpty) s"

definition Resume_call :: "('w, 'z) rtc_scheme \<Rightarrow> nat \<Rightarrow> nat \<Rightarrow> 'w svc \<Rightarrow> 'w svc" where
  "Resume_call r t c s = with_ctr t c (ct_Resume r) (\<lambda>_ ct. TSend (EvResumed (ct_ID ct)) REmpty) s"

definition Kill_call :: "('w, 'z) rtc_scheme \<Rightarrow> nat \<Rightarrow> nat \<Rightarrow> string \<Rightarrow> nat \<Rightarrow> bool \<Rightarrow> 'w svc \<Rightarrow> 'w svc" where
  "Kill_call r t c x sig all s = with_ctr t c (ct_Kill r x sig all) (\<lambda>_ _. TDone REmpty) s"

definition Checkpoint_call :: "('w, 'z) rtc_scheme \<Rightarrow> nat \<Rightarrow> nat \<Rightarrow> string \<Rightarrow> string option \<Rightarrow> 'w svc \<Rightarrow> 'w svc" where
  "Checkpoint_call r t c path v s = with_ctr t c (ct_Checkpoint r path v) (\<lambda>_ _. TDone REmpty) s"

definition Update_call :: "('w, 'z) rtc_scheme \<Rightarrow> nat \<Rightarrow> nat \<Rightarrow> string \<Rightarrow> 'w svc \<Rightarrow> 'w svc" where
  "Update_call r t c res s = with_ctr t c (ct_Update r res) (\<lambda>_ _. TDone REmpty) s"

text \<open>A wait blocks until the channel of the process is closed.\<close>

definition Wait_call :: "nat \<Rightarrow> nat \<Rightarrow> string \<Rightarrow> 'w svc \<Rightarrow> 'w svc option" where
  "Wait_call t c x s =
    (let ct = sv_heap s ! c in
     case ct_Process x ct of
       Inl e \<Rightarrow> Some (goto_phase t (TDone (RErr e)) s)
     | Inr p \<Rightarrow> if proc_waitClosed p ct then Some (goto_phase t (TDone (RExit (proc_ExitStatus p ct))) s) else None)"

lemmas call_defs [simp] = Start_call_def Delete_call_def Exec_call_def State_call_def Pause_call_def Resume_call_def
  Kill_call_def Checkpoint_call_def Update_call_def Wait_call_def

fun call_phase :: "('w, 'z) rtc_scheme \<Rightarrow> nat \<Rightarrow> nat \<Rightarrow> request \<Rightarrow> 'w svc \<Rightarrow> 'w svc option" where
  "call_phase r t c (QStart x) s = Some (Start_call t c x s)"
| "call_phase r t c (QDelete i x) s = Some (Delete_call r t c i x s)"
| "call_phase r t c (QExec q) s = Some (Exec_call t c q s)"
| "call_phase r t c (QState x) s = Some (State_call t c x s)"
| "call_phase r t c QPause s = Some (Pause_call r t c s)"
| "call_phase r t c QResume s = Some (Resume_call r t c s)"
| "call_phase r t c (QKill x sig all) s = Some (Kill_call r t c x sig all s)"
| "call_phase r t c (QCheckpoint path v) s = Some (Checkpoint_call r t c path v s)"
| "call_phase r t c (QUpdate res) s = Some (Update_call r t c res s)"
| "call_phase r t c (QWait x) s = Wait_call t c x s"

definition create_phase :: "('w, 'z) rtc_scheme \<Rightarrow> nat \<Rightarrow> create_request \<Rightarrow> 'w svc \<Rightarrow> 'w svc" where
  "create_phase r t q s =
    (case NewContainer r q (sv_w s) of
       (Err e, w) \<Rightarrow> goto_phase t (TDone (RErr e)) (unlock True (cleanup t (s\<lparr>sv_w := w\<rparr>)))
     | (Panic, w) \<Rightarrow> panicked (s\<lparr>sv_w := w\<rparr>)
     | (Ok ct, w) \<Rightarrow>
         goto_phase t (TAnnounced (length (sv_heap s)) (Some PInit) (ct_Pid ct) (RPid (ct_Pid ct)) True)
           (send (EvCreate (cq_ID q) (ct_Pid ct))
             (s\<lparr>sv_heap := sv_heap s @ [ct], sv_containers := fmupd (cq_ID q) (length (sv_heap s)) (sv_containers s), sv_w := w\<rparr>)))"

definition start_phase :: "('w, 'z) rtc_scheme \<Rightarrow> nat \<Rightarrow> nat \<Rightarrow> string \<Rightarrow> 'w svc \<Rightarrow> 'w svc" where
  "start_phase r t c x s =
    (case ct_Start r x (sv_heap s ! c) (sv_w s) of
       (po, Ok _, ct, w) \<Rightarrow> goto_phase t (TStarted c po None x) (put_ctr c ct w s)
     | (po, Err e, ct, w) \<Rightarrow> goto_phase t (TStarted c po (Some e) x) (put_ctr c ct w s)
     | (po, Panic, ct, w) \<Rightarrow> panicked (put_ctr c ct w s))"

definition ref_Pid :: "pref option \<Rightarrow> ctr \<Rightarrow> int" where
  "ref_Pid po ct = (case po of None \<Rightarrow> 0 | Some p \<Rightarrow> proc_Pid p ct)"

text \<open>After a successful start the cgroup of an init process is watched. A nil manager inside the interface is
  dereferenced.\<close>

definition announce_phase :: "('w, 'z) rtc_scheme \<Rightarrow> nat \<Rightarrow> nat \<Rightarrow> pref option \<Rightarrow> shim_err option \<Rightarrow> string \<Rightarrow> 'w svc \<Rightarrow> 'w svc" where
  "announce_phase r t c po err x s =
    (let ct = sv_heap s ! c; pid = ref_Pid po ct in
     case err of
       Some e \<Rightarrow> goto_phase t (TAnnounced c po pid (RErr e) False) s
     | None \<Rightarrow>
         if x = [] then
           if ct_cgroup ct = CgV2 None then panicked s
           else goto_phase t (TAnnounced c po pid (RPid pid) False)
                  (send (EvStart (ct_ID ct) pid)
                    (if ct_cgroup ct = CgNil then s else s\<lparr>sv_w := rc_WatchOOM r (ct_ID ct) (ct_cgroup ct) (sv_w s)\<rparr>))
         else goto_phase t (TAnnounced c po pid (RPid pid) False) (send (EvExecStarted (ct_ID ct) x pid) s))"

definition started_phase :: "nat \<Rightarrow> nat \<Rightarrow> pref option \<Rightarrow> int \<Rightarrow> response \<Rightarrow> bool \<Rightarrow> 'w svc \<Rightarrow> 'w svc" where
  "started_phase t c po pid resp muLocked s =
    (case handleStarted t c po pid s of (ees, s1) \<Rightarrow>
      (case po of
         Some p \<Rightarrow> if ees = [] then goto_phase t (TDone resp) (unlock muLocked s1) else goto_phase t (TEarly c p ees resp muLocked) s1
       | None \<Rightarrow> goto_phase t (TDone resp) (unlock muLocked s1)))"

definition early_phase :: "('w, 'z) rtc_scheme \<Rightarrow> nat \<Rightarrow> nat \<Rightarrow> pref \<Rightarrow> exit list \<Rightarrow> response \<Rightarrow> bool \<Rightarrow> 'w svc \<Rightarrow> 'w svc option" where
  "early_phase r t c p ees resp muLocked s =
    (if sv_mu s = (if muLocked then Some t else None) then
       case ees of
         [] \<Rightarrow> Some (goto_phase t (TDone resp) (unlock muLocked s))
       | e # es \<Rightarrow>
           (let s1 = handleProcessExit r e c p s in
            Some (if sv_panicked s1 then s1
                  else if es = [] then goto_phase t (TDone resp) (unlock muLocked s1)
                  else goto_phase t (TEarly c p es resp muLocked) s1))
     else None)"

definition deleted_phase :: "nat \<Rightarrow> string \<Rightarrow> nat \<Rightarrow> pref \<Rightarrow> 'w svc \<Rightarrow> 'w svc option" where
  "deleted_phase t i c p s =
    (if sv_mu s = None then
       let ct = sv_heap s ! c; pid = proc_Pid p ct; st = proc_ExitStatus p ct in
       Some (goto_phase t (TSend (EvDelete (ct_ID ct) pid st) (RDeleted pid st))
         (s\<lparr>sv_containers := fmdrop i (sv_containers s)\<rparr>))
     else None)"

fun advance :: "('w, 'z) rtc_scheme \<Rightarrow> nat \<Rightarrow> thread \<Rightarrow> 'w svc \<Rightarrow> 'w svc option" where
  "advance r t (TCall c q) s = call_phase r t c q s"
| "advance r t (TCreate q) s = Some (create_phase r t q s)"
| "advance r t (TStart c x) s = Some (start_phase r t c x s)"
| "advance r t (TStarted c po err x) s = Some (announce_phase r t c po err x s)"
| "advance r t (TAnnounced c po pid resp muLocked) s = Some (started_phase t c po pid resp muLocked s)"
| "advance r t (TEarly c p ees resp muLocked) s = early_phase r t c p ees resp muLocked s"
| "advance r t (TReserved c q) s =
    Some (with_ctr t c (exec_op r q) (\<lambda>i ct. TSend (EvExecAdded (ct_ID ct) i) REmpty) s)"
| "advance r t (TDeleted i c p) s = deleted_phase t i c p s"
| "advance r t (TSend ev resp) s = Some (goto_phase t (TDone resp) (send ev s))"
| "advance r t (TDone resp) s = None"

section \<open>Requests arrive, exits are received\<close>

definition begin_create :: "nat \<Rightarrow> create_request \<Rightarrow> 'w svc \<Rightarrow> 'w svc" where
  "begin_create t q s = goto_phase t (TCreate q) (preStart t None (s\<lparr>sv_mu := Some t\<rparr>))"

definition getContainer :: "string \<Rightarrow> 'w svc \<Rightarrow> (shim_err, nat) res" where
  "getContainer i s =
    (case fmlookup (sv_containers s) i of None \<Rightarrow> Inl (NotFound ''container not created'') | Some c \<Rightarrow> Inr c)"

definition begin_call :: "nat \<Rightarrow> string \<Rightarrow> request \<Rightarrow> 'w svc \<Rightarrow> 'w svc" where
  "begin_call t i q s =
    (case getContainer i s of
       Inl e \<Rightarrow> goto_phase t (TDone (RErr e)) s | Inr c \<Rightarrow> goto_phase t (TCall c q) s)"

definition Shutdown :: "'w svc \<Rightarrow> 'w svc" where
  "Shutdown s = (if sv_containers s \<noteq> fmempty then s else s\<lparr>sv_shutdown := True\<rparr>)"

definition deliver :: "exit \<Rightarrow> (int \<rightharpoonup> exit list) \<Rightarrow> (int \<rightharpoonup> exit list)" where
  "deliver e exits = exits(ex_Pid e \<mapsto> (case exits (ex_Pid e) of None \<Rightarrow> [e] | Some l \<Rightarrow> l @ [e]))"

text \<open>The body of the loop of \<^verbatim>\<open>processExits\<close>: its critical section, then one process after the other\<close>

definition receive_exit :: "exit \<Rightarrow> 'w svc \<Rightarrow> 'w svc" where
  "receive_exit e s =
    s\<lparr>sv_exitSubscribers := (\<lambda>t. map_option (deliver e) (sv_exitSubscribers s t)),
      sv_running := (sv_running s)(ex_Pid e := []),
      sv_reaper := Some (e, sv_running s (ex_Pid e)),
      sv_reaped := sv_reaped s @ [e]\<rparr>"

definition handle_next :: "('w, 'z) rtc_scheme \<Rightarrow> exit \<Rightarrow> nat \<Rightarrow> pref \<Rightarrow> (nat \<times> pref) list \<Rightarrow> 'w svc \<Rightarrow> 'w svc" where
  "handle_next r e c p cps s =
    (let s1 = handleProcessExit r e c p s in if sv_panicked s1 then s1 else s1\<lparr>sv_reaper := Some (e, cps)\<rparr>)"

definition reaper_idle :: "'w svc \<Rightarrow> bool" where
  "reaper_idle s \<longleftrightarrow> (case sv_reaper s of None \<Rightarrow> True | Some (e, cps) \<Rightarrow> cps = [])"

inductive sstep :: "('w, 'z) rtc_scheme \<Rightarrow> 'w svc \<Rightarrow> 'w svc \<Rightarrow> bool" for r where
  create: "\<not> sv_panicked s \<Longrightarrow> sv_mu s = None \<Longrightarrow> sv_threads s t = None \<Longrightarrow> sstep r s (begin_create t q s)"
| call: "\<not> sv_panicked s \<Longrightarrow> sv_mu s = None \<Longrightarrow> sv_threads s t = None \<Longrightarrow> sstep r s (begin_call t i q s)"
| run: "\<not> sv_panicked s \<Longrightarrow> sv_threads s t = Some th \<Longrightarrow> advance r t th s = Some s' \<Longrightarrow> sstep r s s'"
| exit: "\<not> sv_panicked s \<Longrightarrow> reaper_idle s \<Longrightarrow> sstep r s (receive_exit e s)"
| handle: "\<not> sv_panicked s \<Longrightarrow> sv_reaper s = Some (e, (c, p) # cps) \<Longrightarrow> sv_mu s = None \<Longrightarrow> sstep r s (handle_next r e c p cps s)"
| shutdown: "\<not> sv_panicked s \<Longrightarrow> sv_mu s = None \<Longrightarrow> sstep r s (Shutdown s)"
| world: "\<not> sv_panicked s \<Longrightarrow> sstep r s (s\<lparr>sv_w := w\<rparr>)"


section \<open>What every step keeps\<close>

definition heap_ok :: "'w svc \<Rightarrow> bool" where
  "heap_ok s \<longleftrightarrow> (\<forall>c \<in> set (sv_heap s). ct_wf c)"

text \<open>Objects are only added and only change as operations of containers allow; events are only appended.\<close>

definition grows :: "'w svc \<Rightarrow> 'w svc \<Rightarrow> bool" where
  "grows s s' \<longleftrightarrow> heap_ok s' \<and> length (sv_heap s) \<le> length (sv_heap s') \<and>
     (\<forall>c < length (sv_heap s). ct_le (sv_heap s ! c) (sv_heap s' ! c)) \<and> (\<exists>evs. sv_events s' = sv_events s @ evs)"

lemma grows_refl: "heap_ok s \<Longrightarrow> grows s s"
  by (simp add: grows_def)

lemma grows_trans:
  assumes "grows a b" and "grows b c"
  shows "grows a c"
proof -
  have "ct_le (sv_heap a ! i) (sv_heap c ! i)" if "i < length (sv_heap a)" for i
    using assms that ct_le_trans unfolding grows_def by (meson order_less_le_trans)
  then show ?thesis using assms unfolding grows_def by force
qed

lemmas ctl = send_def goto_phase_def unlock_def panicked_def cleanup_def preStart_def

lemma grows_same:
  assumes "grows s s1" and "sv_heap s' = sv_heap s1" and "\<exists>evs. sv_events s' = sv_events s1 @ evs"
  shows "grows s s'"
  using assms by (auto simp: grows_def heap_ok_def)

lemma grows_put:
  assumes "heap_ok s" and "c < length (sv_heap s) \<Longrightarrow> ct_wf ct \<and> ct_le (sv_heap s ! c) ct"
  shows "grows s (put_ctr c ct w s)"
proof (cases "c < length (sv_heap s)")
  case True
  have "ct_le (sv_heap s ! i) ((sv_heap s)[c := ct] ! i)" if "i < length (sv_heap s)" for i
    using assms(2) True that by (cases "i = c") simp_all
  moreover have "\<forall>x \<in> set ((sv_heap s)[c := ct]). ct_wf x"
    using assms True set_update_subset_insert [of "sv_heap s" c ct] by (auto simp: heap_ok_def)
  ultimately show ?thesis by (auto simp: grows_def put_ctr_def heap_ok_def)
qed (use assms in \<open>simp add: grows_def put_ctr_def heap_ok_def list_update_beyond\<close>)

lemma grows_with_ctr:
  assumes "heap_ok s" and "ctame m"
  shows "grows s (with_ctr t c m k s)"
proof -
  obtain a ct w where m: "m (sv_heap s ! c) (sv_w s) = (a, ct, w)" by (cases "m (sv_heap s ! c) (sv_w s)")
  have "grows s (put_ctr c ct w s)"
    using assms(1) ctameD [OF assms(2) m] by (intro grows_put) (simp_all add: heap_ok_def)
  then show ?thesis
    using m by (cases a) (auto simp: with_ctr_def ctl intro: grows_same)
qed

text \<open>Handling an exit records it in the process and sends one event, or panics; nothing else changes.\<close>

lemma handleProcessExit_result:
  assumes "heap_ok s"
  obtains ct w where "grows s (put_ctr c ct w s)" "c < length (sv_heap s) \<Longrightarrow> ct_le (sv_heap s ! c) ct"
    "handleProcessExit r e c p s = panicked (put_ctr c ct w s) \<or>
     handleProcessExit r e c p s = send (EvExit (ct_ID ct) (proc_ID p ct) (ex_Pid e) (ex_Status e)) (put_ctr c ct w s)"
proof -
  let ?ct = "sv_heap s ! c"
  obtain ct1 w1 where 1: "(ct1, w1) = (if p = PInit \<and> ShouldKillAllOnExit r (ct_Bundle ?ct) (sv_w s)
      then snd (on_init (init_KillAll r) ?ct (sv_w s)) else (?ct, sv_w s))" by (metis surj_pair)
  obtain a ct2 w2 where 2: "proc_SetExited r p (ex_Status e) ct1 w1 = (a, ct2, w2)"
    by (cases "proc_SetExited r p (ex_Status e) ct1 w1")
  have le: "ct_wf ct2 \<and> ct_le ?ct ct2" if "c < length (sv_heap s)"
  proof -
    have wf: "ct_wf ?ct" using assms that by (simp add: heap_ok_def)
    have "ct_wf ct1 \<and> ct_le ?ct ct1"
    proof (cases "p = PInit \<and> ShouldKillAllOnExit r (ct_Bundle ?ct) (sv_w s)")
      case True
      then obtain b where "on_init (init_KillAll r) ?ct (sv_w s) = (b, ct1, w1)" using 1 by (metis prod.collapse)
      from ctameD [OF ctame_simple(4) this wf] show ?thesis .
    qed (use 1 wf in auto)
    then show ?thesis using ctameD [OF ctame_proc(4) 2] ct_le_trans by blast
  qed
  have "handleProcessExit r e c p s = panicked (put_ctr c ct2 w2 s) \<or>
      handleProcessExit r e c p s = send (EvExit (ct_ID ct2) (proc_ID p ct2) (ex_Pid e) (ex_Status e)) (put_ctr c ct2 w2 s)"
    using 2 by (cases a) (simp_all add: handleProcessExit_def Let_def 1 [symmetric])
  then show ?thesis using that [of ct2 w2] grows_put [OF assms le] le by blast
qed


text \<open>The step of a thread changes only its own phase and its own subscription, and never the exit loop.\<close>

definition framed :: "nat \<Rightarrow> 'w svc \<Rightarrow> 'w svc \<Rightarrow> bool" where
  "framed t s s' \<longleftrightarrow> (\<forall>u. u \<noteq> t \<longrightarrow> sv_threads s' u = sv_threads s u \<and> sv_exitSubscribers s' u = sv_exitSubscribers s u) \<and>
     sv_reaper s' = sv_reaper s \<and> sv_reaped s' = sv_reaped s"

text \<open>A quiet step moreover leaves the subscriptions and the running processes alone.\<close>

definition quiet :: "nat \<Rightarrow> 'w svc \<Rightarrow> 'w svc \<Rightarrow> bool" where
  "quiet t s s' \<longleftrightarrow> framed t s s' \<and> sv_exitSubscribers s' = sv_exitSubscribers s \<and> sv_running s' = sv_running s"

lemma quiet_with_ctr: "quiet t s (with_ctr t c m k s)"
  by (auto simp: quiet_def framed_def with_ctr_def ctl put_ctr_def split: prod.splits outcome.splits)

lemma ctame_ops:
  "ctame (reserve_op i)" "ctame (exec_op r q)" "ctame (state_op x)"
proof -
  show "ctame (reserve_op i)"
    using ctame_reserve(1) by (intro ctame_branch) (metis (no_types, lifting) reserve_op_def fst_conv snd_conv case_prod_beta)
  show "ctame (state_op x)"
    by (intro ctame_branch) (auto simp: state_op_def split: sum.splits)
  show "ctame (exec_op r q)"
  proof (rule ctame_branch)
    fix c w assume wf: "ct_wf c"
    obtain a c1 w1 where m: "ct_Exec r q c w = (a, c1, w1)" by (cases "ct_Exec r q c w")
    from ctameD [OF ctame_Exec this wf] have 1: "ct_wf c1" "ct_le c c1" by simp_all
    then show "ct_wf (fst (snd (exec_op r q c w))) \<and> ct_le c (fst (snd (exec_op r q c w)))"
      using m ctame_reserve(2) [OF 1(1)] ct_le_trans [OF 1(2)] by (cases a) (simp_all add: exec_op_def)
  qed
qed

text \<open>The calls other than a start\<close>

lemma call_quiet:
  assumes "call_phase r t c q s = Some s'" and "\<forall>x. q \<noteq> QStart x" and "heap_ok s"
  shows "quiet t s s'" "grows s s'"
proof -
  have fin: "quiet t s (goto_phase t th s)" "grows s (goto_phase t th s)" for th
    using grows_same [OF grows_refl [OF assms(3)]] by (simp_all add: quiet_def framed_def goto_phase_def)
  note grow = grows_with_ctr [OF assms(3)]
  note ops = quiet_with_ctr grow [OF ctame_Delete] grow [OF ctame_ops(1)] grow [OF ctame_ops(3)] grow [OF ctame_simple(1)]
    grow [OF ctame_simple(2)] grow [OF ctame_simple(3)] grow [OF ctame_Kill] grow [OF ctame_Checkpoint]
  have "quiet t s s' \<and> grows s s'"
    using assms(1,2) by (cases q) (auto simp: ops fin Let_def split: sum.splits if_splits)
  then show "quiet t s s'" "grows s s'" by simp_all
qed


lemma handle_exit_quiet:
  assumes "heap_ok s"
  shows "grows s (handleProcessExit r e c p s)" "sv_threads (handleProcessExit r e c p s) = sv_threads s"
    "sv_exitSubscribers (handleProcessExit r e c p s) = sv_exitSubscribers s" "sv_running (handleProcessExit r e c p s) = sv_running s"
    "sv_reaper (handleProcessExit r e c p s) = sv_reaper s" "sv_reaped (handleProcessExit r e c p s) = sv_reaped s"
    "sv_containers (handleProcessExit r e c p s) = sv_containers s"
  by (rule handleProcessExit_result [OF assms, of c r e p]; auto simp: send_def panicked_def put_ctr_def intro: grows_same)+

lemma early_result:
  assumes "early_phase r t c p ees resp b s = Some s'" and "heap_ok s"
  shows "quiet t s s'" "grows s s'"
    "ees = e # es \<Longrightarrow> s' = handleProcessExit r e c p s \<or>
       (\<not> sv_panicked (handleProcessExit r e c p s) \<and>
        s' = (if es = [] then goto_phase t (TDone resp) (unlock b (handleProcessExit r e c p s))
              else goto_phase t (TEarly c p es resp b) (handleProcessExit r e c p s)))"
proof -
  note quiet = handle_exit_quiet(2-6) [OF assms(2)]
  show "quiet t s s'"
    using assms(1) by (auto simp: early_phase_def quiet_def framed_def goto_phase_def unlock_def Let_def quiet
        split: if_splits list.splits)
  show "grows s s'"
    using assms(1)
    by (auto simp: early_phase_def goto_phase_def unlock_def Let_def split: if_splits list.splits
        intro: grows_same [OF handle_exit_quiet(1) [OF assms(2)]] grows_same [OF grows_refl [OF assms(2)]])
  show "ees = e # es \<Longrightarrow> s' = handleProcessExit r e c p s \<or>
      (\<not> sv_panicked (handleProcessExit r e c p s) \<and>
       s' = (if es = [] then goto_phase t (TDone resp) (unlock b (handleProcessExit r e c p s))
             else goto_phase t (TEarly c p es resp b) (handleProcessExit r e c p s)))"
    using assms(1) by (auto simp: early_phase_def Let_def split: if_splits)
qed

lemma create_result:
  assumes "heap_ok s"
  shows "grows s (create_phase r t q s)" "framed t s (create_phase r t q s)" "sv_running (create_phase r t q s) = sv_running s"
proof -
  obtain a w where m: "NewContainer r q (sv_w s) = (a, w)" by (cases "NewContainer r q (sv_w s)")
  have "grows s (create_phase r t q s) \<and> framed t s (create_phase r t q s) \<and> sv_running (create_phase r t q s) = sv_running s"
  proof (cases a)
    case (Ok ct)
    have "ct_wf ct" by (rule NewContainer_wf [OF m [unfolded Ok]])
    then show ?thesis using m Ok assms
      by (auto simp: create_phase_def ctl grows_def heap_ok_def framed_def nth_append)
  qed (use m assms in \<open>auto simp: create_phase_def ctl grows_def heap_ok_def framed_def\<close>)
  then show "grows s (create_phase r t q s)" "framed t s (create_phase r t q s)" "sv_running (create_phase r t q s) = sv_running s"
    by simp_all
qed

text \<open>Starting returns the process of the request, the init process for the empty id.\<close>

lemma start_result:
  assumes "heap_ok s" and "c < length (sv_heap s)"
  shows "quiet t s (start_phase r t c x s)" "grows s (start_phase r t c x s)"
    "sv_threads (start_phase r t c x s) = sv_threads s \<or>
     (\<exists>po err. sv_threads (start_phase r t c x s) = (sv_threads s)(t \<mapsto> TStarted c po err x) \<and>
        (x = [] \<longrightarrow> po = Some PInit) \<and> (\<forall>p. po = Some p \<longrightarrow> pref_ok p (sv_heap (start_phase r t c x s) ! c)))"
proof -
  obtain po a ct w where m: "ct_Start r x (sv_heap s ! c) (sv_w s) = (po, a, ct, w)"
    by (metis prod_cases4)
  have wf: "ct_wf (sv_heap s ! c)" using assms by (simp add: heap_ok_def)
  have le: "ct_wf ct \<and> ct_le (sv_heap s ! c) ct" using ctame_Start [OF wf m] .
  have ref: "pref_ok p ct" if "po = Some p" for p by (rule ct_Start_ref(1) [OF wf m [unfolded that]])
  have init: "po = Some PInit" if "x = []"
    using m that by (auto simp: ct_Start_def ct_Process_def split: prod.splits outcome.splits)
  have "grows s (put_ctr c ct w s)" using grows_put [OF assms(1)] le by blast
  then show "quiet t s (start_phase r t c x s)" "grows s (start_phase r t c x s)"
    using m by (cases a; auto simp: start_phase_def quiet_def framed_def ctl put_ctr_def intro: grows_same)+
  have "sv_heap (put_ctr c ct w s) ! c = ct" using assms(2) by (simp add: put_ctr_def)
  then show "sv_threads (start_phase r t c x s) = sv_threads s \<or>
     (\<exists>po err. sv_threads (start_phase r t c x s) = (sv_threads s)(t \<mapsto> TStarted c po err x) \<and>
        (x = [] \<longrightarrow> po = Some PInit) \<and> (\<forall>p. po = Some p \<longrightarrow> pref_ok p (sv_heap (start_phase r t c x s) ! c)))"
    using m ref init by (cases a) (auto simp: start_phase_def goto_phase_def panicked_def put_ctr_def)
qed

lemma announce_result:
  shows "heap_ok s \<Longrightarrow> grows s (announce_phase r t c po err x s)" "quiet t s (announce_phase r t c po err x s)"
    "sv_threads (announce_phase r t c po err x s) = sv_threads s \<or>
     (\<exists>resp. sv_threads (announce_phase r t c po err x s) =
        (sv_threads s)(t \<mapsto> TAnnounced c po (ref_Pid po (sv_heap s ! c)) resp False))"
  by (auto simp: announce_phase_def Let_def ctl grows_def heap_ok_def quiet_def framed_def split: option.splits)

lemma started_result:
  "heap_ok s \<Longrightarrow> grows s (started_phase t c po pid resp b s)" "framed t s (started_phase t c po pid resp b s)"
  by (auto simp: started_phase_def handleStarted_def Let_def ctl grows_def heap_ok_def framed_def split: option.splits prod.splits)


section \<open>The invariant\<close>

fun th_ok :: "'w svc \<Rightarrow> nat \<Rightarrow> thread \<Rightarrow> bool" where
  "th_ok s t (TCall c q) = (c < length (sv_heap s))"
| "th_ok s t (TStart c x) = (c < length (sv_heap s) \<and> sv_exitSubscribers s t \<noteq> None)"
| "th_ok s t (TStarted c po err x) =
    (c < length (sv_heap s) \<and> sv_exitSubscribers s t \<noteq> None \<and> (\<forall>p. po = Some p \<longrightarrow> pref_ok p (sv_heap s ! c)))"
| "th_ok s t th = True"

text \<open>What a subscriber has collected for a pid are exits of that pid.\<close>

definition sub_ok :: "(int \<rightharpoonup> exit list) option \<Rightarrow> bool" where
  "sub_ok mo \<longleftrightarrow> (\<forall>m q l. mo = Some m \<longrightarrow> m q = Some l \<longrightarrow> l \<noteq> [] \<and> (\<forall>e \<in> set l. ex_Pid e = q))"

definition sinv :: "'w svc \<Rightarrow> bool" where
  "sinv s \<longleftrightarrow> heap_ok s \<and> (\<forall>i c. fmlookup (sv_containers s) i = Some c \<longrightarrow> c < length (sv_heap s)) \<and>
     (\<forall>t th. sv_threads s t = Some th \<longrightarrow> th_ok s t th) \<and> (\<forall>t. sub_ok (sv_exitSubscribers s t))"

lemma sub_ok_simps [simp]: "sub_ok None" "sub_ok (Some Map.empty)"
  by (simp_all add: sub_ok_def)

lemma sub_ok_deliver: "sub_ok mo \<Longrightarrow> sub_ok (map_option (deliver e) mo)"
  by (fastforce simp: sub_ok_def deliver_def split: option.splits if_splits)

lemma th_ok_grows:
  assumes "th_ok s t th" and "grows s s'" and "sv_exitSubscribers s t \<noteq> None \<Longrightarrow> sv_exitSubscribers s' t \<noteq> None"
  shows "th_ok s' t th"
proof (cases th)
  case (TStarted c po err x)
  then have c: "c < length (sv_heap s)" using assms(1) by simp
  then have "ct_le (sv_heap s ! c) (sv_heap s' ! c)" using assms(2) by (simp add: grows_def)
  then show ?thesis using assms c TStarted ct_le_pref(1) by (auto simp: grows_def)
qed (use assms in \<open>auto simp: grows_def\<close>)

lemma sinvI:
  assumes "sinv s" and g: "grows s s'" and f: "framed t s s'"
    and th: "\<And>th. sv_threads s' t = Some th \<Longrightarrow> th_ok s' t th"
    and sub: "sub_ok (sv_exitSubscribers s' t)"
    and co: "\<And>i c. fmlookup (sv_containers s') i = Some c \<Longrightarrow> c < length (sv_heap s')"
  shows "sinv s'"
proof -
  have "th_ok s' u th" if "sv_threads s' u = Some th" for u th
  proof (cases "u = t")
    case False
    then have "sv_threads s u = Some th" "sv_exitSubscribers s' u = sv_exitSubscribers s u" using f that by (auto simp: framed_def)
    then show ?thesis using assms(1) th_ok_grows [OF _ g, of u th] by (simp add: sinv_def)
  qed (use th that in blast)
  moreover have "sub_ok (sv_exitSubscribers s' u)" for u
    using f sub assms(1) by (cases "u = t") (auto simp: framed_def sinv_def)
  moreover have "heap_ok s'" using g by (simp add: grows_def)
  ultimately show ?thesis using co unfolding sinv_def by blast
qed

text \<open>The phases that neither subscribe nor start keep the invariant whenever they are quiet.\<close>

lemma sinv_quiet:
  assumes "sinv s" and "grows s s'" and "quiet t s s'" and "sv_containers s' = sv_containers s"
    and "\<And>th. sv_threads s' t = Some th \<Longrightarrow> th_ok s' t th"
  shows "sinv s'"
proof (rule sinvI [OF assms(1,2) _ assms(5)])
  show "framed t s s'" using assms(3) by (simp add: quiet_def)
  show "sub_ok (sv_exitSubscribers s' t)" using assms(1,3) by (simp add: quiet_def sinv_def)
  show "c < length (sv_heap s')" if "fmlookup (sv_containers s') i = Some c" for i c
    using assms(1,2,4) that by (auto simp: sinv_def grows_def dest: order_less_le_trans)
qed

text \<open>The phases of a request that does not start a process\<close>

fun neutral :: "thread \<Rightarrow> bool" where
  "neutral (TReserved c q) = True"
| "neutral (TDeleted i c p) = True"
| "neutral (TSend ev resp) = True"
| "neutral (TDone resp) = True"
| "neutral th = False"

lemma neutral_ok: "neutral th \<Longrightarrow> th_ok s t th"
  by (cases th) simp_all

definition neutral_next :: "nat \<Rightarrow> 'w svc \<Rightarrow> 'w svc \<Rightarrow> bool" where
  "neutral_next t s s' \<longleftrightarrow> (\<forall>th. sv_threads s' t = Some th \<longrightarrow> sv_threads s t = Some th \<or> neutral th) \<and>
     sv_containers s' = sv_containers s"

lemma neutral_with_ctr: "(\<And>a ct. neutral (k a ct)) \<Longrightarrow> neutral_next t s (with_ctr t c m k s)"
  by (auto simp: neutral_next_def with_ctr_def ctl put_ctr_def split: prod.splits outcome.splits)

lemma neutral_call:
  assumes "call_phase r t c q s = Some s'" and "\<forall>x. q \<noteq> QStart x"
  shows "neutral_next t s s'"
proof -
  have "neutral_next t s (goto_phase t (TDone resp) s)" for resp by (simp add: neutral_next_def goto_phase_def)
  then show ?thesis
    using assms by (cases q) (auto simp: delete_phase_def Let_def intro!: neutral_with_ctr split: sum.splits if_splits)
qed

lemma sinv_neutral:
  assumes "sinv s" and "grows s s'" and "quiet t s s'" and "neutral_next t s s'"
  shows "sinv s'"
proof (rule sinv_quiet [OF assms(1-3)])
  show "sv_containers s' = sv_containers s" using assms(4) by (simp add: neutral_next_def)
  fix th assume th: "sv_threads s' t = Some th"
  show "th_ok s' t th"
  proof (cases "neutral th")
    case False
    then have "th_ok s t th" using assms(1,4) th by (auto simp: neutral_next_def sinv_def)
    then show ?thesis using th_ok_grows assms(2,3) by (fastforce simp: quiet_def)
  qed (simp add: neutral_ok)
qed

lemma preStart_simps [simp]:
  "sv_heap (preStart t ci s) = sv_heap s" "sv_events (preStart t ci s) = sv_events s"
  "sv_containers (preStart t ci s) = sv_containers s" "sv_threads (preStart t ci s) = sv_threads s"
  "sv_reaper (preStart t ci s) = sv_reaper s" "sv_reaped (preStart t ci s) = sv_reaped s" "sv_w (preStart t ci s) = sv_w s"
  "sv_exitSubscribers (preStart t ci s) = (sv_exitSubscribers s)(t \<mapsto> Map.empty)"
  by (simp_all add: preStart_def Let_def split: option.splits)

lemma subscribe_result:
  assumes inv: "sinv s" and s': "s' = goto_phase t th (preStart t ci s)" and th: "th_ok s' t th"
  shows "sinv s' \<and> grows s s' \<and> framed t s s'"
proof -
  have "grows s s'" "framed t s s'" using inv by (auto simp: s' goto_phase_def grows_def framed_def sinv_def heap_ok_def)
  moreover have "sinv s'"
    by (rule sinvI [OF inv calculation]) (use inv th in \<open>auto simp: s' goto_phase_def sinv_def\<close>)
  ultimately show ?thesis by blast
qed

lemma sinv_thread: "sinv s \<Longrightarrow> sv_threads s t = Some th \<Longrightarrow> th_ok s t th"
  by (simp add: sinv_def)

lemma sinv_heap: "sinv s \<Longrightarrow> heap_ok s"
  by (simp add: sinv_def)

definition advances :: "nat \<Rightarrow> 'w svc \<Rightarrow> 'w svc \<Rightarrow> bool" where
  "advances t s s' \<longleftrightarrow> sinv s' \<and> grows s s' \<and> framed t s s'"

lemma sinv_call:
  assumes inv: "sinv s" and c: "c < length (sv_heap s)" and step: "call_phase r t c q s = Some s'"
  shows "advances t s s'"
proof (cases "\<exists>x. q = QStart x")
  case True
  then obtain x where "s' = goto_phase t (TStart c x) (preStart t (if x = [] then Some c else None) s)" using step by auto
  moreover from this have "th_ok s' t (TStart c x)" using c by (simp add: goto_phase_def)
  ultimately show ?thesis unfolding advances_def by (rule subscribe_result [OF inv])
next
  case False
  have "heap_ok s" using inv by (simp add: sinv_def)
  then have "quiet t s s'" "grows s s'" "neutral_next t s s'" using call_quiet neutral_call step False by metis+
  then show ?thesis using sinv_neutral [OF inv] by (simp add: advances_def quiet_def)
qed

lemma sinv_create:
  assumes inv: "sinv s" and th: "sv_threads s t = Some (TCreate q)"
  shows "advances t s (create_phase r t q s)"
proof -
  have ok: "heap_ok s" using inv by (simp add: sinv_def)
  have "sinv (create_phase r t q s)"
    by (rule sinvI [OF inv create_result(1,2) [OF ok]])
      (use th inv in \<open>(auto simp: create_phase_def ctl sinv_def split: prod.splits outcome.splits if_splits; metis less_SucI)+\<close>)
  then show ?thesis by (simp add: advances_def create_result [OF ok])
qed

lemma sinv_start:
  assumes inv: "sinv s" and th: "sv_threads s t = Some (TStart c x)"
  shows "advances t s (start_phase r t c x s)" (is "advances t s ?s'")
proof -
  have ok: "heap_ok s" and c: "c < length (sv_heap s)" "sv_exitSubscribers s t \<noteq> None"
    using sinv_heap [OF inv] sinv_thread [OF inv th] by simp_all
  note res = start_result [OF ok c(1), where t = t and r = r and x = x]
  have "sinv ?s'"
  proof (rule sinv_quiet [OF inv res(2,1)])
    show "sv_containers ?s' = sv_containers s"
      by (auto simp: start_phase_def ctl put_ctr_def split: prod.splits outcome.splits)
    show "th_ok ?s' t th'" if "sv_threads ?s' t = Some th'" for th'
      using res th that c by (auto simp: quiet_def grows_def dest: order_less_le_trans)
  qed
  then show ?thesis using res by (simp add: advances_def quiet_def)
qed

lemma sinv_announce:
  assumes inv: "sinv s" and th: "sv_threads s t = Some (TStarted c po err x)"
  shows "advances t s (announce_phase r t c po err x s)" (is "advances t s ?s'")
proof -
  have ok: "heap_ok s" and tok: "th_ok s t (TStarted c po err x)" using sinv_heap [OF inv] sinv_thread [OF inv th] .
  note res = announce_result(1) [OF ok, of r t c po err x]
    announce_result(2,3) [where s = s and t = t and r = r and c = c and po = po and err = err and x = x]
  have "sinv ?s'"
  proof (rule sinv_quiet [OF inv res(1,2)])
    show "sv_containers ?s' = sv_containers s" by (auto simp: announce_phase_def ctl Let_def split: option.splits)
    show "th_ok ?s' t th'" if "sv_threads ?s' t = Some th'" for th'
      using res(3) th that th_ok_grows [OF tok res(1)] res(2) by (auto simp: quiet_def)
  qed
  then show ?thesis using res by (simp add: advances_def quiet_def)
qed

lemma sinv_started:
  assumes inv: "sinv s"
  shows "advances t s (started_phase t c po pid resp b s)"
proof -
  have ok: "heap_ok s" using inv by (simp add: sinv_def)
  have "sinv (started_phase t c po pid resp b s)"
    by (rule sinvI [OF inv started_result(1) [OF ok] started_result(2)])
      (use inv in \<open>auto simp: started_phase_def handleStarted_def Let_def ctl sinv_def split: prod.splits option.splits if_splits\<close>)
  then show ?thesis by (simp add: advances_def started_result ok)
qed

lemma sinv_early:
  assumes inv: "sinv s" and th: "sv_threads s t = Some (TEarly c p ees resp b)"
    and e: "early_phase r t c p ees resp b s = Some s'"
  shows "advances t s s'"
proof -
  have ok: "heap_ok s" using inv by (simp add: sinv_def)
  have "sinv s'"
    by (rule sinv_quiet [OF inv early_result(2,1) [OF e ok]])
      (use e th in \<open>auto simp: early_phase_def Let_def goto_phase_def unlock_def handle_exit_quiet [OF ok] split: if_splits list.splits\<close>)
  then show ?thesis using early_result [OF e ok] by (simp add: advances_def quiet_def)
qed

lemma sinv_deleted:
  assumes inv: "sinv s" and d: "deleted_phase t i c p s = Some s'"
  shows "advances t s s'"
proof -
  have "grows s s'" "framed t s s'" "sv_threads s' t = Some th' \<Longrightarrow> neutral th'" for th'
    using d inv by (auto simp: deleted_phase_def Let_def goto_phase_def grows_def heap_ok_def framed_def sinv_def split: if_splits)
  moreover from this have "sinv s'" using d inv neutral_ok
    by (intro sinvI [OF inv, of _ t]) (auto simp: deleted_phase_def Let_def goto_phase_def sinv_def split: if_splits)
  ultimately show ?thesis by (simp add: advances_def)
qed

lemma sinv_advance:
  assumes inv: "sinv s" and th: "sv_threads s t = Some th" and step: "advance r t th s = Some s'"
  shows "advances t s s'"
proof -
  have ok: "heap_ok s" using inv by (simp add: sinv_def)
  have quiet: "advances t s s'" if "quiet t s s'" "grows s s'" "neutral_next t s s'"
    using sinv_neutral [OF inv] that by (simp add: quiet_def advances_def)
  show ?thesis
  proof (cases th)
    case (TCall c q)
    then show ?thesis using sinv_call [OF inv] step sinv_thread [OF inv th] by simp
  next
    case (TReserved c q)
    then have s': "s' = with_ctr t c (exec_op r q) (\<lambda>i ct. TSend (EvExecAdded (ct_ID ct) i) REmpty) s" using step by simp
    show ?thesis
      by (rule quiet) (simp_all add: s' quiet_with_ctr grows_with_ctr [OF ok ctame_ops(2)] neutral_with_ctr)
  next
    case (TSend ev resp)
    then show ?thesis using step ok
      by (intro quiet) (auto simp: ctl quiet_def framed_def grows_def heap_ok_def neutral_next_def)
  qed (use step th sinv_create [OF inv] sinv_start [OF inv] sinv_announce [OF inv] sinv_started [OF inv] sinv_early [OF inv]
      sinv_deleted [OF inv] in auto)
qed


text \<open>Steps of no thread\<close>

lemma sinv_env:
  assumes inv: "sinv s" and g: "grows s s'" and "sv_containers s' = sv_containers s" and th: "sv_threads s' = sv_threads s"
    and sub: "\<And>t. sv_exitSubscribers s t \<noteq> None \<Longrightarrow> sv_exitSubscribers s' t \<noteq> None" "\<And>t. sub_ok (sv_exitSubscribers s' t)"
  shows "sinv s'"
proof -
  have "th_ok s' t u" if "sv_threads s' t = Some u" for t u
    using th_ok_grows [OF sinv_thread [OF inv] g sub(1)] that th by simp
  then show ?thesis using assms by (auto simp: sinv_def grows_def) (meson order_less_le_trans)
qed

lemma sinv_step: "sstep r s s' \<Longrightarrow> sinv s \<Longrightarrow> sinv s' \<and> grows s s'"
proof (induction rule: sstep.induct)
  case (create s t q)
  have g: "grows s (s\<lparr>sv_mu := Some t\<rparr>)" using create(4) by (simp add: sinv_def heap_ok_def grows_def)
  then have "sinv (s\<lparr>sv_mu := Some t\<rparr>)" using create(4) by (intro sinv_env [OF create(4)]) (simp_all add: sinv_def)
  show ?case using \<open>sinv (s\<lparr>sv_mu := Some t\<rparr>)\<close> g subscribe_result [of "s\<lparr>sv_mu := Some t\<rparr>" _ t "TCreate q" None] grows_trans
    by (auto simp: begin_create_def)
next
  case (call s t i q)
  have s: "neutral_next t s s' \<Longrightarrow> quiet t s s' \<Longrightarrow> grows s s' \<Longrightarrow> sinv s' \<and> grows s s'" for s'
    using sinv_neutral [OF call(4)] by blast
  show ?case
  proof (cases "getContainer i s")
    case (Inl e)
    then show ?thesis using call by (intro s)
        (auto simp: begin_call_def goto_phase_def neutral_next_def quiet_def framed_def grows_def heap_ok_def sinv_def)
  next
    case (Inr c)
    then have "c < length (sv_heap s)" using call(4) by (auto simp: getContainer_def sinv_def split: option.splits)
    then show ?thesis using Inr call(4) grows_same [OF grows_refl [OF sinv_heap [OF call(4)]]]
      by (auto intro!: sinv_quiet [OF call(4), of _ t] simp: begin_call_def goto_phase_def quiet_def framed_def)
  qed
next
  case (run s t th s')
  show ?case using sinv_advance [OF run(4,2,3)] by (simp add: advances_def)
next
  case (exit s e)
  have g: "grows s (receive_exit e s)" using exit(3) by (simp add: receive_exit_def grows_def sinv_def heap_ok_def)
  moreover have "sinv (receive_exit e s)"
    by (rule sinv_env [OF exit(3) g]) (use exit(3) sub_ok_deliver in \<open>auto simp: receive_exit_def sinv_def\<close>)
  ultimately show ?case by simp
next
  case (handle s e c p cps)
  note q = handle_exit_quiet [OF sinv_heap [OF handle(4)], of r e c p]
  have g: "grows s (handle_next r e c p cps s)" using grows_same [OF q(1)] q(1) by (simp add: handle_next_def Let_def)
  have "sinv (handle_next r e c p cps s)"
    by (rule sinv_env [OF handle(4) g]) (use handle(4) q in \<open>auto simp: handle_next_def Let_def sinv_def\<close>)
  with g show ?case by simp
next
  case (shutdown s)
  have g: "grows s (Shutdown s)" using shutdown by (simp add: Shutdown_def sinv_def grows_def heap_ok_def)
  have "sinv (Shutdown s)" by (rule sinv_env [OF shutdown(3) g]) (use shutdown in \<open>auto simp: Shutdown_def sinv_def\<close>)
  with g show ?case by simp
next
  case (world s w)
  have g: "grows s (s\<lparr>sv_w := w\<rparr>)" using world by (simp add: sinv_def grows_def heap_ok_def)
  have "sinv (s\<lparr>sv_w := w\<rparr>)" by (rule sinv_env [OF world(2) g]) (use world in \<open>auto simp: sinv_def\<close>)
  with g show ?case by simp
qed

lemma sinv_new: "sinv (new_service w)"
  by (simp add: sinv_def new_service_def heap_ok_def)

lemma sinv_steps: "(sstep r)\<^sup>*\<^sup>* s s' \<Longrightarrow> sinv s \<Longrightarrow> sinv s' \<and> grows s s'"
  by (induction rule: rtranclp_induct) (auto simp: grows_refl sinv_heap dest: sinv_step intro: grows_trans)

end
