(* ===== verification/Shim_Exits.thy ===== *)
theory Shim_Exits
  imports Shim_Service
begin

text \<open>Who handles the exit of a process that the task service has started. A process is watched, or its exit is pending,
  or the exit is handled; every step of the service keeps this order, the lock is always released, and a pending exit can
  always be handled.\<close>

section \<open>Who handles the exit of a process\<close>

text \<open>A start request watches its process from the moment it has removed it from the running processes, or from
  the moment it has started it, until it enters it there.\<close>

fun watches :: "thread \<Rightarrow> nat \<Rightarrow> pref \<Rightarrow> int \<Rightarrow> bool" where
  "watches (TStart c' x) c p q = (c' = c \<and> x = [] \<and> p = PInit)"
| "watches (TStarted c' po err x) c p q = (c' = c \<and> po = Some p)"
| "watches (TAnnounced c' po pid resp b) c p q = (c' = c \<and> po = Some p \<and> pid = q)"
| "watches th c p q = False"

definition tracks :: "'w svc \<Rightarrow> nat \<Rightarrow> pref \<Rightarrow> int \<Rightarrow> (exit list option \<Rightarrow> bool) \<Rightarrow> bool" where
  "tracks s c p q f \<longleftrightarrow>
    (\<exists>t th m. sv_threads s t = Some th \<and> watches th c p q \<and> sv_exitSubscribers s t = Some m \<and> f (m q))"

text \<open>No exit of the process has come, and it will be handled when it comes.\<close>

definition watched :: "'w svc \<Rightarrow> nat \<Rightarrow> pref \<Rightarrow> int \<Rightarrow> bool" where
  "watched s c p q \<longleftrightarrow> (c, p) \<in> set (sv_running s q) \<or> tracks s c p q (\<lambda>l. l = None)"

text \<open>An exit has come and is still to be handled for the process.\<close>

definition pending :: "'w svc \<Rightarrow> nat \<Rightarrow> pref \<Rightarrow> exit \<Rightarrow> bool" where
  "pending s c p e \<longleftrightarrow> (\<exists>cps. sv_reaper s = Some (e, cps) \<and> (c, p) \<in> set cps) \<or>
     (\<exists>t ees resp b. sv_threads s t = Some (TEarly c p ees resp b) \<and> e \<in> set ees) \<or>
     tracks s c p (ex_Pid e) (\<lambda>l. \<exists>ees. l = Some ees \<and> e \<in> set ees)"

definition handled :: "'w svc \<Rightarrow> nat \<Rightarrow> pref \<Rightarrow> exit \<Rightarrow> bool" where
  "handled s c p e \<longleftrightarrow>
     EvExit (ct_ID (sv_heap s ! c)) (proc_ID p (sv_heap s ! c)) (ex_Pid e) (ex_Status e) \<in> set (sv_events s)"

definition known :: "'w svc \<Rightarrow> nat \<Rightarrow> pref \<Rightarrow> int \<Rightarrow> bool" where
  "known s c p q \<longleftrightarrow> c < length (sv_heap s) \<and> pref_ok p (sv_heap s ! c) \<and> proc_Pid p (sv_heap s ! c) = q \<and> q \<noteq> 0"

lemma known_grows:
  assumes "known s c p q" and "grows s s'"
  shows "known s' c p q" "ct_ID (sv_heap s' ! c) = ct_ID (sv_heap s ! c)" "proc_ID p (sv_heap s' ! c) = proc_ID p (sv_heap s ! c)"
proof -
  have "ct_le (sv_heap s ! c) (sv_heap s' ! c)" "c < length (sv_heap s')" using assms by (auto simp: known_def grows_def)
  then show "known s' c p q" "ct_ID (sv_heap s' ! c) = ct_ID (sv_heap s ! c)" "proc_ID p (sv_heap s' ! c) = proc_ID p (sv_heap s ! c)"
    using assms(1) ct_le_pref [of _ _ p] by (auto simp: known_def)
qed

lemma handled_grows: "handled s c p e \<Longrightarrow> known s c p q \<Longrightarrow> grows s s' \<Longrightarrow> handled s' c p e"
  using known_grows(2,3) [of s c p q s'] by (auto simp: handled_def grows_def)

lemma tracks_frame:
  assumes "sv_threads s u = Some th" "watches th c p q" "sv_exitSubscribers s u = Some m" "f (m q)" and "framed t s s'" and "u \<noteq> t"
  shows "tracks s' c p q f"
  using assms unfolding tracks_def framed_def by metis

lemma tracks_own:
  assumes "quiet t s s'" "sv_exitSubscribers s t = Some m" "f (m q)" "sv_threads s' t = Some th" "watches th c p q"
  shows "tracks s' c p q f"
  using assms unfolding tracks_def quiet_def by metis

lemma tracks_start:
  assumes inv: "sinv s" and c: "c < length (sv_heap s)" and th: "sv_threads s t = Some (TStart c [])"
    and m: "sv_exitSubscribers s t = Some m" "f (m q)"
  shows "tracks (start_phase r t c [] s) c PInit q f"
proof -
  note res = start_result [OF sinv_heap [OF inv] c, where t = t and r = r and x = "[]"]
  obtain th' where "sv_threads (start_phase r t c [] s) t = Some th'" "watches th' c PInit q"
    using res(3) th by (elim disjE exE conjE) auto
  then show ?thesis by (rule tracks_own [OF res(1) m(1), where f = f, OF m(2)])
qed

lemma tracks_announce:
  assumes k: "known s c p q" and th: "sv_threads s t = Some (TStarted c (Some p) err x)"
    and m: "sv_exitSubscribers s t = Some m" "f (m q)"
  shows "tracks (announce_phase r t c (Some p) err x s) c p q f"
proof -
  note res = announce_result(2,3) [where s = s and t = t and r = r and c = c and po = "Some p" and err = err and x = x]
  have pid: "ref_Pid (Some p) (sv_heap s ! c) = q" using k by (simp add: ref_Pid_def known_def)
  obtain th' where "sv_threads (announce_phase r t c (Some p) err x s) t = Some th'" "watches th' c p q"
    using res(2) th unfolding pid by (elim disjE exE) auto
  then show ?thesis by (rule tracks_own [OF res(1) m(1), where f = f, OF m(2)])
qed

lemma tracks_advance:
  assumes inv: "sinv s" and k: "known s c p q" and th: "sv_threads s t = Some th" and step: "advance r t th s = Some s'"
    and tr: "tracks s c p q f"
  shows "tracks s' c p q f \<or> (\<exists>resp b m. th = TAnnounced c (Some p) q resp b \<and> sv_exitSubscribers s t = Some m \<and> f (m q))"
proof -
  from tr obtain u w m where u: "sv_threads s u = Some w" "watches w c p q" "sv_exitSubscribers s u = Some m" "f (m q)"
    unfolding tracks_def by blast
  have fr: "framed t s s'" using sinv_advance [OF inv th step] by (simp add: advances_def)
  show ?thesis
  proof (cases "u = t")
    case False
    then show ?thesis using tracks_frame [OF u(1-3), where f = f, OF u(4) fr] by blast
  next
    case True
    then have w: "w = th" "watches th c p q" "sv_exitSubscribers s t = Some m" using u th by simp_all
    have c: "c < length (sv_heap s)" using k by (simp add: known_def)
    show ?thesis
    proof (cases th)
      case (TStart c' x)
      then show ?thesis using tracks_start [OF inv c _ w(3), where f = f, OF _ u(4)] step w th by auto
    next
      case (TStarted c' po err x)
      then show ?thesis using tracks_announce [OF k _ w(3), where f = f, OF _ u(4)] step w th by auto
    qed (use w u(4) in auto)
  qed
qed

text \<open>The end of a start request\<close>

lemma started_tracks:
  assumes "sv_exitSubscribers s t = Some m" and "q \<noteq> 0" and "s' = started_phase t c (Some p) q resp b s"
  shows "m q = None \<Longrightarrow> (c, p) \<in> set (sv_running s' q)"
    and "m q = Some l \<Longrightarrow> l \<noteq> [] \<Longrightarrow> sv_threads s' t = Some (TEarly c p l resp b)"
  using assms by (simp_all add: started_phase_def handleStarted_def Let_def ctl)

text \<open>A running process stays one until its exit comes, unless a start request takes over watching it.\<close>

lemma quiet_running [simp]:
  "sv_running (with_ctr t c m k s) = sv_running s" "sv_running (announce_phase r t c po err x s) = sv_running s"
  using quiet_with_ctr announce_result(2) unfolding quiet_def by metis+

lemma running_advance:
  assumes inv: "sinv s" and k: "known s c p q" and th: "sv_threads s t = Some th" and step: "advance r t th s = Some s'"
    and run: "(c, p) \<in> set (sv_running s q)" and other: "p = PInit \<or> ct_Pid (sv_heap s ! c) \<noteq> q"
  shows "watched s' c p q"
proof (cases th)
  case (TCall c' r')
  show ?thesis
  proof (cases "\<exists>x. r' = QStart x")
    case True
    then obtain x where s': "s' = goto_phase t (TStart c' x) (preStart t (if x = [] then Some c' else None) s)" using step TCall by auto
    show ?thesis
    proof (cases "(c, p) \<in> set (sv_running s' q)")
      case False
      then have x: "x = []" "c' = c" "ct_Pid (sv_heap s ! c) = q"
        using run by (auto simp: s' goto_phase_def preStart_def Let_def split: if_splits)
      have "sv_threads s' t = Some (TStart c [])" "sv_exitSubscribers s' t = Some Map.empty" using x by (simp_all add: s' goto_phase_def)
      moreover have "watches (TStart c []) c p q" using other x by simp
      ultimately show ?thesis unfolding watched_def tracks_def by blast
    qed (simp add: watched_def)
  next
    case False
    then have q: "\<forall>x. r' \<noteq> QStart x" by blast
    have "call_phase r t c' r' s = Some s'" using step TCall by simp
    from call_quiet(1) [OF this q sinv_heap [OF inv]] show ?thesis using run by (simp add: watched_def quiet_def)
  qed
next
  case (TReserved c' q')
  then show ?thesis using step run by (auto simp: watched_def)
next
  case (TCreate q')
  then show ?thesis using step run by (auto simp: watched_def create_result(3) [OF sinv_heap [OF inv]])
next
  case (TStart c' x)
  then have "c' < length (sv_heap s)" using sinv_thread [OF inv th] by simp
  from start_result(1) [OF sinv_heap [OF inv] this, of t r x] show ?thesis using step run TStart by (auto simp: watched_def quiet_def)
next
  case (TStarted c' po err x)
  then show ?thesis using step run by (auto simp: watched_def)
next
  case (TEarly c' p' ees resp b)
  then have "early_phase r t c' p' ees resp b s = Some s'" using step by simp
  from early_result(1) [OF this sinv_heap [OF inv]] show ?thesis using run by (simp add: watched_def quiet_def)
qed (use step run in \<open>auto simp: watched_def started_phase_def handleStarted_def deleted_phase_def Let_def ctl split: option.splits if_splits\<close>)


lemma advance_reaped:
  assumes "sinv s" and "sv_threads s t = Some th" and "advance r t th s = Some s'"
  shows "sv_reaped s' = sv_reaped s" "sv_reaper s' = sv_reaper s"
  using sinv_advance [OF assms] by (auto simp: advances_def framed_def)

lemma watched_advance:
  assumes inv: "sinv s" and k: "known s c p q" and th: "sv_threads s t = Some th" and step: "advance r t th s = Some s'"
    and w: "watched s c p q" and other: "p = PInit \<or> ct_Pid (sv_heap s ! c) \<noteq> q"
  shows "watched s' c p q"
proof (cases "(c, p) \<in> set (sv_running s q)")
  case True
  then show ?thesis by (rule running_advance [OF inv k th step _ other])
next
  case False
  then have "tracks s c p q (\<lambda>l. l = None)" using w by (simp add: watched_def)
  from tracks_advance [OF inv k th step this] show ?thesis
  proof (elim disjE exE conjE)
    fix resp b m assume a: "th = TAnnounced c (Some p) q resp b" "sv_exitSubscribers s t = Some m" "m q = None"
    have "s' = started_phase t c (Some p) q resp b s" using step a(1) by simp
    moreover have "q \<noteq> 0" using k by (simp add: known_def)
    ultimately show ?thesis using started_tracks(1) [OF a(2)] a(3) by (simp add: watched_def)
  qed (simp add: watched_def)
qed

text \<open>A new thread does not disturb the others.\<close>

lemma new_thread:
  assumes "sv_threads s t = None"
  shows "tracks s c p q f \<Longrightarrow> tracks (begin_create t r s) c p q f" "tracks s c p q f \<Longrightarrow> tracks (begin_call t i rq s) c p q f"
    "sv_running (begin_create t r s) = sv_running s" "sv_running (begin_call t i rq s) = sv_running s"
    "sv_reaper (begin_create t r s) = sv_reaper s" "sv_reaper (begin_call t i rq s) = sv_reaper s"
    "sv_reaped (begin_create t r s) = sv_reaped s" "sv_reaped (begin_call t i rq s) = sv_reaped s"
proof -
  have fr: "framed t s (begin_create t r s)" "framed t s (begin_call t i rq s)"
    by (auto simp: framed_def begin_create_def begin_call_def goto_phase_def split: sum.splits)
  have tr: "tracks s c p q f \<Longrightarrow> framed t s s' \<Longrightarrow> tracks s' c p q f" for s'
    using assms unfolding tracks_def framed_def by (metis option.distinct(1))
  show "tracks s c p q f \<Longrightarrow> tracks (begin_create t r s) c p q f" "tracks s c p q f \<Longrightarrow> tracks (begin_call t i rq s) c p q f"
    using tr fr by blast+
  show "sv_running (begin_create t r s) = sv_running s" "sv_running (begin_call t i rq s) = sv_running s"
    by (auto simp: begin_create_def begin_call_def goto_phase_def preStart_def Let_def split: sum.splits)
qed (auto simp: begin_create_def begin_call_def goto_phase_def split: sum.splits)

lemma tracks_same: "sv_threads s' = sv_threads s \<Longrightarrow> sv_exitSubscribers s' = sv_exitSubscribers s \<Longrightarrow> tracks s' c p q f = tracks s c p q f"
  by (simp add: tracks_def)

lemma handle_next_same:
  assumes "sinv s"
  shows "sv_threads (handle_next r e c p cps s) = sv_threads s" "sv_exitSubscribers (handle_next r e c p cps s) = sv_exitSubscribers s"
    "sv_running (handle_next r e c p cps s) = sv_running s" "sv_reaped (handle_next r e c p cps s) = sv_reaped s"
  by (simp_all add: handle_next_def Let_def handle_exit_quiet [OF sinv_heap [OF assms]])

lemma watched_exit:
  assumes "watched s c p q"
  shows "ex_Pid e = q \<Longrightarrow> pending (receive_exit e s) c p e" "ex_Pid e \<noteq> q \<Longrightarrow> watched (receive_exit e s) c p q"
proof -
  assume e: "ex_Pid e = q"
  show "pending (receive_exit e s) c p e" using assms
    unfolding watched_def
  proof (elim disjE)
    assume "tracks s c p q (\<lambda>l. l = None)"
    then obtain t th m where "sv_threads s t = Some th" "watches th c p q" "sv_exitSubscribers s t = Some m" "m q = None"
      unfolding tracks_def by blast
    then have "sv_threads (receive_exit e s) t = Some th" "watches th c p (ex_Pid e)"
      "sv_exitSubscribers (receive_exit e s) t = Some (deliver e m)" "deliver e m (ex_Pid e) = Some [e]"
      using e by (simp_all add: receive_exit_def deliver_def)
    then show ?thesis unfolding pending_def tracks_def by (metis list.set_intros(1))
  qed (use e in \<open>auto simp: pending_def receive_exit_def\<close>)
next
  assume e: "ex_Pid e \<noteq> q"
  have "tracks (receive_exit e s) c p q f" if "tracks s c p q f" for f
    using that e unfolding tracks_def by (fastforce simp: receive_exit_def deliver_def)
  then show "watched (receive_exit e s) c p q" using assms e by (auto simp: watched_def receive_exit_def)
qed

text \<open>A watched process stays watched until an exit of its pid comes; then that exit is to be handled for it.\<close>

lemma watched_step:
  assumes "sstep r s s'" and "sinv s" and "known s c p q" and "watched s c p q" and "p = PInit \<or> ct_Pid (sv_heap s ! c) \<noteq> q"
  shows "(\<exists>es. sv_reaped s' = sv_reaped s @ es \<and> q \<notin> ex_Pid ` set es) \<and> watched s' c p q \<or>
    (\<exists>e. sv_reaped s' = sv_reaped s @ [e] \<and> ex_Pid e = q \<and> pending s' c p e)"
  using assms
proof (induction rule: sstep.induct)
  case (create s t q')
  then show ?case using new_thread(1,3,7) [OF create(3)] by (auto simp: watched_def)
next
  case (call s t i q')
  then show ?case using new_thread(2,4,8) [OF call(3)] by (auto simp: watched_def)
next
  case (run s t th s')
  then show ?case using watched_advance [OF run(4,5,2,3,6,7)] advance_reaped(1) [OF run(4,2,3)] by auto
next
  case (exit s e)
  show ?case using watched_exit(1) [OF exit(5), of e] watched_exit(2) [OF exit(5), of e]
    by (cases "ex_Pid e = q") (simp_all add: receive_exit_def)
next
  case (handle s e c' p' cps)
  note same = handle_next_same [OF handle(4), of r e c' p' cps]
  show ?case using handle(6) same tracks_same [OF same(1,2)] by (simp add: watched_def)
next
  case (shutdown s)
  then show ?case using tracks_same [of "Shutdown s" s] by (auto simp: watched_def Shutdown_def)
next
  case (world s w)
  then show ?case using tracks_same [of "s\<lparr>sv_w := w\<rparr>" s] by (auto simp: watched_def)
qed

text \<open>An exit that is to be handled for a process stays so until its event is sent.\<close>

lemma handle_exit_handles:
  assumes ok: "heap_ok s" and k: "known s c p q" and np: "\<not> sv_panicked (handleProcessExit r e c p s)"
  shows "handled (handleProcessExit r e c p s) c p e"
proof (rule handleProcessExit_result [OF ok, of c r e p])
  fix ct w
  assume "handleProcessExit r e c p s = panicked (put_ctr c ct w s) \<or>
      handleProcessExit r e c p s = send (EvExit (ct_ID ct) (proc_ID p ct) (ex_Pid e) (ex_Status e)) (put_ctr c ct w s)"
  then show ?thesis using np k by (auto simp: panicked_def handled_def send_def put_ctr_def known_def)
qed

lemma handled_ctl: "handled (goto_phase t th s) c p e = handled s c p e" "handled (unlock b s) c p e = handled s c p e"
  "handled (s\<lparr>sv_reaper := x\<rparr>) c p e = handled s c p e"
  by (simp_all add: handled_def goto_phase_def unlock_def)

lemma early_advance:
  assumes inv: "sinv s" and k: "known s c p (ex_Pid e)" and th: "sv_threads s t = Some (TEarly c p ees resp b)"
    and e: "e \<in> set ees" and step: "early_phase r t c p ees resp b s = Some s'"
  shows "pending s' c p e \<or> handled s' c p e"
proof -
  obtain e1 es where ees: "ees = e1 # es" using e by (cases ees) auto
  note same = handle_exit_quiet(2) [OF sinv_heap [OF inv], of r e1 c p]
  show ?thesis using early_result(3) [OF step sinv_heap [OF inv] ees]
  proof (elim disjE conjE)
    assume "s' = handleProcessExit r e1 c p s"
    then show ?thesis using same th e unfolding pending_def by metis
  next
    assume np: "\<not> sv_panicked (handleProcessExit r e1 c p s)"
      and s': "s' = (if es = [] then goto_phase t (TDone resp) (unlock b (handleProcessExit r e1 c p s))
              else goto_phase t (TEarly c p es resp b) (handleProcessExit r e1 c p s))"
    show ?thesis
    proof (cases "e = e1")
      case True
      then show ?thesis using handle_exit_handles [OF sinv_heap [OF inv] k np] by (simp add: s' handled_ctl)
    next
      case False
      then have "e \<in> set es" "es \<noteq> []" using e ees by auto
      then show ?thesis unfolding pending_def by (auto simp: s' goto_phase_def)
    qed
  qed
qed

lemma pending_advance:
  assumes inv: "sinv s" and k: "known s c p (ex_Pid e)" and th: "sv_threads s t = Some th" and step: "advance r t th s = Some s'"
    and pe: "pending s c p e"
  shows "pending s' c p e \<or> handled s' c p e"
  using pe unfolding pending_def [of s]
proof (elim disjE exE conjE)
  fix u ees resp b assume u: "sv_threads s u = Some (TEarly c p ees resp b)" "e \<in> set ees"
  show ?thesis
  proof (cases "u = t")
    case True
    then show ?thesis using early_advance [OF inv k u] step th u(1) by simp
  next
    case False
    then have "sv_threads s' u = Some (TEarly c p ees resp b)"
      using u(1) sinv_advance [OF inv th step] by (simp add: advances_def framed_def)
    then show ?thesis using u(2) unfolding pending_def by blast
  qed
next
  assume "tracks s c p (ex_Pid e) (\<lambda>l. \<exists>ees. l = Some ees \<and> e \<in> set ees)"
  from tracks_advance [OF inv k th step this] show ?thesis
  proof (elim disjE exE conjE)
    fix resp b m l assume a: "th = TAnnounced c (Some p) (ex_Pid e) resp b" "sv_exitSubscribers s t = Some m" "m (ex_Pid e) = Some l" "e \<in> set l"
    have "s' = started_phase t c (Some p) (ex_Pid e) resp b s" using step a(1) by simp
    moreover have "ex_Pid e \<noteq> 0" "l \<noteq> []" using k a(4) by (auto simp: known_def)
    ultimately have "sv_threads s' t = Some (TEarly c p l resp b)" using started_tracks(2) [OF a(2)] a(3) by blast
    then show ?thesis using a(4) unfolding pending_def by blast
  qed (auto simp: pending_def)
qed (auto simp: pending_def advance_reaped [OF inv th step])

lemma tracks_deliver:
  assumes "tracks s c p q (\<lambda>l. \<exists>ees. l = Some ees \<and> e \<in> set ees)"
  shows "tracks (receive_exit e' s) c p q (\<lambda>l. \<exists>ees. l = Some ees \<and> e \<in> set ees)"
proof -
  from assms obtain t th m ees where "sv_threads s t = Some th" "watches th c p q" "sv_exitSubscribers s t = Some m" "m q = Some ees" "e \<in> set ees"
    unfolding tracks_def by blast
  moreover from this have "\<exists>ees. deliver e' m q = Some ees \<and> e \<in> set ees" by (auto simp: deliver_def)
  ultimately show ?thesis unfolding tracks_def by (fastforce simp: receive_exit_def)
qed

lemma pending_mono:
  assumes "pending s c p e" and "\<And>cps. sv_reaper s = Some (e, cps) \<Longrightarrow> (c, p) \<in> set cps \<Longrightarrow>
      \<exists>cps'. sv_reaper s' = Some (e, cps') \<and> (c, p) \<in> set cps'"
    and "\<And>t ees resp b. sv_threads s t = Some (TEarly c p ees resp b) \<Longrightarrow> sv_threads s' t = sv_threads s t"
    and "\<And>f. f = (\<lambda>l. \<exists>ees. l = Some ees \<and> e \<in> set ees) \<Longrightarrow> tracks s c p (ex_Pid e) f \<Longrightarrow> tracks s' c p (ex_Pid e) f"
  shows "pending s' c p e"
  using assms(1) unfolding pending_def [of s]
proof (elim disjE exE conjE)
  fix cps assume "sv_reaper s = Some (e, cps)" "(c, p) \<in> set cps"
  then show ?thesis using assms(2) by (auto simp: pending_def)
next
  fix t ees resp b assume "sv_threads s t = Some (TEarly c p ees resp b)" "e \<in> set ees"
  moreover from this have "sv_threads s' t = Some (TEarly c p ees resp b)" using assms(3) by simp
  ultimately show ?thesis unfolding pending_def by blast
qed (use assms(4) in \<open>simp add: pending_def\<close>)

lemma pending_new:
  assumes "sv_threads s t = None" and "pending s c p e"
  shows "pending (begin_create t q s) c p e" "pending (begin_call t i rq s) c p e"
proof -
  have "sv_threads (begin_create t q s) u = sv_threads s u" "sv_threads (begin_call t i rq s) u = sv_threads s u" if "u \<noteq> t" for u
    using that by (auto simp: begin_create_def begin_call_def goto_phase_def split: sum.splits)
  then have th: "sv_threads (begin_create t q s) u = sv_threads s u" "sv_threads (begin_call t i rq s) u = sv_threads s u"
    if "sv_threads s u = Some x" for u x using that assms(1) by (cases "u = t"; simp)+
  show "pending (begin_create t q s) c p e"
    by (rule pending_mono [OF assms(2)]) (simp_all add: th new_thread(1,5) [OF assms(1)])
  show "pending (begin_call t i rq s) c p e"
    by (rule pending_mono [OF assms(2)]) (simp_all add: th new_thread(2,6) [OF assms(1)])
qed

lemma pending_step:
  assumes "sstep r s s'" and "sinv s" and "known s c p (ex_Pid e)" and "pending s c p e"
  shows "pending s' c p e \<or> handled s' c p e"
  using assms
proof (induction rule: sstep.induct)
  case (create s t q)
  then show ?case using pending_new(1) by blast
next
  case (call s t i q)
  then show ?case using pending_new(2) by blast
next
  case (run s t th s')
  show ?case by (rule pending_advance [OF run(4,5,2,3,6)])
next
  case (exit s e')
  have "pending (receive_exit e' s) c p e"
    by (rule pending_mono [OF exit(5)])
      (use exit(2) in \<open>auto simp: reaper_idle_def tracks_deliver, auto simp: receive_exit_def\<close>)
  then show ?case ..
next
  case (handle s e' c' p' cps)
  note same = handle_next_same [OF handle(4), of r e' c' p' cps]
  let ?s1 = "handleProcessExit r e' c' p' s"
  have r1: "sv_reaper ?s1 = sv_reaper s" using handle_exit_quiet(5) [OF sinv_heap [OF handle(4)]] .
  show ?case
  proof (cases "\<not> sv_panicked ?s1 \<and> e' = e \<and> (c', p') = (c, p)")
    case True
    then show ?thesis using handle_exit_handles [OF sinv_heap [OF handle(4)] handle(5), where r = r and e = e]
      by (auto simp: handle_next_def handled_ctl)
  next
    case False
    then have "\<exists>cps'. sv_reaper (handle_next r e' c' p' cps s) = Some (e, cps') \<and> (c, p) \<in> set cps'"
      if "sv_reaper s = Some (e, l)" "(c, p) \<in> set l" for l
      using that handle(2) r1 by (auto simp: handle_next_def Let_def)
    then have "pending (handle_next r e' c' p' cps s) c p e"
      by (rule pending_mono [OF handle(6)]) (simp_all add: same tracks_same [OF same(1,2)])
    then show ?thesis ..
  qed
next
  case (shutdown s)
  have "pending (Shutdown s) c p e"
    by (rule pending_mono [OF shutdown(5)]) (simp_all add: Shutdown_def tracks_same [of "s\<lparr>sv_shutdown := True\<rparr>" s])
  then show ?case ..
next
  case (world s w)
  have "pending (s\<lparr>sv_w := w\<rparr>) c p e" by (rule pending_mono [OF world(4)]) (simp_all add: tracks_same [of "s\<lparr>sv_w := w\<rparr>" s])
  then show ?case ..
qed


lemma other_before:
  assumes "grows s s'" and "known s c p q" and "p = PInit \<or> ct_Pid (sv_heap s' ! c) \<noteq> q"
  shows "p = PInit \<or> ct_Pid (sv_heap s ! c) \<noteq> q"
proof (rule ccontr)
  assume "\<not> ?thesis"
  moreover from this have "known s c PInit q" using assms(2) by (simp add: known_def ct_Pid_def)
  from known_grows(1) [OF this assms(1)] have "ct_Pid (sv_heap s' ! c) = q" by (simp add: known_def ct_Pid_def)
  ultimately show False using assms(3) by blast
qed

lemma reaped_step: "sstep r s s' \<Longrightarrow> sinv s \<Longrightarrow> \<exists>es. sv_reaped s' = sv_reaped s @ es"
  by (induction rule: sstep.induct)
    (auto simp: new_thread(7,8) advance_reaped(1) handle_next_same(4) receive_exit_def Shutdown_def)

lemma pending_steps:
  assumes "(sstep r)\<^sup>*\<^sup>* s s'" and "sinv s" and "known s c p (ex_Pid e)" and "pending s c p e \<or> handled s c p e"
  shows "pending s' c p e \<or> handled s' c p e"
  using assms
proof (induction rule: rtranclp_induct)
  case (step y z)
  then have "sinv y" "grows s y" "grows y z" using sinv_steps [OF step(1)] sinv_step [OF step(2)] by blast+
  then have "known y c p (ex_Pid e)" using known_grows(1) step.prems by blast
  then show ?case using step.IH [OF step.prems] pending_step [OF step(2) \<open>sinv y\<close>] handled_grows \<open>grows y z\<close> by blast
qed simp

lemma watched_steps:
  assumes "(sstep r)\<^sup>*\<^sup>* s s'" and "sinv s" and "known s c p q" and "watched s c p q"
    and "p = PInit \<or> ct_Pid (sv_heap s' ! c) \<noteq> q"
  shows "\<exists>es. sv_reaped s' = sv_reaped s @ es \<and>
    (case filter (\<lambda>e. ex_Pid e = q) es of [] \<Rightarrow> watched s' c p q | e # _ \<Rightarrow> pending s' c p e \<or> handled s' c p e)"
  using assms
proof (induction rule: rtranclp_induct)
  case (step y z)
  have y: "sinv y" "grows s y" "grows y z" using sinv_steps [OF step(1)] sinv_step [OF step(2)] step.prems by blast+
  have ky: "known y c p q" using known_grows(1) [OF step.prems(2) y(2)] .
  have oy: "p = PInit \<or> ct_Pid (sv_heap y ! c) \<noteq> q" using other_before [OF y(3) ky step.prems(4)] .
  from step.IH [OF step.prems(1-3) oy] obtain es where es: "sv_reaped y = sv_reaped s @ es"
    and c: "case filter (\<lambda>e. ex_Pid e = q) es of [] \<Rightarrow> watched y c p q | e # _ \<Rightarrow> pending y c p e \<or> handled y c p e" by blast
  show ?case
  proof (cases "filter (\<lambda>e. ex_Pid e = q) es")
    case Nil
    then have "watched y c p q" using c by simp
    from watched_step [OF step(2) y(1) ky this oy] show ?thesis
    proof (elim disjE exE conjE)
      fix es' assume "sv_reaped z = sv_reaped y @ es'" "q \<notin> ex_Pid ` set es'" "watched z c p q"
      moreover from this have "filter (\<lambda>e. ex_Pid e = q) (es @ es') = []" using Nil by (auto simp: filter_empty_conv)
      ultimately show ?thesis using es by (intro exI [of _ "es @ es'"]) (simp del: filter_append)
    next
      fix e assume "sv_reaped z = sv_reaped y @ [e]" "ex_Pid e = q" "pending z c p e"
      then show ?thesis using es Nil by (intro exI [of _ "es @ [e]"]) simp
    qed
  next
    case (Cons e rest)
    then have "e \<in> set (filter (\<lambda>e. ex_Pid e = q) es)" by simp
    then have "ex_Pid e = q" by simp
    then have "pending z c p e \<or> handled z c p e" 
      using c Cons pending_step [OF step(2) y(1)] handled_grows [OF _ ky y(3)] ky by auto
    moreover obtain es' where "sv_reaped z = sv_reaped y @ es'" using reaped_step [OF step(2) y(1)] by blast
    ultimately show ?thesis using es Cons by (intro exI [of _ "es @ es'"]) simp
  qed
qed auto

text \<open>All requests are answered and the exit loop waits for an exit.\<close>

definition quiescent :: "'w svc \<Rightarrow> bool" where
  "quiescent s \<longleftrightarrow> reaper_idle s \<and> (\<forall>t th. sv_threads s t = Some th \<longrightarrow> (\<exists>resp. th = TDone resp))"

lemma quiescent_none:
  assumes "quiescent s"
  shows "\<not> tracks s c p q f" "\<not> pending s c p e"
proof -
  show tr: "\<not> tracks s c p q f" for q f using assms by (fastforce simp: quiescent_def tracks_def)
  have "sv_reaper s = Some (e, cps) \<Longrightarrow> cps = []" for cps using assms by (simp add: quiescent_def reaper_idle_def)
  moreover have "sv_threads s t \<noteq> Some (TEarly c p ees resp b)" for t ees resp b using assms by (auto simp: quiescent_def)
  ultimately show "\<not> pending s c p e" using tr by (auto simp: pending_def)
qed

text \<open>What the subscription of a request has collected for a pid\<close>

definition collected :: "'w svc \<Rightarrow> nat \<Rightarrow> int \<Rightarrow> exit list" where
  "collected s t q =
    (case sv_exitSubscribers s t of None \<Rightarrow> [] | Some m \<Rightarrow> (case m q of None \<Rightarrow> [] | Some l \<Rightarrow> l))"

text \<open>C23: No exit of a started process is lost. Consider a start request that has run the start of its container and got a
  process with a pid. Under every interleaving with other requests and with the exit loop, once the service is quiescent,
  the first exit of that pid received since the request subscribed has been published as the exit of that process; if there
  was none, the process is among the running ones, where the exit loop looks for it. An exec process must not have
  the pid of its container's init process.\<close>

theorem started_exit_handled:
  assumes "(sstep r)\<^sup>*\<^sup>* (new_service w0) s" and th: "sv_threads s t = Some (TStarted c (Some p) err x)"
    and pid: "proc_Pid p (sv_heap s ! c) = q" "q \<noteq> 0" and run: "(sstep r)\<^sup>*\<^sup>* s s'" and q: "quiescent s'"
    and other: "p = PInit \<or> ct_Pid (sv_heap s' ! c) \<noteq> q"
  shows "case collected s t q @ filter (\<lambda>e. ex_Pid e = q) (drop (length (sv_reaped s)) (sv_reaped s')) of
      [] \<Rightarrow> (c, p) \<in> set (sv_running s' q)
    | e # _ \<Rightarrow> EvExit (ct_ID (sv_heap s' ! c)) (proc_ID p (sv_heap s' ! c)) q (ex_Status e) \<in> set (sv_events s')"
proof -
  have inv: "sinv s" using sinv_steps [OF assms(1) sinv_new] ..
  have k: "known s c p q" using sinv_thread [OF inv th] pid by (simp add: known_def)
  obtain m where m: "sv_exitSubscribers s t = Some m" using sinv_thread [OF inv th] by auto
  have w: "watches (TStarted c (Some p) err x) c p q" by simp
  note none = quiescent_none [OF q]
  show ?thesis
  proof (cases "m q")
    case None
    then have "watched s c p q" using th w m unfolding watched_def tracks_def by blast
    from watched_steps [OF run inv k this other] obtain es where es: "sv_reaped s' = sv_reaped s @ es"
      "case filter (\<lambda>e. ex_Pid e = q) es of [] \<Rightarrow> watched s' c p q | e # _ \<Rightarrow> pending s' c p e \<or> handled s' c p e" by blast
    have "ex_Pid e = q" if "filter (\<lambda>e. ex_Pid e = q) es = e # l" for e l
      using arg_cong [OF that, of set] by auto
    moreover have "collected s t q = []" using m None by (simp add: collected_def)
    ultimately show ?thesis using es none
      by (cases "filter (\<lambda>e. ex_Pid e = q) es") (simp_all add: watched_def handled_def)
  next
    case (Some l)
    have "sub_ok (Some m)" using inv m by (metis sinv_def)
    then obtain e l' where l: "l = e # l'" "ex_Pid e = q" using Some by (cases l) (auto simp: sub_ok_def)
    then have "pending s c p e" using th w m Some unfolding pending_def tracks_def by fastforce
    then have "handled s' c p e" using pending_steps [OF run inv] k l(2) none by blast
    then show ?thesis using m Some l by (simp add: collected_def handled_def)
  qed
qed


section \<open>The lock is released and exits get handled\<close>

fun holds_mu :: "thread \<Rightarrow> bool" where
  "holds_mu (TCreate q) = True"
| "holds_mu (TAnnounced c po pid resp b) = b"
| "holds_mu (TEarly c p ees resp b) = b"
| "holds_mu th = False"

definition owner :: "'w svc \<Rightarrow> nat \<Rightarrow> bool" where
  "owner s t \<longleftrightarrow> (case sv_threads s t of None \<Rightarrow> False | Some th \<Rightarrow> holds_mu th)"

definition mu_ok :: "'w svc \<Rightarrow> bool" where
  "mu_ok s \<longleftrightarrow> (\<forall>t. sv_mu s = Some t \<longleftrightarrow> owner s t)"

lemma mu_frame:
  assumes "mu_ok s" and "\<And>u. u \<noteq> t \<Longrightarrow> sv_threads s' u = sv_threads s u"
    and "sv_mu s' = sv_mu s \<and> owner s' t = owner s t \<or> sv_mu s = Some t \<and> sv_mu s' = None \<and> \<not> owner s' t"
  shows "mu_ok s'"
proof -
  have "owner s' u = owner s u" if "u \<noteq> t" for u using assms(2) [OF that] by (simp add: owner_def)
  then show ?thesis using assms(1,3) unfolding mu_ok_def by (metis option.distinct(1) option.inject)
qed

text \<open>A step of a thread that does not hold the lock neither takes nor releases it; the owner keeps or releases it.\<close>

lemma handle_exit_mu [simp]: "sv_mu (handleProcessExit r e c p s) = sv_mu s"
  by (auto simp: handleProcessExit_def Let_def ctl put_ctr_def split: prod.splits outcome.splits)

lemma with_ctr_mu [simp]: "sv_mu (with_ctr t c m k s) = sv_mu s"
  by (auto simp: with_ctr_def ctl put_ctr_def split: prod.splits outcome.splits)

lemma with_ctr_owner: "\<not> owner s t \<Longrightarrow> (\<And>a ct. \<not> holds_mu (k a ct)) \<Longrightarrow> \<not> owner (with_ctr t c m k s) t"
  by (auto simp: owner_def with_ctr_def ctl put_ctr_def split: prod.splits outcome.splits)

lemma goto_mu: "sv_mu (goto_phase t th s) = sv_mu s" "owner (goto_phase t th s) t = holds_mu th"
  by (simp_all add: goto_phase_def owner_def)

lemma call_mu:
  assumes th: "sv_threads s t = Some (TCall c q)" and step: "call_phase r t c q s = Some s'"
  shows "sv_mu s' = sv_mu s" "\<not> owner s' t"
proof -
  have "\<not> owner s t" using th by (simp add: owner_def)
  note keep = with_ctr_owner [OF this]
  have "sv_mu s' = sv_mu s \<and> \<not> owner s' t"
    using step by (cases q)
      (auto simp: delete_phase_def keep goto_mu preStart_def Let_def split: sum.splits if_splits)
  then show "sv_mu s' = sv_mu s" "\<not> owner s' t" by simp_all
qed

lemma mu_advance:
  assumes mu: "mu_ok s" and inv: "sinv s" and th: "sv_threads s t = Some th" and step: "advance r t th s = Some s'"
  shows "mu_ok s'"
proof (rule mu_frame [OF mu])
  show "sv_threads s' u = sv_threads s u" if "u \<noteq> t" for u
    using sinv_advance [OF inv th step] that by (simp add: advances_def framed_def)
  have ow: "owner s t = holds_mu th" "holds_mu th \<Longrightarrow> sv_mu s = Some t" using mu th by (auto simp: mu_ok_def owner_def)
  show "sv_mu s' = sv_mu s \<and> owner s' t = owner s t \<or> sv_mu s = Some t \<and> sv_mu s' = None \<and> \<not> owner s' t"
  proof (cases th)
    case (TCall c q)
    then show ?thesis using call_mu [of s t c q r s'] th step ow by simp
  next
    case (TReserved c q)
    then show ?thesis using step ow by (auto simp: with_ctr_owner)
  next
    case (TCreate q)
    then show ?thesis using ow step th by (auto simp: create_phase_def ctl owner_def split: prod.splits outcome.splits)
  next
    case (TEarly c p ees resp b)
    then show ?thesis using ow step th
      by (auto simp: early_phase_def goto_phase_def unlock_def owner_def Let_def handle_exit_quiet(2) [OF sinv_heap [OF inv]]
          split: if_splits list.splits)
  next
    case (TAnnounced c po pid resp b)
    then show ?thesis using ow step th
      by (auto simp: started_phase_def handleStarted_def Let_def ctl owner_def split: option.splits if_splits)
  qed (use step th in \<open>auto simp: start_phase_def announce_phase_def deleted_phase_def ctl put_ctr_def owner_def Let_def
      split: prod.splits outcome.splits option.splits if_splits\<close>)
qed


lemma mu_same: "mu_ok s \<Longrightarrow> sv_mu s' = sv_mu s \<Longrightarrow> sv_threads s' = sv_threads s \<Longrightarrow> mu_ok s'"
  by (simp add: mu_ok_def owner_def)

lemma mu_step: "sstep r s s' \<Longrightarrow> sinv s \<Longrightarrow> mu_ok s \<Longrightarrow> mu_ok s'"
proof (induction rule: sstep.induct)
  case (create s t q)
  then show ?case by (auto simp: mu_ok_def begin_create_def goto_phase_def preStart_def owner_def Let_def)
next
  case (call s t i q)
  then show ?case by (auto simp: mu_ok_def begin_call_def goto_phase_def owner_def split: sum.splits)
next
  case (run s t th s')
  show ?case by (rule mu_advance [OF run(5,4,2,3)])
next
  case (exit s e)
  then show ?case by (auto intro: mu_same simp: receive_exit_def)
next
  case (handle s e c p cps)
  then show ?case by (intro mu_same [OF handle(5)]) (simp_all add: handle_next_same(1), simp add: handle_next_def Let_def)
next
  case (shutdown s)
  then show ?case by (auto intro: mu_same simp: Shutdown_def)
next
  case (world s w)
  then show ?case by (auto intro: mu_same)
qed

definition sok :: "'w svc \<Rightarrow> bool" where
  "sok s \<longleftrightarrow> sinv s \<and> mu_ok s"

lemma sok_step: "sstep r s s' \<Longrightarrow> sok s \<Longrightarrow> sok s'"
  using sinv_step mu_step by (auto simp: sok_def)

lemma sok_steps: "(sstep r)\<^sup>*\<^sup>* s s' \<Longrightarrow> sok s \<Longrightarrow> sok s'"
  by (induction rule: rtranclp_induct) (auto intro: sok_step)

lemma sok_new: "sok (new_service w)"
  using sinv_new by (simp add: sok_def mu_ok_def owner_def new_service_def)

text \<open>The service can go on to a state with a property, or it panics on the way.\<close>

definition can :: "('w, 'z) rtc_scheme \<Rightarrow> 'w svc \<Rightarrow> ('w svc \<Rightarrow> bool) \<Rightarrow> bool" where
  "can r s P \<longleftrightarrow> (\<exists>s'. (sstep r)\<^sup>*\<^sup>* s s' \<and> (sv_panicked s' \<or> P s'))"

lemma can_now: "P s \<or> sv_panicked s \<Longrightarrow> can r s P"
  unfolding can_def by blast

lemma can_steps: "(sstep r)\<^sup>*\<^sup>* s s1 \<Longrightarrow> can r s1 P \<Longrightarrow> can r s P"
  unfolding can_def by (meson rtranclp_trans)

lemma can_step: "sstep r s s1 \<Longrightarrow> (\<not> sv_panicked s1 \<Longrightarrow> can r s1 P) \<Longrightarrow> can r s P"
  unfolding can_def by (metis converse_rtranclp_into_rtranclp rtranclp.rtrancl_refl)

lemma early_release:
  assumes "sok s" and "sv_threads s t = Some (TEarly c p ees resp True)" and "\<not> sv_panicked s"
  shows "can r s (\<lambda>s. sv_mu s = None)"
  using assms
proof (induction ees arbitrary: s)
  case Nil
  have mu: "sv_mu s = Some t" using Nil by (simp add: sok_def mu_ok_def owner_def)
  have "sstep r s (goto_phase t (TDone resp) (unlock True s))"
    by (rule sstep.run [OF Nil(3,2)]) (simp add: early_phase_def mu)
  then show ?case by (rule can_step) (simp add: can_now goto_phase_def unlock_def)
next
  case (Cons e es)
  have mu: "sv_mu s = Some t" using Cons.prems by (simp add: sok_def mu_ok_def owner_def)
  let ?s1 = "handleProcessExit r e c p s"
  let ?s' = "if sv_panicked ?s1 then ?s1 else if es = [] then goto_phase t (TDone resp) (unlock True ?s1)
             else goto_phase t (TEarly c p es resp True) ?s1"
  have st: "sstep r s ?s'" by (rule sstep.run [OF Cons.prems(3,2)]) (simp add: early_phase_def mu Let_def)
  show ?case
  proof (rule can_step [OF st])
    assume np: "\<not> sv_panicked ?s'"
    show "can r ?s' (\<lambda>s. sv_mu s = None)"
    proof (cases "es = []")
      case True
      then show ?thesis using np by (intro can_now) (auto simp: goto_phase_def unlock_def)
    next
      case False
      then have "sv_threads ?s' t = Some (TEarly c p es resp True)" using np by (auto simp: goto_phase_def)
      then show ?thesis by (rule Cons.IH [OF sok_step [OF st Cons.prems(1)] _ np])
    qed
  qed
qed

lemma announced_release:
  assumes "sok s" and "sv_threads s t = Some (TAnnounced c po pid resp True)" and "\<not> sv_panicked s"
  shows "can r s (\<lambda>s. sv_mu s = None)"
proof -
  let ?s' = "started_phase t c po pid resp True s"
  have st: "sstep r s ?s'" by (rule sstep.run [OF assms(3,2)]) simp
  have "sv_mu ?s' = None \<or> (\<exists>p ees. sv_threads ?s' t = Some (TEarly c p ees resp True))"
    by (auto simp: started_phase_def handleStarted_def Let_def ctl split: option.splits)
  then have "can r ?s' (\<lambda>s. sv_mu s = None)" if "\<not> sv_panicked ?s'"
    using early_release [OF sok_step [OF st assms(1)] _ that] by (elim disjE exE) (simp_all add: can_now)
  then show ?thesis by (rule can_step [OF st])
qed

text \<open>Whoever holds the lock can go on until it is released.\<close>

lemma mu_released:
  assumes ok: "sok s" and np: "\<not> sv_panicked s"
  shows "can r s (\<lambda>s. sv_mu s = None)"
proof (cases "sv_mu s")
  case (Some t)
  then obtain th where th: "sv_threads s t = Some th" "holds_mu th"
    using ok by (auto simp: sok_def mu_ok_def owner_def split: option.splits)
  show ?thesis
  proof (cases th)
    case (TCreate q)
    let ?s' = "create_phase r t q s"
    have st: "sstep r s ?s'" by (rule sstep.run [OF np th(1)]) (simp add: TCreate)
    have "sv_panicked ?s' \<or> sv_mu ?s' = None \<or> (\<exists>c po pid resp. sv_threads ?s' t = Some (TAnnounced c po pid resp True))"
      by (auto simp: create_phase_def ctl split: prod.splits outcome.splits)
    then have "can r ?s' (\<lambda>s. sv_mu s = None)" if "\<not> sv_panicked ?s'"
      using that announced_release [OF sok_step [OF st ok] _ that] by (elim disjE exE) (simp_all add: can_now)
    then show ?thesis by (rule can_step [OF st])
  next
    case (TAnnounced c po pid resp b)
    then show ?thesis using announced_release [OF ok _ np] th by simp
  next
    case (TEarly c p ees resp b)
    then show ?thesis using early_release [OF ok _ np] th by simp
  qed (use th in auto)
qed (simp add: can_now)


lemma step_known: "sstep r s s' \<Longrightarrow> sok s \<Longrightarrow> known s c p q \<Longrightarrow> sok s' \<and> known s' c p q"
  using sok_step sinv_step known_grows(1) by (metis sok_def)

lemma reaper_can:
  assumes "sok s" and "\<not> sv_panicked s" and "sv_mu s = None" and "known s c p (ex_Pid e)"
    and "sv_reaper s = Some (e, cps)" and "(c, p) \<in> set cps"
  shows "can r s (\<lambda>s. handled s c p e)"
  using assms
proof (induction cps arbitrary: s)
  case (Cons cp cps)
  obtain c1 p1 where cp: "cp = (c1, p1)" by (cases cp)
  have ok: "heap_ok s" using Cons.prems(1) by (simp add: sok_def sinv_heap)
  let ?s' = "handle_next r e c1 p1 cps s"
  have st: "sstep r s ?s'" using Cons.prems(5) cp by (intro sstep.handle [OF Cons.prems(2)] Cons.prems(3)) simp
  show ?case
  proof (rule can_step [OF st])
    assume np: "\<not> sv_panicked ?s'"
    then have s': "?s' = handleProcessExit r e c1 p1 s\<lparr>sv_reaper := Some (e, cps)\<rparr>" "\<not> sv_panicked (handleProcessExit r e c1 p1 s)"
      by (auto simp: handle_next_def Let_def split: if_splits)
    show "can r ?s' (\<lambda>s. handled s c p e)"
    proof (cases "(c1, p1) = (c, p)")
      case True
      then have "handled ?s' c p e" using handle_exit_handles [OF ok Cons.prems(4), of r e] s' by (simp add: handled_ctl)
      then show ?thesis by (simp add: can_now)
    next
      case False
      have "sv_mu ?s' = None" "sv_reaper ?s' = Some (e, cps)" using s' Cons.prems(3) by simp_all
      moreover have "(c, p) \<in> set cps" using Cons.prems(6) False cp by auto
      ultimately show ?thesis using Cons.IH np step_known [OF st Cons.prems(1,4)] by blast
    qed
  qed
qed simp

lemma early_can:
  assumes "sok s" and "\<not> sv_panicked s" and "sv_mu s = None" and "known s c p (ex_Pid e)"
    and "sv_threads s t = Some (TEarly c p ees resp b)" and "e \<in> set ees"
  shows "can r s (\<lambda>s. handled s c p e)"
  using assms
proof (induction ees arbitrary: s)
  case (Cons e1 es)
  have ok: "heap_ok s" using Cons.prems(1) by (simp add: sok_def sinv_heap)
  have b: "\<not> b" using Cons.prems(1,3,5) by (auto simp: sok_def mu_ok_def owner_def split: option.splits) (metis holds_mu.simps(3) option.simps(5))
  let ?s1 = "handleProcessExit r e1 c p s"
  let ?s' = "if sv_panicked ?s1 then ?s1 else if es = [] then goto_phase t (TDone resp) (unlock b ?s1)
             else goto_phase t (TEarly c p es resp b) ?s1"
  have st: "sstep r s ?s'"
    by (rule sstep.run [OF Cons.prems(2,5)]) (use b Cons.prems(3) in \<open>simp add: early_phase_def Let_def\<close>)
  show ?case
  proof (rule can_step [OF st])
    assume np: "\<not> sv_panicked ?s'"
    then have np1: "\<not> sv_panicked ?s1" by (auto split: if_splits)
    show "can r ?s' (\<lambda>s. handled s c p e)"
    proof (cases "e = e1")
      case True
      then have "handled ?s' c p e" using handle_exit_handles [OF ok Cons.prems(4), of r e] np1 by (simp add: handled_ctl)
      then show ?thesis by (simp add: can_now)
    next
      case False
      then have "e \<in> set es" using Cons.prems(6) by simp
      moreover have "sv_mu ?s' = None" "sv_threads ?s' t = Some (TEarly c p es resp b)"
        using np1 Cons.prems(3) calculation by (auto simp: goto_phase_def)
      ultimately show ?thesis using Cons.IH np step_known [OF st Cons.prems(1,4)] by blast
    qed
  qed
qed simp

text \<open>A request that watches the process goes on to the point where it handles the exits it has collected.\<close>

lemma announced_can:
  assumes "sok s" and "\<not> sv_panicked s" and "sv_mu s = None" and "known s c p (ex_Pid e)"
    and "sv_threads s t = Some (TAnnounced c (Some p) (ex_Pid e) resp b)"
    and "sv_exitSubscribers s t = Some m" "m (ex_Pid e) = Some ees" "e \<in> set ees"
  shows "can r s (\<lambda>s. handled s c p e)"
proof -
  let ?s' = "started_phase t c (Some p) (ex_Pid e) resp b s"
  have st: "sstep r s ?s'" by (rule sstep.run [OF assms(2,5)]) simp
  have q: "ex_Pid e \<noteq> 0" "ees \<noteq> []" using assms(4,8) by (auto simp: known_def)
  have "sv_threads ?s' t = Some (TEarly c p ees resp b)" using started_tracks(2) [OF assms(6) q(1) refl assms(7) q(2)] .
  moreover have "sv_mu ?s' = None" using assms(3) by (auto simp: started_phase_def handleStarted_def Let_def ctl split: option.splits)
  ultimately show ?thesis
    using can_step [OF st] early_can step_known [OF st assms(1,4)] assms(8) by blast
qed

lemma tracks_can:
  assumes ok: "sok s" and np: "\<not> sv_panicked s" and mu: "sv_mu s = None" and k: "known s c p (ex_Pid e)"
    and w: "sv_threads s t = Some th" "watches th c p (ex_Pid e)"
    and m: "sv_exitSubscribers s t = Some m" "m (ex_Pid e) = Some ees" "e \<in> set ees"
  shows "can r s (\<lambda>s. handled s c p e)"
proof -
  have started: "can r s (\<lambda>s. handled s c p e)" if ok: "sok s" and np: "\<not> sv_panicked s" and mu: "sv_mu s = None"
    and k: "known s c p (ex_Pid e)" and th: "sv_threads s t = Some (TStarted c (Some p) err x)"
    and m: "sv_exitSubscribers s t = Some m" "m (ex_Pid e) = Some ees" for s err x
  proof -
    let ?s' = "announce_phase r t c (Some p) err x s"
    have st: "sstep r s ?s'" by (rule sstep.run [OF np th]) simp
    have "sv_panicked ?s' \<or> sv_mu ?s' = None \<and> sv_exitSubscribers ?s' t = Some m \<and>
        (\<exists>resp. sv_threads ?s' t = Some (TAnnounced c (Some p) (ex_Pid e) resp False))"
      using k mu m by (auto simp: announce_phase_def ref_Pid_def known_def ctl Let_def split: option.splits)
    then show ?thesis
      using can_step [OF st] announced_can [where m = m and ees = ees and e = e] m(2) assms(9) step_known [OF st ok k] by blast
  qed
  show ?thesis
  proof (cases th)
    case (TStart c' x)
    then have c: "c' = c" "x = []" "p = PInit" using w(2) by simp_all
    let ?s' = "start_phase r t c [] s"
    have st: "sstep r s ?s'" by (rule sstep.run [OF np w(1)]) (simp add: TStart c)
    have "sv_panicked ?s' \<or> sv_mu ?s' = None \<and> sv_exitSubscribers ?s' t = Some m \<and>
        (\<exists>err. sv_threads ?s' t = Some (TStarted c (Some p) err []))"
      using mu m c(3) by (auto simp: start_phase_def ct_Start_def ct_Process_def ctl put_ctr_def split: prod.splits outcome.splits)
    then show ?thesis using can_step [OF st] started m step_known [OF st ok k] by blast
  next
    case (TStarted c' po err x)
    then show ?thesis using started [OF ok np mu k _ m(1,2)] w by simp
  next
    case (TAnnounced c' po pid resp b)
    then show ?thesis using announced_can [OF ok np mu k _ m] w by simp
  qed (use w in auto)
qed

lemma pending_can:
  assumes "sok s" and "\<not> sv_panicked s" and "sv_mu s = None" and "known s c p (ex_Pid e)" and "pending s c p e"
  shows "can r s (\<lambda>s. handled s c p e)"
  using assms(5) unfolding pending_def tracks_def
  by (elim disjE exE conjE)
    (auto intro: reaper_can [OF assms(1-4)] early_can [OF assms(1-4)] tracks_can [OF assms(1-4)])


text \<open>C24: A pending exit can always be handled: whatever other requests are doing, from every state that the service reaches without a
  panic and in which an exit is to be handled for a process with its pid, the service can go on until the exit event
  of that process is published, unless it panics; in particular no request holds the lock for good.\<close>

theorem exit_gets_handled:
  assumes reach: "(sstep r)\<^sup>*\<^sup>* (new_service w0) s" and np: "\<not> sv_panicked s"
    and ref: "c < length (sv_heap s)" "pref_ok p (sv_heap s ! c)" "proc_Pid p (sv_heap s ! c) = ex_Pid e" "ex_Pid e \<noteq> 0"
    and pe: "pending s c p e"
  shows "\<exists>s'. (sstep r)\<^sup>*\<^sup>* s s' \<and>
    (sv_panicked s' \<or> EvExit (ct_ID (sv_heap s' ! c)) (proc_ID p (sv_heap s' ! c)) (ex_Pid e) (ex_Status e) \<in> set (sv_events s'))"
proof -
  have ok: "sok s" using sok_steps [OF reach sok_new] .
  have k: "known s c p (ex_Pid e)" using ref by (simp add: known_def)
  obtain s1 where s1: "(sstep r)\<^sup>*\<^sup>* s s1" "sv_panicked s1 \<or> sv_mu s1 = None" using mu_released [OF ok np] unfolding can_def by blast
  have ok1: "sok s1" using sok_steps [OF s1(1) ok] .
  have inv: "sinv s" using ok by (simp add: sok_def)
  have k1: "known s1 c p (ex_Pid e)" using known_grows(1) [OF k] sinv_steps [OF s1(1) inv] by blast
  have "pending s1 c p e \<or> handled s1 c p e" using pending_steps [OF s1(1) inv k] pe by blast
  have "can r s1 (\<lambda>s. handled s c p e)"
  proof (cases "handled s1 c p e \<or> sv_panicked s1")
    case False
    then have "\<not> sv_panicked s1" "sv_mu s1 = None" "pending s1 c p e" using s1(2) \<open>pending s1 c p e \<or> handled s1 c p e\<close> by simp_all
    then show ?thesis by (rule pending_can [OF ok1 _ _ k1])
  qed (rule can_now)
  from can_steps [OF s1(1) this] show ?thesis unfolding can_def handled_def .
qed

end
