(* ===== verification/Shim_Runs.thy ===== *)
theory Shim_Runs
  imports Shim_Exits
begin

text \<open>Runs of the task service that show its weak points, a second start of a running exec process and the start of a
  restored container, and the concrete runs that witness the properties of the service.\<close>

section \<open>Starting a process twice\<close>

text \<open>The steps of a start request that is refused\<close>

lemma refused_exec_start:
  assumes s: "\<not> sv_panicked s" "sv_mu s = None" "sv_threads s t = None" and c: "getContainer i s = Inr c" "c < length (sv_heap s)"
    and x: "x \<noteq> []" "ct_Process x (sv_heap s ! c) = Inr (PExec k)" "k < length (ct_execs (sv_heap s ! c))"
    and e: "ep_state (ct_execs (sv_heap s ! c) ! k) = ERunning" "ep_pid (ct_execs (sv_heap s ! c) ! k) = q" "q \<noteq> 0"
  shows "\<exists>s1. (sstep r)\<^sup>*\<^sup>* s s1 \<and> \<not> sv_panicked s1 \<and> sv_mu s1 = None \<and>
    sv_threads s1 t = Some (TDone (RErr (Msg ''cannot start a running process''))) \<and> sv_heap s1 = sv_heap s \<and>
    sv_running s1 = (sv_running s)(q := sv_running s q @ [(c, PExec k)]) \<and>
    sv_events s1 = sv_events s \<and> sv_reaped s1 = sv_reaped s \<and> sv_reaper s1 = sv_reaper s \<and> sv_w s1 = sv_w s"
proof -
  let ?ct = "sv_heap s ! c" and ?err = "Msg ''cannot start a running process''"
  let ?a = "s\<lparr>sv_threads := (sv_threads s)(t \<mapsto> TCall c (QStart x))\<rparr>"
  let ?b = "s\<lparr>sv_exitSubscribers := (sv_exitSubscribers s)(t \<mapsto> Map.empty), sv_threads := (sv_threads s)(t \<mapsto> TStart c x)\<rparr>"
  let ?c = "?b\<lparr>sv_threads := (sv_threads s)(t \<mapsto> TStarted c (Some (PExec k)) (Some ?err) x)\<rparr>"
  let ?d = "?b\<lparr>sv_threads := (sv_threads s)(t \<mapsto> TAnnounced c (Some (PExec k)) q (RErr ?err) False)\<rparr>"
  let ?e = "s\<lparr>sv_exitSubscribers := (sv_exitSubscribers s)(t := None),
      sv_running := (sv_running s)(q := sv_running s q @ [(c, PExec k)]), sv_threads := (sv_threads s)(t \<mapsto> TDone (RErr ?err))\<rparr>"
  have st: "ct_Start r x ?ct w = (Some (PExec k), Err ?err, ?ct, w)" for w
    using x e by (simp add: ct_Start_def proc_Start_def on_exec_def exec_Start_def fail_msg_def)
  have "sstep r s ?a" using sstep.call [OF s, of r i "QStart x"] c by (simp add: begin_call_def goto_phase_def)
  moreover have "sstep r ?a ?b"
    by (rule sstep.run [of _ t "TCall c (QStart x)"]) (use s x in \<open>simp_all add: goto_phase_def preStart_def Let_def\<close>)
  moreover have "sstep r ?b ?c"
    by (rule sstep.run [of _ t "TStart c x"]) (use s st c in \<open>simp_all add: start_phase_def goto_phase_def put_ctr_def\<close>)
  moreover have "sstep r ?c ?d"
    by (rule sstep.run [of _ t "TStarted c (Some (PExec k)) (Some ?err) x"])
      (use s e in \<open>simp_all add: announce_phase_def goto_phase_def ref_Pid_def Let_def\<close>)
  moreover have "sstep r ?d ?e"
    by (rule sstep.run [of _ t "TAnnounced c (Some (PExec k)) q (RErr ?err) False"])
      (use s e in \<open>simp_all add: started_phase_def handleStarted_def goto_phase_def unlock_def Let_def\<close>)
  ultimately have "(sstep r)\<^sup>*\<^sup>* s ?e" by (meson converse_rtranclp_into_rtranclp rtranclp.rtrancl_refl)
  then show ?thesis using s by (intro exI [of _ ?e]) simp
qed


text \<open>Handling an exit for an exec process: the first time it becomes stopped, every time an event is sent.\<close>

lemma handle_exec_exit:
  assumes c: "c < length (sv_heap s)" "k < length (ct_execs (sv_heap s ! c))"
    and st: "ep_state (ct_execs (sv_heap s ! c) ! k) = ERunning \<and> \<not> ep_waitClosed (ct_execs (sv_heap s ! c) ! k) \<or>
      ep_state (ct_execs (sv_heap s ! c) ! k) = EStopped"
    and np: "\<not> sv_panicked s"
  shows "\<not> sv_panicked (handleProcessExit r e c (PExec k) s)"
    "sv_events (handleProcessExit r e c (PExec k) s) =
       sv_events s @ [EvExit (ct_ID (sv_heap s ! c)) (ep_id (ct_execs (sv_heap s ! c) ! k)) (ex_Pid e) (ex_Status e)]"
    "length (sv_heap (handleProcessExit r e c (PExec k) s)) = length (sv_heap s)"
    "length (ct_execs (sv_heap (handleProcessExit r e c (PExec k) s) ! c)) = length (ct_execs (sv_heap s ! c))"
    "ct_ID (sv_heap (handleProcessExit r e c (PExec k) s) ! c) = ct_ID (sv_heap s ! c)"
    "ep_id (ct_execs (sv_heap (handleProcessExit r e c (PExec k) s) ! c) ! k) = ep_id (ct_execs (sv_heap s ! c) ! k)"
    "ep_state (ct_execs (sv_heap (handleProcessExit r e c (PExec k) s) ! c) ! k) = EStopped"
  using assms
  by (auto simp: handleProcessExit_def proc_SetExited_def on_exec_def exec_SetExited_def send_def put_ctr_def Let_def)

text \<open>C25: A start that is refused makes the service report an exit twice: when an exec process is running and is started once
  more, the request is answered with an error, yet the process is entered among the running ones a second time, and
  its one exit is then published by two events.\<close>

theorem refused_start_repeats_exit:
  assumes s: "\<not> sv_panicked s" "sv_mu s = None" "sv_threads s t = None" and c: "getContainer i s = Inr c" "c < length (sv_heap s)"
    and x: "x \<noteq> []" "ct_Process x (sv_heap s ! c) = Inr (PExec k)" "k < length (ct_execs (sv_heap s ! c))"
    and e: "ep_state (ct_execs (sv_heap s ! c) ! k) = ERunning" "ep_pid (ct_execs (sv_heap s ! c) ! k) = q" "q \<noteq> 0"
      "\<not> ep_waitClosed (ct_execs (sv_heap s ! c) ! k)"
    and run: "sv_running s q = [(c, PExec k)]" "reaper_idle s" and ex: "ex = \<lparr>ex_Pid = q, ex_Status = st\<rparr>"
  shows "\<exists>s1 s2. (sstep r)\<^sup>*\<^sup>* s s1 \<and> sv_threads s1 t = Some (TDone (RErr (Msg ''cannot start a running process''))) \<and>
    sstep r s1 (receive_exit ex s1) \<and> (sstep r)\<^sup>*\<^sup>* (receive_exit ex s1) s2 \<and> sv_reaped s2 = sv_reaped s @ [ex] \<and>
    (let ev = EvExit (ct_ID (sv_heap s ! c)) (ep_id (ct_execs (sv_heap s ! c) ! k)) q st in sv_events s2 = sv_events s @ [ev, ev])"
proof -
  obtain s1 where s1: "(sstep r)\<^sup>*\<^sup>* s s1" "\<not> sv_panicked s1" "sv_mu s1 = None"
    "sv_threads s1 t = Some (TDone (RErr (Msg ''cannot start a running process'')))" "sv_heap s1 = sv_heap s"
    "sv_running s1 = (sv_running s)(q := sv_running s q @ [(c, PExec k)])" "sv_events s1 = sv_events s"
    "sv_reaped s1 = sv_reaped s" "sv_reaper s1 = sv_reaper s"
    using refused_exec_start [OF s c x e(1-3), of r] by blast
  let ?p = "PExec k" and ?s2 = "receive_exit ex s1"
  let ?h1 = "handleProcessExit r ex c ?p ?s2"
  let ?s3 = "?h1\<lparr>sv_reaper := Some (ex, [(c, ?p)])\<rparr>"
  let ?h2 = "handleProcessExit r ex c ?p ?s3"
  let ?s4 = "?h2\<lparr>sv_reaper := Some (ex, [])\<rparr>"
  have st2: "sstep r s1 ?s2" using sstep.exit [OF s1(2)] run(2) s1(9) by (simp add: reaper_idle_def)
  have s2: "sv_heap ?s2 = sv_heap s" "\<not> sv_panicked ?s2" "sv_mu ?s2 = None" "sv_reaper ?s2 = Some (ex, [(c, ?p), (c, ?p)])"
    using s1 run(1) ex by (simp_all add: receive_exit_def)
  have h1: "\<not> sv_panicked ?h1" "sv_events ?h1 = sv_events s @ [EvExit (ct_ID (sv_heap s ! c)) (ep_id (ct_execs (sv_heap s ! c) ! k)) q st]"
    "length (sv_heap ?h1) = length (sv_heap s)" "length (ct_execs (sv_heap ?h1 ! c)) = length (ct_execs (sv_heap s ! c))"
    "ct_ID (sv_heap ?h1 ! c) = ct_ID (sv_heap s ! c)" "ep_id (ct_execs (sv_heap ?h1 ! c) ! k) = ep_id (ct_execs (sv_heap s ! c) ! k)"
    "ep_state (ct_execs (sv_heap ?h1 ! c) ! k) = EStopped"
    using handle_exec_exit [of c ?s2 k r ex] s2 c x e s1(7) ex by (simp_all add: receive_exit_def)
  have h2: "\<not> sv_panicked ?h2" "sv_events ?h2 = sv_events ?h1 @ [EvExit (ct_ID (sv_heap s ! c)) (ep_id (ct_execs (sv_heap s ! c) ! k)) q st]"
    using handle_exec_exit(1,2) [of c ?s3 k r ex] h1 c x ex by simp_all
  have "sstep r ?s2 ?s3" using sstep.handle [OF s2(2,4,3), of r] h1(1) by (simp add: handle_next_def)
  moreover have "sstep r ?s3 ?s4" using sstep.handle [of ?s3 ex c ?p "[]" r] h1(1) h2(1) s2(3) by (simp add: handle_next_def)
  ultimately have "(sstep r)\<^sup>*\<^sup>* ?s2 ?s4" by (meson converse_rtranclp_into_rtranclp rtranclp.rtrancl_refl)
  moreover have "sv_reaped ?s4 = sv_reaped s @ [ex]" using s1(8)
    by (simp add: handleProcessExit_def send_def panicked_def put_ctr_def receive_exit_def Let_def split: prod.splits outcome.splits)
  moreover have "let ev = EvExit (ct_ID (sv_heap s ! c)) (ep_id (ct_execs (sv_heap s ! c) ! k)) q st in sv_events ?s4 = sv_events s @ [ev, ev]"
    using h1(2) h2(2) by simp
  ultimately show ?thesis using s1(1,4) st2 by blast
qed

section \<open>Starting a restored container\<close>

lemma restored_container:
  assumes "NewContainer r q w = (Ok ct, w')" and "cq_Checkpoint q \<noteq> []"
  shows "ct_cgroup ct = CgNil" "\<exists>opts. ip_state (ct_process ct) = ICreatedCheckpoint opts"
proof -
  from assms(1) obtain opts rootfs w3 p w4 where m: "mounted_init r q opts rootfs w3 = (Ok (), p, w4)"
    "ct = new_ctr q p (if 0 < ip_pid p then new_cgroup r (ip_pid p) w4 else CgNil)"
    by (auto simp: NewContainer_def Let_def split: sum.splits prod.splits option.splits outcome.splits)
  then obtain w5 where "init_Create r q (newInit q opts rootfs) w5 = (Ok (), p, w4)"
    by (auto simp: mounted_init_def Let_def split: prod.splits option.splits)
  then obtain p1 where "p = createCheckpointedState (cq_Checkpoint q) (cq_ParentCheckpoint q) p1"
    using assms(2) by (auto simp: init_Create_def elim!: sh_bind_Ok)
  then have "\<exists>opts. ip_state p = ICreatedCheckpoint opts" by (simp add: createCheckpointedState_def)
  moreover have "pid0 p" using NewContainer_wf [OF assms(1)] m(2) by (simp add: ct_wf_def new_ctr_def)
  ultimately show "ct_cgroup ct = CgNil" "\<exists>opts. ip_state (ct_process ct) = ICreatedCheckpoint opts"
    using m(2) by (auto simp: pid0_def new_ctr_def)
qed

text \<open>C26: Starting a restored container can end the shim: a container created from a checkpoint has no process and no
  cgroup yet. When its start succeeds under the unified cgroup hierarchy but the group of the restored process cannot be
  read, for instance because it has already exited, the container gets a nil cgroup manager inside an interface that is not
  nil, and the start request dereferences it.\<close>

theorem restored_start_panics:
  assumes new: "NewContainer r q w = (Ok ct, w')" "cq_Checkpoint q \<noteq> []"
    and s: "\<not> sv_panicked s" "sv_threads s t = Some (TStart c [])" "c < length (sv_heap s)" "sv_heap s ! c = ct"
    and start: "task_Start r (ct_process ct) (sv_w s) = (Ok (), p, w1)" "0 < ip_pid p"
    and cg: "rc_Unified r" "rc_PidGroupPath r (ip_pid p) w1 = Inl e"
  shows "\<exists>s1 s2. sstep r s s1 \<and> sstep r s1 s2 \<and> sv_panicked s2"
proof -
  have nil: "ct_cgroup ct = CgNil" using restored_container [OF new] by simp
  let ?ct = "ct\<lparr>ct_process := p, ct_cgroup := CgV2 None\<rparr>"
  have "\<not> VerifyGroupPath []" by (simp add: VerifyGroupPath_def IsAbs_def)
  then have "start_cgroup r (ip_pid p) w1 = CgV2 None" using cg by (simp add: start_cgroup_def cgroup2_Load_def)
  then have ct: "ct_Start r [] ct (sv_w s) = (Some PInit, Ok (), ?ct, w1)"
    using start nil by (simp add: ct_Start_def ct_Process_def proc_Start_def on_init_def)
  let ?s1 = "goto_phase t (TStarted c (Some PInit) None []) (put_ctr c ?ct w1 s)"
  have "sstep r s ?s1" by (rule sstep.run [OF s(1,2)]) (use s(4) ct in \<open>simp add: start_phase_def\<close>)
  moreover have "sstep r ?s1 (panicked ?s1)"
    by (rule sstep.run [of _ t "TStarted c (Some PInit) None []"])
      (use s in \<open>simp_all add: goto_phase_def put_ctr_def announce_phase_def Let_def\<close>)
  moreover have "sv_panicked (panicked ?s1)" by (simp add: panicked_def)
  ultimately show ?thesis by blast
qed


section \<open>Concrete runs\<close>

definition runs :: "('w, 'z) rtc_scheme \<Rightarrow> nat \<Rightarrow> 'w svc \<Rightarrow> 'w svc" where
  "runs r t s = (case sv_threads s t of None \<Rightarrow> s | Some th \<Rightarrow> (case advance r t th s of None \<Rightarrow> s | Some s' \<Rightarrow> s'))"

lemma runs_steps: "\<not> sv_panicked s \<Longrightarrow> (sstep r)\<^sup>*\<^sup>* s (runs r t s)"
  by (auto simp: runs_def split: option.splits intro: sstep.run)

definition ex_rtc :: "string list rtc" where
  "ex_rtc =
    \<lparr>rt_Start = (\<lambda>i w. (None, ''start'' # w)), rt_Delete = (\<lambda>i w. (None, w)), rt_Pause = (\<lambda>i w. (None, w)),
     rt_Resume = (\<lambda>i w. (None, w)), rt_Kill = (\<lambda>i sig all w. (None, w)), rt_Update = (\<lambda>i res w. (None, w)),
     rt_Checkpoint = (\<lambda>i opts leave w. (None, co_ImagePath opts # w)),
     rt_Restore = (\<lambda>i b opts w. (None, ro_ImagePath opts # w)), rt_Exec = (\<lambda>i sp w. (None, w)),
     rt_Unmarshal = (\<lambda>x. None), rt_lastError = (\<lambda>w. Inr []), rt_text = (\<lambda>e. []), rt_NewSocket = (\<lambda>w. (None, w)),
     rt_OpenFifo = (\<lambda>f w. (None, w)), rt_ReceiveMaster = (\<lambda>w. (None, w)), rt_CopyConsole = (\<lambda>w. (None, w)),
     rt_CopyIO = (\<lambda>w. (None, w)), rt_CreateIO = (\<lambda>w. (None, w)), rt_ReadPidFile = (\<lambda>f w. Inr 42),
     rt_Unmount = (\<lambda>d w. (None, w)), rt_CloseIO = (\<lambda>w. w), rt_RemoveAll = (\<lambda>d w. w), rt_CopyFile = (\<lambda>a b w. w),
     rt_kill_pid = (\<lambda>p sig w. (None, w)), rc_Create = (\<lambda>i b opts w. (None, ''create'' # w)),
     rc_Features = (\<lambda>w. Inl (ErrText ''none'')), rc_readConfig = (\<lambda>b w. Inr \<lparr>os_Mounts = [], os_Namespaces = Some [(''pid'', [])]\<rparr>),
     rc_ReadSpec = (\<lambda>b w. Inr \<lparr>os_Mounts = [], os_Namespaces = Some [(''pid'', [])]\<rparr>), rc_Namespace = Inr ''default'',
     rc_UnmarshalOptions = (\<lambda>x. Inr None), rc_UnmarshalCheckpoint = (\<lambda>x. Inr no_ck_options),
     rc_MarshalOptions = (\<lambda>x. Inr []), rc_Mkdir = (\<lambda>d w. (None, w)), rc_WriteFile = (\<lambda>f d w. (None, w)),
     rc_Mount = (\<lambda>m d w. (None, w)), rc_RootPath = (\<lambda>a b w. Inr a), rc_UnmountAll = (\<lambda>d w. (None, w)), rc_Unified = True,
     rc_PidGroupPath = (\<lambda>p w. Inl (Errno ENOENT)), rc_LoadV1 = (\<lambda>p w. None), rc_WatchOOM = (\<lambda>i g w. w)\<rparr>"

definition ex_create :: "string \<Rightarrow> create_request" where
  "ex_create img = \<lparr>cq_ID = ''t1'', cq_Bundle = ''/b'', cq_Rootfs = [], cq_Terminal = False, cq_Stdin = [],
     cq_Checkpoint = img, cq_ParentCheckpoint = [], cq_Options = None\<rparr>"

text \<open>A runtime whose processes have a cgroup\<close>

definition ex_rtg :: "string list rtc" where
  "ex_rtg = ex_rtc\<lparr>rc_PidGroupPath := (\<lambda>p w. Inr ''/g'')\<rparr>"

definition ex_exit :: exit where "ex_exit = \<lparr>ex_Pid = 42, ex_Status = 7\<rparr>"

definition ex_created :: "string list svc" where
  "ex_created = runs ex_rtg 0 (runs ex_rtg 0 (begin_create 0 (ex_create []) (new_service [])))"

definition ex_started :: "string list svc" where
  "ex_started = runs ex_rtg 1 (runs ex_rtg 1 (begin_call 1 ''t1'' (QStart []) ex_created))"

definition ex_early :: "string list svc" where
  "ex_early = receive_exit ex_exit ex_started"

definition ex_done :: "string list svc" where
  "ex_done = runs ex_rtg 1 (runs ex_rtg 1 (runs ex_rtg 1 ex_early))"

lemma ex_threads:
  "sv_threads ex_created 0 = Some (TDone (RPid 42))" "sv_threads ex_started 1 = Some (TStarted 0 (Some PInit) None [])"
  "sv_threads ex_done 1 = Some (TDone (RPid 42))"
  "sv_events ex_done = [EvCreate ''t1'' 42, EvStart ''t1'' 42, EvExit ''t1'' ''t1'' 42 7]"
  by code_simp+


lemma runs_other: "sinv s \<Longrightarrow> u \<noteq> t \<Longrightarrow> sv_threads (runs r t s) u = sv_threads s u"
  by (auto simp: runs_def split: option.splits dest!: sinv_advance simp: advances_def framed_def)

lemma ex_not_panicked:
  "\<not> sv_panicked (new_service [])" "\<not> sv_panicked (begin_create 0 (ex_create []) (new_service []))"
  "\<not> sv_panicked (runs ex_rtg 0 (begin_create 0 (ex_create []) (new_service [])))" "\<not> sv_panicked ex_created"
  "\<not> sv_panicked (begin_call 1 ''t1'' (QStart []) ex_created)"
  "\<not> sv_panicked (runs ex_rtg 1 (begin_call 1 ''t1'' (QStart []) ex_created))"
  "\<not> sv_panicked ex_started" "\<not> sv_panicked ex_early" "\<not> sv_panicked (runs ex_rtg 1 ex_early)"
  "\<not> sv_panicked (runs ex_rtg 1 (runs ex_rtg 1 ex_early))"
  by code_simp+

lemma ex_idle: "sv_mu ex_created = None" "sv_threads ex_created 1 = None" "reaper_idle ex_started" "sv_mu (new_service []) = None"
  "sv_threads (new_service []) 0 = None"
  by code_simp+

lemma ex_create_steps: "(sstep ex_rtg)\<^sup>*\<^sup>* (new_service []) ex_created"
proof -
  have "sstep ex_rtg (new_service []) (begin_create 0 (ex_create []) (new_service []))"
    by (rule sstep.create [OF ex_not_panicked(1) ex_idle(4,5)])
  then show ?thesis unfolding ex_created_def using runs_steps ex_not_panicked(2,3) by (meson converse_rtranclp_into_rtranclp rtranclp_trans)
qed

lemma ex_start_steps: "(sstep ex_rtg)\<^sup>*\<^sup>* (new_service []) ex_started"
proof -
  have "sstep ex_rtg ex_created (begin_call 1 ''t1'' (QStart []) ex_created)"
    by (rule sstep.call [OF ex_not_panicked(4) ex_idle(1,2)])
  moreover have "(sstep ex_rtg)\<^sup>*\<^sup>* (begin_call 1 ''t1'' (QStart []) ex_created) ex_started"
    unfolding ex_started_def using runs_steps ex_not_panicked(5,6) by (meson rtranclp_trans)
  ultimately show ?thesis using ex_create_steps by (meson converse_rtranclp_into_rtranclp rtranclp_trans)
qed

lemma ex_early_steps: "(sstep ex_rtg)\<^sup>*\<^sup>* ex_started ex_early" "(sstep ex_rtg)\<^sup>*\<^sup>* ex_started ex_done"
proof -
  show 1: "(sstep ex_rtg)\<^sup>*\<^sup>* ex_started ex_early"
    unfolding ex_early_def by (rule r_into_rtranclp [of "sstep ex_rtg", OF sstep.exit [OF ex_not_panicked(7) ex_idle(3)]])
  show "(sstep ex_rtg)\<^sup>*\<^sup>* ex_started ex_done"
    unfolding ex_done_def using 1 runs_steps ex_not_panicked(8-10) by (meson rtranclp_trans)
qed

lemma ex_quiescent: "quiescent ex_done"
proof -
  let ?c0 = "begin_create 0 (ex_create []) (new_service [])" and ?c1 = "begin_call 1 ''t1'' (QStart []) ex_created"
  note runs = runs_steps [where r = ex_rtg]
  have inv: "sinv ex_created" "sinv ex_early"
    using sinv_steps [OF ex_create_steps sinv_new] sinv_steps [OF rtranclp_trans [OF ex_start_steps ex_early_steps(1)] sinv_new]
    by simp_all
  have c0: "sinv ?c0" using sinv_step [OF sstep.create [OF ex_not_panicked(1) ex_idle(4,5)] sinv_new] by blast
  have c1: "sinv ?c1" using sinv_step [OF sstep.call [OF ex_not_panicked(4) ex_idle(1,2)] inv(1)] by blast
  note inv1 = sinv_steps [OF runs [OF ex_not_panicked(2)] c0] sinv_steps [OF runs [OF ex_not_panicked(5)] c1]
    sinv_steps [OF runs [OF ex_not_panicked(8)] inv(2)]
  have inv2: "sinv (runs ex_rtg 1 (runs ex_rtg 1 ex_early))" using sinv_steps [OF runs [OF ex_not_panicked(9)]] inv1(3) by blast
  have "sv_threads ex_done t = None" if t: "t \<noteq> 0" "t \<noteq> 1" for t
  proof -
    have "sv_threads ?c0 t = None" using t by (simp add: begin_create_def goto_phase_def new_service_def)
    then have "sv_threads ex_created t = None"
      using runs_other [OF c0 t(1), of ex_rtg] runs_other [OF conjunct1 [OF inv1(1)] t(1), of ex_rtg] by (simp add: ex_created_def)
    then have "sv_threads ?c1 t = None" using t by (simp add: begin_call_def goto_phase_def split: sum.split)
    then have "sv_threads ex_early t = None"
      using runs_other [OF c1 t(2), of ex_rtg] runs_other [OF conjunct1 [OF inv1(2)] t(2), of ex_rtg]
      by (simp add: ex_early_def receive_exit_def ex_started_def)
    then show ?thesis
      using runs_other [OF inv(2) t(2), of ex_rtg] runs_other [OF conjunct1 [OF inv1(3)] t(2), of ex_rtg] runs_other [OF inv2 t(2), of ex_rtg]
      by (simp add: ex_done_def)
  qed
  moreover have "sv_threads ex_done 0 = Some (TDone (RPid 42))" "reaper_idle ex_done" by code_simp+
  ultimately show ?thesis using ex_threads(3) unfolding quiescent_def by (metis option.distinct(1) option.inject)
qed

theorem started_exit_handled_witness:
  "collected ex_early 1 42 = [ex_exit] \<and> EvExit ''t1'' ''t1'' 42 7 \<in> set (sv_events ex_done)"
proof -
  have "proc_Pid PInit (sv_heap ex_started ! 0) = 42" by code_simp
  from started_exit_handled [OF ex_start_steps ex_threads(2) this _ ex_early_steps(2) ex_quiescent]
  have "case collected ex_started 1 42 @ filter (\<lambda>e. ex_Pid e = 42) (drop (length (sv_reaped ex_started)) (sv_reaped ex_done)) of
      [] \<Rightarrow> (0, PInit) \<in> set (sv_running ex_done 42)
    | e # _ \<Rightarrow> EvExit (ct_ID (sv_heap ex_done ! 0)) (proc_ID PInit (sv_heap ex_done ! 0)) 42 (ex_Status e) \<in> set (sv_events ex_done)"
    by simp
  moreover have "collected ex_started 1 42 @ filter (\<lambda>e. ex_Pid e = 42) (drop (length (sv_reaped ex_started)) (sv_reaped ex_done)) = [ex_exit]"
    "ct_ID (sv_heap ex_done ! 0) = ''t1''" "proc_ID PInit (sv_heap ex_done ! 0) = ''t1''" "ex_Status ex_exit = 7"
    "collected ex_early 1 42 = [ex_exit]" by code_simp+
  ultimately show ?thesis by simp
qed

theorem exit_gets_handled_witness:
  "pending ex_early 0 PInit ex_exit \<and> (\<exists>s'. (sstep ex_rtg)\<^sup>*\<^sup>* ex_early s' \<and>
     (sv_panicked s' \<or> EvExit (ct_ID (sv_heap s' ! 0)) (proc_ID PInit (sv_heap s' ! 0)) 42 7 \<in> set (sv_events s')))"
proof -
  have p: "pending ex_early 0 PInit ex_exit"
  proof -
    have "sv_threads ex_early 1 = Some (TStarted 0 (Some PInit) None [])" by code_simp
    moreover obtain m where "sv_exitSubscribers ex_early 1 = Some m" "m 42 = Some [ex_exit]"
    proof -
      have "map_option (\<lambda>m. m 42) (sv_exitSubscribers ex_early 1) = Some (Some [ex_exit])" by code_simp
      then show thesis using that by auto
    qed
    ultimately show ?thesis unfolding pending_def tracks_def by (force simp: ex_exit_def)
  qed
  have r: "(sstep ex_rtg)\<^sup>*\<^sup>* (new_service []) ex_early" using ex_start_steps ex_early_steps(1) by (rule rtranclp_trans)
  have "0 < length (sv_heap ex_early)" "pref_ok PInit (sv_heap ex_early ! 0)" "proc_Pid PInit (sv_heap ex_early ! 0) = ex_Pid ex_exit"
    "ex_Pid ex_exit \<noteq> 0" "ex_Pid ex_exit = 42" "ex_Status ex_exit = 7" by code_simp+
  then show ?thesis using exit_gets_handled [OF r ex_not_panicked(8), of 0 PInit ex_exit] p by simp
qed


text \<open>A container with a running exec process\<close>

definition ex_rtx :: "string list rtc" where
  "ex_rtx = ex_rtg\<lparr>rt_ReadPidFile := (\<lambda>f w. Inr (if f = ''/b/init.pid'' then 42 else 43))\<rparr>"

definition ex_execed :: "string list svc" where
  "ex_execed = (let s0 = begin_call 1 ''t1'' (QExec \<lparr>xq_ExecID = ''e1'', xq_Terminal = False, xq_Stdin = [], xq_Spec = ''{}''\<rparr>) ex_created
     in runs ex_rtx 1 (runs ex_rtx 1 (runs ex_rtx 1 s0)))"

definition ex_running_exec :: "string list svc" where
  "ex_running_exec = runs ex_rtx 2 (runs ex_rtx 2 (runs ex_rtx 2 (runs ex_rtx 2 (begin_call 2 ''t1'' (QStart ''e1'') ex_execed))))"

theorem refused_start_repeats_exit_witness:
  "sv_events ex_running_exec = [EvCreate ''t1'' 42, EvExecAdded ''t1'' ''e1'', EvExecStarted ''t1'' ''e1'' 43] \<and>
   (\<exists>s1 s2. (sstep ex_rtx)\<^sup>*\<^sup>* ex_running_exec s1 \<and> sv_threads s1 3 = Some (TDone (RErr (Msg ''cannot start a running process''))) \<and>
     (sstep ex_rtx)\<^sup>*\<^sup>* s1 s2 \<and> sv_events s2 = sv_events ex_running_exec @ [EvExit ''t1'' ''e1'' 43 9, EvExit ''t1'' ''e1'' 43 9])"
proof -
  let ?s = ex_running_exec
  have facts: "\<not> sv_panicked ?s" "sv_mu ?s = None" "sv_threads ?s 3 = None" "getContainer ''t1'' ?s = Inr 0" "0 < length (sv_heap ?s)"
    "''e1'' \<noteq> []" "ct_Process ''e1'' (sv_heap ?s ! 0) = Inr (PExec 0)" "0 < length (ct_execs (sv_heap ?s ! 0))"
    "ep_state (ct_execs (sv_heap ?s ! 0) ! 0) = ERunning" "ep_pid (ct_execs (sv_heap ?s ! 0) ! 0) = 43" "(43::int) \<noteq> 0"
    "\<not> ep_waitClosed (ct_execs (sv_heap ?s ! 0) ! 0)" "sv_running ?s 43 = [(0, PExec 0)]" "reaper_idle ?s"
    by code_simp+
  have ids: "ct_ID (sv_heap ?s ! 0) = ''t1''" "ep_id (ct_execs (sv_heap ?s ! 0) ! 0) = ''e1''"
    "sv_events ?s = [EvCreate ''t1'' 42, EvExecAdded ''t1'' ''e1'', EvExecStarted ''t1'' ''e1'' 43]" by code_simp+
  from refused_start_repeats_exit [OF facts refl, of ex_rtx 9] obtain s1 s2 where
    s1: "(sstep ex_rtx)\<^sup>*\<^sup>* ?s s1" "sv_threads s1 3 = Some (TDone (RErr (Msg ''cannot start a running process'')))"
    "sstep ex_rtx s1 (receive_exit \<lparr>ex_Pid = 43, ex_Status = 9\<rparr> s1)" "(sstep ex_rtx)\<^sup>*\<^sup>* (receive_exit \<lparr>ex_Pid = 43, ex_Status = 9\<rparr> s1) s2"
    "sv_events s2 = sv_events ?s @ [EvExit ''t1'' ''e1'' 43 9, EvExit ''t1'' ''e1'' 43 9]"
    unfolding ids Let_def by blast
  have "(sstep ex_rtx)\<^sup>*\<^sup>* s1 s2" using s1(3,4) by (rule converse_rtranclp_into_rtranclp)
  then show ?thesis using ids(3) s1(1,2,5) by blast
qed

theorem restored_start_panics_witness:
  "\<exists>ct w s s1 s2. NewContainer ex_rtc (ex_create ''/img'') [] = (Ok ct, w) \<and> sv_heap s = [ct] \<and>
     sstep ex_rtc s s1 \<and> sstep ex_rtc s1 s2 \<and> sv_panicked s2"
proof -
  have "case NewContainer ex_rtc (ex_create ''/img'') [] of
      (Ok ct, w) \<Rightarrow> fst (task_Start ex_rtc (ct_process ct) w) = Ok () \<and> ip_pid (fst (snd (task_Start ex_rtc (ct_process ct) w))) = 42
    | _ \<Rightarrow> False" by code_simp
  then obtain ct w where new: "NewContainer ex_rtc (ex_create ''/img'') [] = (Ok ct, w)"
    and "fst (task_Start ex_rtc (ct_process ct) w) = Ok ()" "ip_pid (fst (snd (task_Start ex_rtc (ct_process ct) w))) = 42"
    by (auto split: prod.splits outcome.splits)
  then obtain p w1 where start: "task_Start ex_rtc (ct_process ct) w = (Ok (), p, w1)" "ip_pid p = 42" by (metis prod.collapse)
  let ?s = "(new_service w)\<lparr>sv_heap := [ct], sv_threads := [1 \<mapsto> TStart 0 []]\<rparr>"
  have "\<exists>s1 s2. sstep ex_rtc ?s s1 \<and> sstep ex_rtc s1 s2 \<and> sv_panicked s2"
    by (rule restored_start_panics [OF new, of _ 1 0 p w1 "Errno ENOENT"])
      (use start in \<open>simp_all add: new_service_def ex_create_def ex_rtc_def\<close>)
  moreover have "sv_heap ?s = [ct]" by simp
  ultimately show ?thesis using new by blast
qed

end
