(* ===== verification/Bit_Sequence.thy ===== *)
theory Bit_Sequence
  imports Go_Prelude "HOL-Library.Word"
begin

text \<open>The run-length encoded bit masks of libnetwork, \<^verbatim>\<open>bitseq/sequence.go\<close>: the linked list of blocks and the operations
  that work on the encoded form. A list of nodes stands for the linked list, which no two handles share. The block
  position 0 is the most significant bit, as in the code.\<close>

unbundle bit_operations_syntax

section \<open>Sequences\<close>

datatype bit_err = ErrNoBitAvailable | ErrBitAllocated

datatype sequence = Seq (block: "32 word") (count: "64 word")

definition blockBytes :: "64 word" where "blockBytes = 4"
definition blockMAX :: "32 word" where "blockMAX = 0xFFFFFFFF"
definition blockFirstBit :: "32 word" where "blockFirstBit = 0x80000000"

definition ordinalToPos :: "64 word \<Rightarrow> 64 word \<times> 64 word" where
  "ordinalToPos ordinal = (ordinal div 8, ordinal mod 8)"

definition posToOrdinal :: "64 word \<Rightarrow> 64 word \<Rightarrow> 64 word" where
  "posToOrdinal bytePos bitPos = bytePos * 8 + bitPos"

definition getNumBlocks :: "64 word \<Rightarrow> 64 word" where
  "getNumBlocks numBits = (if numBits mod 32 \<noteq> 0 then numBits div 32 + 1 else numBits div 32)"

text \<open>The bit selector of a position inside a block\<close>

definition bitSel :: "64 word \<Rightarrow> 32 word" where
  "bitSel from = drop_bit (unat from) blockFirstBit"

lemma drop_bit_less: "sel \<noteq> 0 \<Longrightarrow> unat (drop_bit 1 sel) < unat (sel :: 32 word)"
  by (simp add: unat_drop_bit_eq drop_bit_Suc unat_gt_0 unat_div)

function avail_loop :: "32 word \<Rightarrow> 32 word \<Rightarrow> 64 word \<Rightarrow> 32 word \<times> 64 word" where
  "avail_loop b sel bits =
    (if sel \<noteq> 0 \<and> b AND sel \<noteq> 0 then avail_loop b (drop_bit 1 sel) (bits + 1) else (sel, bits))"
  by pat_completeness auto

termination by (relation "measure (\<lambda>(b, sel, bits). unat sel)") (use drop_bit_less in auto)

declare avail_loop.simps [simp del]

definition getAvailableBit :: "sequence \<Rightarrow> 64 word \<Rightarrow> (64 word \<times> 64 word) option" where
  "getAvailableBit s from =
    (if block s = blockMAX \<or> count s = 0 then None
     else case avail_loop (block s) (bitSel from) from of (sel, bits) \<Rightarrow>
       if sel = 0 then None else Some (bits div 8, bits mod 8))"

text \<open>The node that holds a byte, with the nodes before and after it, the number of its blocks before the byte and the
  position of the byte in its block. The head of a handle is never nil.\<close>

fun find_loop :: "sequence list \<Rightarrow> sequence \<Rightarrow> sequence list \<Rightarrow> 64 word \<Rightarrow> sequence list \<times> sequence \<times> sequence list \<times> 64 word" where
  "find_loop pre current [] n = (pre, current, [], n)"
| "find_loop pre current (s # ss) n =
    (if n \<ge> count current * blockBytes then find_loop (pre @ [current]) s ss (n - count current * blockBytes)
     else (pre, current, s # ss, n))"

fun findSequence :: "sequence list \<Rightarrow> 64 word \<Rightarrow> (sequence list \<times> sequence \<times> sequence list \<times> 64 word \<times> 64 word) option" where
  "findSequence [] bytePos = None"
| "findSequence (s # ss) bytePos =
    (case find_loop [] s ss bytePos of (pre, current, post, n) \<Rightarrow>
       if n \<ge> count current * blockBytes then None
       else Some (pre, current, post, n div blockBytes, bytePos mod blockBytes))"

lemma retry_decreases: "p \<noteq> c - 1 \<Longrightarrow> unat (c - 1 - (p + 1)) < unat (c - 1 - p :: 64 word)"
  using measure_unat [of "c - 1 - p"] by (simp add: algebra_simps)

text \<open>The next block of the same node is tried until its last one.\<close>

function retry_loop :: "sequence \<Rightarrow> 64 word \<Rightarrow> 64 word \<Rightarrow> 64 word \<Rightarrow> (64 word \<times> 64 word) + (64 word \<times> 64 word)" where
  "retry_loop s precBlocks byteOffset bitOffset =
    (case getAvailableBit s bitOffset of
       Some (bytePos, bitPos) \<Rightarrow> Inr (byteOffset + bytePos, bitPos)
     | None \<Rightarrow>
         if precBlocks = count s - 1 then Inl (precBlocks, byteOffset)
         else retry_loop s (precBlocks + 1) (byteOffset + blockBytes) 0)"
  by pat_completeness auto

termination by (relation "measure (\<lambda>(s, p, b, n). unat (count s - 1 - p))") (use retry_decreases in auto)

declare retry_loop.simps [simp del]

fun first_loop :: "sequence list \<Rightarrow> 64 word \<Rightarrow> 64 word \<Rightarrow> 64 word \<Rightarrow> (bit_err, 64 word \<times> 64 word) res" where
  "first_loop [] precBlocks byteOffset bitOffset = Inl ErrNoBitAvailable"
| "first_loop (s # ss) precBlocks byteOffset bitOffset =
    (if block s \<noteq> blockMAX then
       (case retry_loop s precBlocks byteOffset bitOffset of
          Inr p \<Rightarrow> Inr p
        | Inl (prec, off) \<Rightarrow> first_loop ss 0 (off + (count s * blockBytes - prec * blockBytes)) 0)
     else first_loop ss 0 (byteOffset + (count s * blockBytes - precBlocks * blockBytes)) 0)"

definition getFirstAvailable :: "sequence list \<Rightarrow> 64 word \<Rightarrow> (bit_err, 64 word \<times> 64 word) res" where
  "getFirstAvailable head start =
    (case ordinalToPos start of (byteStart, bitStart) \<Rightarrow>
       (case findSequence head byteStart of
          None \<Rightarrow> Inl ErrNoBitAvailable
        | Some (pre, current, post, precBlocks, inBlockBytePos) \<Rightarrow>
            first_loop (current # post) precBlocks (byteStart - inBlockBytePos) (inBlockBytePos * 8 + bitStart)))"

definition getAvailableFromCurrent :: "sequence list \<Rightarrow> 64 word \<Rightarrow> 64 word \<Rightarrow> 64 word \<Rightarrow> (bit_err, 64 word \<times> 64 word) res" where
  "getAvailableFromCurrent head start cur to =
    (let ok = (\<lambda>r. case r of Inl _ \<Rightarrow> False | Inr (bytePos, bitPos) \<Rightarrow> \<not> to < posToOrdinal bytePos bitPos);
         first = getFirstAvailable head start
     in if cur \<noteq> 0 \<and> cur > start \<and> ok (getFirstAvailable head cur) then getFirstAvailable head cur
        else if ok first then first else Inl ErrNoBitAvailable)"

definition checkIfAvailable :: "sequence list \<Rightarrow> 64 word \<Rightarrow> (bit_err, 64 word \<times> 64 word) res" where
  "checkIfAvailable head ordinal =
    (case ordinalToPos ordinal of (bytePos, bitPos) \<Rightarrow>
       (case findSequence head bytePos of
          None \<Rightarrow> Inl ErrBitAllocated
        | Some (pre, current, post, precBlocks, inBlockBytePos) \<Rightarrow>
            if block current AND bitSel (inBlockBytePos * 8 + bitPos) = 0 then Inr (bytePos, bitPos) else Inl ErrBitAllocated))"

section \<open>Reservations\<close>

fun mergeSequences :: "sequence list \<Rightarrow> sequence list" where
  "mergeSequences [] = []"
| "mergeSequences [s] = [s]"
| "mergeSequences (s # t # ss) =
    (if block s = block t then mergeSequences (Seq (block s) (count s + count t) # ss) else s # mergeSequences (t # ss))"

definition removeCurrentIfEmpty :: "sequence \<Rightarrow> sequence list \<Rightarrow> sequence list" where
  "removeCurrentIfEmpty current post = (if count current = 0 then post else current # post)"

definition new_block :: "32 word \<Rightarrow> 64 word \<Rightarrow> bool \<Rightarrow> 32 word" where
  "new_block b pos release = (if release then b AND NOT (bitSel pos) else b OR bitSel pos)"

text \<open>The three places a new block can take, as the comment of the code draws them: before, after, or inside the node that
  lost the block. In the first case merging starts at the previous node, or at the new one when it is the head.\<close>

definition insert_block :: "sequence list \<Rightarrow> sequence \<Rightarrow> sequence list \<Rightarrow> 64 word \<Rightarrow> 32 word \<Rightarrow> sequence list" where
  "insert_block pre current post precBlocks b =
    (let cur = Seq (block current) (count current - 1); new = Seq b 1 in
     if precBlocks = 0 then
       (if pre = [] then mergeSequences (new # removeCurrentIfEmpty cur post)
        else butlast pre @ mergeSequences (last pre # new # removeCurrentIfEmpty cur post))
     else if precBlocks = count cur then pre @ mergeSequences (cur # new # post)
     else pre @ Seq (block cur) precBlocks # new # Seq (block cur) (count cur - precBlocks) # post)"

definition pushReservation :: "64 word \<Rightarrow> 64 word \<Rightarrow> sequence list \<Rightarrow> bool \<Rightarrow> sequence list" where
  "pushReservation bytePos bitPos head release =
    (case findSequence head bytePos of
       None \<Rightarrow> head
     | Some (pre, current, post, precBlocks, inBlockBytePos) \<Rightarrow>
         (let b = new_block (block current) (inBlockBytePos * 8 + bitPos) release in
          if block current = b then head else insert_block pre current post precBlocks b))"

section \<open>The bit mask a sequence stands for\<close>

definition decode :: "sequence list \<Rightarrow> 32 word list" where
  "decode ss = concat (map (\<lambda>s. replicate (unat (count s)) (block s)) ss)"

definition bit_set :: "sequence list \<Rightarrow> nat \<Rightarrow> bool" where
  "bit_set ss n \<longleftrightarrow> bit (decode ss ! (n div 32)) (31 - n mod 32)"

text \<open>Well-formed sequences have no empty node and no two neighbours that could be merged; 64 bit positions bound the
  number of their blocks.\<close>

definition seq_inv :: "sequence list \<Rightarrow> bool" where
  "seq_inv ss \<longleftrightarrow> ss \<noteq> [] \<and> list_all (\<lambda>s. count s \<noteq> 0) ss \<and> distinct_adj (map block ss) \<and> length (decode ss) \<le> 2 ^ 59"

lemma decode_simps [simp]:
  "decode [] = []" "decode (s # ss) = replicate (unat (count s)) (block s) @ decode ss" "decode (ss @ ts) = decode ss @ decode ts"
  by (simp_all add: decode_def)

lemma unat_blockBytes: "unat c \<le> 2 ^ 59 \<Longrightarrow> unat (c * blockBytes) = unat c * 4"
  by (simp add: blockBytes_def unat_word_ariths)

lemma unat_ge_sub: "m \<le> n \<Longrightarrow> unat (n - m) = unat n - unat (m :: 64 word)"
  by (simp add: unat_sub)

lemma find_loop_spec:
  assumes "find_loop pre current ss n = (pre', cur, post, n')" and "length (decode (current # ss)) \<le> 2 ^ 59"
  shows "pre' @ cur # post = pre @ current # ss \<and> unat n + 4 * length (decode pre) = unat n' + 4 * length (decode pre') \<and>
    (unat n' < 4 * unat (count cur) \<or> post = [])"
  using assms
proof (induction pre current ss n rule: find_loop.induct)
  case (2 pre current s ss n)
  have c: "unat (count current * blockBytes) = unat (count current) * 4" using 2(3) by (intro unat_blockBytes) simp
  show ?case
  proof (cases "n \<ge> count current * blockBytes")
    case True
    then have "unat (n - count current * blockBytes) + 4 * unat (count current) = unat n"
      using c by (simp add: unat_ge_sub word_le_nat_alt)
    then show ?thesis using 2(1) [OF True] 2(2,3) True by auto
  next
    case False
    then show ?thesis using 2(2) c by (auto simp: word_le_nat_alt not_le)
  qed
qed auto

lemma findSequence_Some:
  assumes "findSequence ss bytePos = Some (pre, cur, post, prec, inB)" and "length (decode ss) \<le> 2 ^ 59"
  shows "ss = pre @ cur # post" "unat bytePos div 4 = length (decode pre) + unat prec" "unat prec < unat (count cur)"
    "unat inB = unat bytePos mod 4"
proof -
  obtain s ss' where ss: "ss = s # ss'" using assms(1) by (cases ss) auto
  obtain n where l: "find_loop [] s ss' bytePos = (pre, cur, post, n)" and n: "\<not> n \<ge> count cur * blockBytes"
    "prec = n div blockBytes" "inB = bytePos mod blockBytes"
    using assms(1) ss by (auto split: prod.splits if_splits)
  note f = find_loop_spec [OF l assms(2) [unfolded ss]]
  show s: "ss = pre @ cur # post" using f ss by simp
  have "unat (count cur) \<le> 2 ^ 59" using assms(2) s by simp
  then have "unat n < unat (count cur) * 4" using n(1) unat_blockBytes by (simp add: word_le_nat_alt not_le)
  moreover have "unat prec = unat n div 4" "unat inB = unat bytePos mod 4" using n(2,3) by (simp_all add: blockBytes_def unat_div unat_mod)
  ultimately show "unat bytePos div 4 = length (decode pre) + unat prec" "unat prec < unat (count cur)"
    "unat inB = unat bytePos mod 4" using f by auto
qed

lemma findSequence_None:
  assumes "findSequence ss bytePos = None" and "length (decode ss) \<le> 2 ^ 59"
  shows "4 * length (decode ss) \<le> unat bytePos"
proof (cases ss)
  case (Cons s ss')
  obtain pre cur post n where l: "find_loop [] s ss' bytePos = (pre, cur, post, n)" by (cases "find_loop [] s ss' bytePos")
  then have n: "n \<ge> count cur * blockBytes" using assms(1) Cons by (simp split: if_splits)
  note f = find_loop_spec [OF l assms(2) [unfolded Cons]]
  then have ss: "ss = pre @ cur # post" using Cons by simp
  then have "unat (count cur) \<le> 2 ^ 59" using assms(2) by simp
  then have "unat (count cur) * 4 \<le> unat n" using n unat_blockBytes by (simp add: word_le_nat_alt)
  then have "unat bytePos = unat n + 4 * length (decode pre)" "post = []" using f by auto
  then show ?thesis using ss \<open>unat (count cur) * 4 \<le> unat n\<close> by simp
qed simp

text \<open>Reading and writing one block of the mask\<close>

lemma decode_nth: "k < unat (count s) \<Longrightarrow> decode (pre @ s # post) ! (length (decode pre) + k) = block s"
  by (simp add: nth_append)

lemma replicate_update: "k < n \<Longrightarrow> (replicate n x)[k := y] = replicate k x @ y # replicate (n - 1 - k) x"
  by (rule nth_equalityI) (auto simp: nth_append nth_list_update nth_Cons split: nat.splits)

lemma decode_update:
  "k < unat (count s) \<Longrightarrow> (decode (pre @ s # post))[length (decode pre) + k := b] =
    decode pre @ replicate k (block s) @ b # replicate (unat (count s) - 1 - k) (block s) @ decode post"
  by (simp add: list_update_append replicate_update)

lemma mergeSequences_decode: "length (decode ss) < 2 ^ 64 \<Longrightarrow> decode (mergeSequences ss) = decode ss"
proof (induction ss rule: mergeSequences.induct)
  case (3 s t ss)
  have "unat (count s + count t) = unat (count s) + unat (count t)" using 3(3) by (intro unat_add_lem [THEN iffD1]) simp
  then show ?case using 3 by (auto simp: replicate_add)
qed auto

lemma mergeSequences_adj: "distinct_adj (map block (mergeSequences ss))"
  "ss \<noteq> [] \<Longrightarrow> mergeSequences ss \<noteq> [] \<and> block (hd (mergeSequences ss)) = block (hd ss)"
  by (induction ss rule: mergeSequences.induct) (auto simp: distinct_adj_Cons hd_map)

lemma mergeSequences_nonzero:
  "length (decode ss) < 2 ^ 64 \<Longrightarrow> list_all (\<lambda>s. count s \<noteq> 0) ss \<Longrightarrow> list_all (\<lambda>s. count s \<noteq> 0) (mergeSequences ss)"
proof (induction ss rule: mergeSequences.induct)
  case (3 s t ss)
  have "unat (count s + count t) = unat (count s) + unat (count t)" using 3(3) by (intro unat_add_lem [THEN iffD1]) simp
  moreover have "unat (count s) \<noteq> 0" using 3(4) by (simp add: unat_eq_0)
  ultimately have "count s + count t \<noteq> 0" "unat (count s + count t) = unat (count s) + unat (count t)" by (metis add_is_0 unat_0)+
  then show ?case using 3 by auto
qed auto

text \<open>Changing a block in each of the three places\<close>

lemma removeCurrentIfEmpty_decode [simp]: "decode (removeCurrentIfEmpty s post) = decode (s # post)"
  by (simp add: removeCurrentIfEmpty_def)

lemma insert_block_decode:
  assumes "unat prec < unat (count s)" and "length (decode (pre @ s # post)) \<le> 2 ^ 59"
  shows "decode (insert_block pre s post prec b) = (decode (pre @ s # post))[length (decode pre) + unat prec := b]"
proof -
  have s: "unat (count s - 1) = unat (count s) - 1" using assms(1) by (intro unat_minus_one) auto
  note merge = mergeSequences_decode
  show ?thesis
  proof (cases "prec = 0")
    case True
    then show ?thesis
    proof (cases "pre = []")
      case False
      then have p: "decode pre = decode (butlast pre) @ decode [last pre]" by (metis append_butlast_last_id decode_simps(3))
      then show ?thesis
        using True False assms s unfolding decode_update [OF assms(1)]
        by (simp add: insert_block_def Let_def merge del: mergeSequences.simps)
    qed (use True assms s in \<open>simp add: insert_block_def decode_update [of _ _ "[]", simplified] merge del: mergeSequences.simps\<close>)
  next
    case False
    have "unat (count s - 1 - prec) = unat (count s) - 1 - unat prec" if "prec \<noteq> count s - 1"
      using assms(1) s by (subst unat_sub) (simp_all add: word_le_nat_alt)
    then show ?thesis
      using False assms s unfolding decode_update [OF assms(1)]
      by (auto simp: insert_block_def merge Let_def simp del: mergeSequences.simps)
  qed
qed

lemma adj_append_merge:
  "ss \<noteq> [] \<Longrightarrow> distinct_adj (map block (pre @ [hd ss])) \<Longrightarrow> distinct_adj (map block pre @ map block (mergeSequences ss))"
  using mergeSequences_adj(1) [of ss] mergeSequences_adj(2) [of ss] by (auto simp: distinct_adj_append_iff hd_map)

lemma insert_block_inv:
  assumes "seq_inv (pre @ s # post)" and "unat prec < unat (count s)" and "b \<noteq> block s"
  shows "seq_inv (insert_block pre s post prec b)"
proof -
  let ?r = "insert_block pre s post prec b"
  have i: "list_all (\<lambda>s. count s \<noteq> 0) (pre @ s # post)" "distinct_adj (map block (pre @ s # post))"
    and len: "length (decode (pre @ s # post)) \<le> 2 ^ 59" using assms(1) by (auto simp: seq_inv_def)
  have d: "length (decode ?r) = length (decode (pre @ s # post))" using insert_block_decode [OF assms(2) len] by simp
  then have ne: "?r \<noteq> []" using assms(2) by auto
  have sub: "unat (count s - 1) = unat (count s) - 1" using assms(2) by (intro unat_minus_one) auto
  have nz: "list_all (\<lambda>s. count s \<noteq> 0) (butlast pre)" "pre \<noteq> [] \<Longrightarrow> count (last pre) \<noteq> 0"
    using i(1) by (auto simp: list_all_iff dest: in_set_butlastD)
  have pl: "pre \<noteq> [] \<Longrightarrow> decode pre = decode (butlast pre) @ decode [last pre]" by (metis append_butlast_last_id decode_simps(3))
  have adj: "distinct_adj (map block (pre @ [s]))" "distinct_adj (map block pre)"
    using i(2) by (auto simp: distinct_adj_append_iff split: list.splits)
  have bl: "pre \<noteq> [] \<Longrightarrow> distinct_adj (map block (butlast pre @ [last pre]))" using adj(2) by simp
  have "list_all (\<lambda>s. count s \<noteq> 0) ?r \<and> distinct_adj (map block ?r)"
  proof (cases "prec = 0")
    case True
    then show ?thesis
      using i(1) nz len sub pl bl
      by (auto simp: insert_block_def Let_def removeCurrentIfEmpty_def mergeSequences_adj(1)
          simp del: mergeSequences.simps intro!: mergeSequences_nonzero adj_append_merge)
  next
    case False
    then show ?thesis
    proof (cases "prec = count s - 1")
      case True
      then show ?thesis
        using False i(1) len sub adj(1)
        by (auto simp: insert_block_def Let_def simp del: mergeSequences.simps intro!: mergeSequences_nonzero adj_append_merge)
    next
      case False
      then have "count s - 1 - prec \<noteq> 0" by simp
      then show ?thesis
        using \<open>prec \<noteq> 0\<close> False i assms(3) by (auto simp: insert_block_def Let_def distinct_adj_append_iff distinct_adj_Cons)
    qed
  qed
  then show ?thesis using ne d len by (simp add: seq_inv_def)
qed

section \<open>Single bits\<close>

lemma bit_blockFirstBit: "bit blockFirstBit i \<longleftrightarrow> i = 31"
proof -
  have m: "blockFirstBit = push_bit 31 1" by (simp add: blockFirstBit_def)
  show ?thesis unfolding m by (auto simp: bit_push_bit_iff bit_1_iff simp del: push_bit_of_1)
qed

lemma drop_blockFirstBit: "bit (drop_bit k blockFirstBit) i \<longleftrightarrow> i + k = 31"
  by (auto simp: bit_drop_bit_eq bit_blockFirstBit)

lemma drop_blockFirstBit_0: "drop_bit k blockFirstBit = 0 \<longleftrightarrow> 31 < k"
proof
  assume "drop_bit k blockFirstBit = 0"
  then have "\<not> bit (drop_bit k blockFirstBit) (31 - k)" by simp
  then show "31 < k" by (simp add: drop_blockFirstBit)
qed (auto intro!: bit_eqI simp: drop_blockFirstBit)

lemma and_drop_blockFirstBit: "k \<le> 31 \<Longrightarrow> b AND drop_bit k blockFirstBit = 0 \<longleftrightarrow> \<not> bit b (31 - k)"
proof -
  assume k: "k \<le> 31"
  have "bit (b AND drop_bit k blockFirstBit) (31 - k) = bit b (31 - k)" using k by (simp add: bit_and_iff drop_blockFirstBit)
  moreover have "b AND drop_bit k blockFirstBit = 0" if "\<not> bit b (31 - k)"
    using that k by (auto intro!: bit_eqI simp: bit_and_iff drop_blockFirstBit) (metis add_diff_cancel_right')
  ultimately show ?thesis by fastforce
qed

lemma bit_blockMAX: "i < 32 \<Longrightarrow> bit blockMAX i"
proof -
  have m: "blockMAX = - 1" by (simp add: blockMAX_def)
  show "i < 32 \<Longrightarrow> bit blockMAX i" unfolding m by simp
qed

lemma bit_new_block:
  "unat pos \<le> 31 \<Longrightarrow> i < 32 \<Longrightarrow> bit (new_block b pos release) (31 - i) \<longleftrightarrow> (if i = unat pos then \<not> release else bit b (31 - i))"
  by (auto simp: new_block_def bitSel_def bit_and_iff bit_or_iff bit_not_iff drop_blockFirstBit)

text \<open>The position of an ordinal in its block\<close>

lemma in_block_position:
  assumes "ordinalToPos ordinal = (bytePos, bitPos)" and "unat inB = unat bytePos mod 4"
  shows "unat (inB * 8 + bitPos) = unat ordinal mod 32" "unat bytePos div 4 = unat ordinal div 32"
proof -
  have p: "unat bytePos = unat ordinal div 8" "unat bitPos = unat ordinal mod 8"
    using assms(1) by (auto simp: ordinalToPos_def unat_div unat_mod)
  have "unat ordinal mod 32 = 8 * (unat ordinal div 8 mod 4) + unat ordinal mod 8"
    using mod_mult2_eq [of "unat ordinal" 8 4] by simp
  moreover have "unat inB < 4" "unat bitPos < 8" using assms(2) p by simp_all
  then have "unat (inB * 8 + bitPos) = unat inB * 8 + unat bitPos" by (simp add: unat_word_ariths)
  ultimately show "unat (inB * 8 + bitPos) = unat ordinal mod 32" using assms(2) p by simp
  show "unat bytePos div 4 = unat ordinal div 32" using p by (simp add: div_mult2_eq [of _ 8 4, simplified])
qed

lemma find_ordinal:
  assumes "length (decode ss) \<le> 2 ^ 59" and "ordinalToPos ordinal = (bytePos, bitPos)" and "unat ordinal < 32 * length (decode ss)"
  obtains pre cur post prec inB where "findSequence ss bytePos = Some (pre, cur, post, prec, inB)" "ss = pre @ cur # post"
    "unat ordinal div 32 = length (decode pre) + unat prec" "unat prec < unat (count cur)"
    "unat (inB * 8 + bitPos) = unat ordinal mod 32" "decode ss ! (unat ordinal div 32) = block cur"
    "unat bytePos = 4 * (unat ordinal div 32) + unat inB"
proof -
  have dv: "unat bytePos div 4 = unat ordinal div 32" using in_block_position(2) [OF assms(2), of "bytePos mod 4"] by (simp add: unat_mod)
  have "unat ordinal div 32 < length (decode ss)" using assms(3) by simp
  then have "\<not> 4 * length (decode ss) \<le> unat bytePos" using dv by linarith
  then obtain x where "findSequence ss bytePos = Some x" using findSequence_None [OF _ assms(1)] by (cases "findSequence ss bytePos") auto
  then obtain pre cur post prec inB where f: "findSequence ss bytePos = Some (pre, cur, post, prec, inB)" by (cases x) auto
  note s = findSequence_Some [OF f assms(1)]
  have "decode ss ! (unat ordinal div 32) = block cur" using decode_nth [OF s(3)] s(1,2) dv by simp
  moreover have "unat bytePos = 4 * (unat ordinal div 32) + unat inB" using s(4) dv by (metis mult_div_mod_eq)
  ultimately show thesis using that [OF f s(1) _ s(3)] s(2) dv in_block_position(1) [OF assms(2) s(4)] by simp
qed

lemma pushReservation_block:
  assumes "seq_inv ss" and "ordinalToPos ordinal = (bytePos, bitPos)" and "unat ordinal < 32 * length (decode ss)"
  shows "\<exists>pos. unat pos = unat ordinal mod 32 \<and> decode (pushReservation bytePos bitPos ss release) =
    (decode ss)[unat ordinal div 32 := new_block (decode ss ! (unat ordinal div 32)) pos release]"
    "seq_inv (pushReservation bytePos bitPos ss release)"
proof -
  have len: "length (decode ss) \<le> 2 ^ 59" using assms(1) by (simp add: seq_inv_def)
  let ?k = "unat ordinal div 32"
  obtain pre cur post prec inB where f: "findSequence ss bytePos = Some (pre, cur, post, prec, inB)" and s: "ss = pre @ cur # post"
    and k: "?k = length (decode pre) + unat prec" "unat prec < unat (count cur)"
    and pos: "unat (inB * 8 + bitPos) = unat ordinal mod 32" and blk: "decode ss ! ?k = block cur"
    using find_ordinal [OF len assms(2,3)] by metis
  let ?b = "new_block (block cur) (inB * 8 + bitPos) release"
  have "decode (pushReservation bytePos bitPos ss release) = (decode ss)[?k := ?b]"
  proof (cases "block cur = ?b")
    case True
    then have "(decode ss)[?k := ?b] = decode ss" using blk by (metis list_update_id)
    then show ?thesis using True f by (simp add: pushReservation_def Let_def)
  next
    case False
    then show ?thesis
      using f insert_block_decode [OF k(2), of pre post ?b] len k(1) s by (simp add: pushReservation_def Let_def)
  qed
  then show "\<exists>pos. unat pos = unat ordinal mod 32 \<and> decode (pushReservation bytePos bitPos ss release) =
    (decode ss)[?k := new_block (decode ss ! ?k) pos release]" using pos blk by auto
  show "seq_inv (pushReservation bytePos bitPos ss release)"
    using insert_block_inv [of pre cur post prec ?b] assms(1) s k(2) f by (auto simp: pushReservation_def Let_def)
qed

lemma pushReservation_spec:
  assumes "seq_inv ss" and "ordinalToPos ordinal = (bytePos, bitPos)" and "unat ordinal < 32 * length (decode ss)"
  shows "seq_inv (pushReservation bytePos bitPos ss release)"
    "length (decode (pushReservation bytePos bitPos ss release)) = length (decode ss)"
    "n < 32 * length (decode ss) \<Longrightarrow>
      bit_set (pushReservation bytePos bitPos ss release) n \<longleftrightarrow> (if n = unat ordinal then \<not> release else bit_set ss n)"
proof -
  let ?k = "unat ordinal div 32" and ?r = "pushReservation bytePos bitPos ss release"
  have k: "?k < length (decode ss)" using assms(3) by simp
  obtain pos where pos: "unat pos = unat ordinal mod 32" "decode ?r = (decode ss)[?k := new_block (decode ss ! ?k) pos release]"
    using pushReservation_block(1) [OF assms] by blast
  show "seq_inv ?r" by (rule pushReservation_block(2) [OF assms])
  show "length (decode ?r) = length (decode ss)" using pos(2) by simp
  show "bit_set ?r n \<longleftrightarrow> (if n = unat ordinal then \<not> release else bit_set ss n)" if n: "n < 32 * length (decode ss)"
  proof (cases "n div 32 = ?k")
    case True
    moreover have "n = unat ordinal \<longleftrightarrow> n mod 32 = unat pos" using True pos(1) by (metis div_mod_decomp)
    moreover have "unat pos \<le> 31" using pos(1) by simp
    ultimately show ?thesis using bit_new_block [of pos "n mod 32"] pos(2) k by (simp add: bit_set_def)
  qed (use pos(2) in \<open>auto simp: bit_set_def\<close>)
qed

lemma checkIfAvailable_spec:
  assumes "seq_inv ss" and "unat ordinal < 32 * length (decode ss)"
  shows "checkIfAvailable ss ordinal = (if bit_set ss (unat ordinal) then Inl ErrBitAllocated else Inr (ordinalToPos ordinal))"
proof -
  have len: "length (decode ss) \<le> 2 ^ 59" using assms(1) by (simp add: seq_inv_def)
  obtain bytePos bitPos where p: "ordinalToPos ordinal = (bytePos, bitPos)" by (cases "ordinalToPos ordinal")
  obtain pre cur post prec inB where f: "findSequence ss bytePos = Some (pre, cur, post, prec, inB)"
    and pos: "unat (inB * 8 + bitPos) = unat ordinal mod 32" and blk: "decode ss ! (unat ordinal div 32) = block cur"
    using find_ordinal [OF len p assms(2)] by metis
  have "block cur AND bitSel (inB * 8 + bitPos) = 0 \<longleftrightarrow> \<not> bit_set ss (unat ordinal)"
    using pos blk by (simp add: bitSel_def and_drop_blockFirstBit bit_set_def)
  then show ?thesis using f p by (simp add: checkIfAvailable_def)
qed

section \<open>The first free bit\<close>

lemma avail_loop_spec:
  assumes "k \<le> 32" and "avail_loop b (drop_bit k blockFirstBit) (of_nat k) = (sel, bits)"
  shows "\<exists>j. k \<le> j \<and> j \<le> 32 \<and> bits = of_nat j \<and> sel = drop_bit j blockFirstBit \<and> (\<forall>i. k \<le> i \<and> i < j \<longrightarrow> bit b (31 - i)) \<and>
    (j < 32 \<longrightarrow> \<not> bit b (31 - j))"
  using assms
proof (induction "32 - k" arbitrary: k)
  case 0
  then have "k = 32" "drop_bit k blockFirstBit = 0" by (simp_all add: drop_blockFirstBit_0)
  then show ?case using 0(3) by (intro exI [of _ 32]) (auto simp: avail_loop.simps)
next
  case (Suc n)
  then have k: "k \<le> 31" by simp
  show ?case
  proof (cases "bit b (31 - k)")
    case True
    then have "avail_loop b (drop_bit (Suc k) blockFirstBit) (of_nat (Suc k)) = (sel, bits)"
      using Suc(4) k and_drop_blockFirstBit [OF k, of b]
      by (subst (asm) avail_loop.simps) (simp add: drop_blockFirstBit_0 drop_bit_drop_bit add.commute del: drop_bit_Suc split: if_splits)
    moreover have "n = 32 - Suc k" "Suc k \<le> 32" using Suc(2) k by simp_all
    ultimately obtain j where "Suc k \<le> j" "j \<le> 32" "bits = of_nat j" "sel = drop_bit j blockFirstBit"
      "\<forall>i. Suc k \<le> i \<and> i < j \<longrightarrow> bit b (31 - i)" "j < 32 \<longrightarrow> \<not> bit b (31 - j)"
      using Suc(1) by blast
    then show ?thesis using True by (intro exI [of _ j]) (metis Suc_leD le_antisym not_less_eq_eq)
  next
    case False
    then show ?thesis using Suc(4) k and_drop_blockFirstBit [OF k, of b] by (intro exI [of _ k]) (auto simp: avail_loop.simps)
  qed
qed

lemma getAvailableBit_None:
  assumes "getAvailableBit s from = None" and "count s \<noteq> 0" and "unat from < 32" and "unat from \<le> i" and "i < 32"
  shows "bit (block s) (31 - i)"
proof (cases "block s = blockMAX")
  case False
  then obtain sel bits where l: "avail_loop (block s) (drop_bit (unat from) blockFirstBit) (of_nat (unat from)) = (sel, bits)" "sel = 0"
    using assms(1,2) by (auto simp: getAvailableBit_def bitSel_def split: prod.splits if_splits)
  then obtain j where "sel = drop_bit j blockFirstBit" "j \<le> 32" "\<forall>i. unat from \<le> i \<and> i < j \<longrightarrow> bit (block s) (31 - i)"
    using avail_loop_spec [of "unat from"] assms(3) by fastforce
  then show ?thesis using l(2) assms(4,5) by (auto simp: drop_blockFirstBit_0)
qed (simp add: bit_blockMAX)

lemma getAvailableBit_Some:
  assumes "getAvailableBit s from = Some (bytePos, bitPos)" and "unat from < 32"
  shows "\<exists>j. unat from \<le> j \<and> j < 32 \<and> unat bytePos = j div 8 \<and> unat bitPos = j mod 8 \<and> \<not> bit (block s) (31 - j) \<and>
    (\<forall>i. unat from \<le> i \<and> i < j \<longrightarrow> bit (block s) (31 - i))"
proof -
  obtain sel bits where l: "avail_loop (block s) (drop_bit (unat from) blockFirstBit) (of_nat (unat from)) = (sel, bits)" "sel \<noteq> 0"
    and p: "bytePos = bits div 8" "bitPos = bits mod 8"
    using assms(1) by (auto simp: getAvailableBit_def bitSel_def split: prod.splits if_splits)
  obtain j where j: "unat from \<le> j" "j \<le> 32" "bits = of_nat j" "sel = drop_bit j blockFirstBit"
    "\<forall>i. unat from \<le> i \<and> i < j \<longrightarrow> bit (block s) (31 - i)" "j < 32 \<longrightarrow> \<not> bit (block s) (31 - j)"
    using avail_loop_spec [OF less_imp_le [OF assms(2)] l(1)] by blast
  have lt: "j < 32" using j(4) l(2) by (simp add: drop_blockFirstBit_0)
  then have "unat bits = j" using j(3) by (simp add: unat_of_nat)
  then have "unat bytePos = j div 8" "unat bitPos = j mod 8" using p by (simp_all add: unat_div unat_mod)
  then show ?thesis using j lt by blast
qed

definition first_free :: "(nat \<Rightarrow> bool) \<Rightarrow> nat \<Rightarrow> nat \<Rightarrow> nat \<Rightarrow> bool" where
  "first_free used start lim n \<longleftrightarrow> start \<le> n \<and> n < lim \<and> \<not> used n \<and> (\<forall>i. start \<le> i \<and> i < n \<longrightarrow> used i)"

definition none_free :: "(nat \<Rightarrow> bool) \<Rightarrow> nat \<Rightarrow> nat \<Rightarrow> bool" where
  "none_free used start lim \<longleftrightarrow> (\<forall>i. start \<le> i \<and> i < lim \<longrightarrow> used i)"

lemma first_free_later: "none_free used start mid \<Longrightarrow> first_free used mid lim n \<Longrightarrow> start \<le> mid \<Longrightarrow> first_free used start lim n"
  by (auto simp: first_free_def none_free_def) (metis not_le)

lemma none_free_later: "none_free used start mid \<Longrightarrow> none_free used mid lim \<Longrightarrow> none_free used start lim"
  by (auto simp: none_free_def) (metis not_le)

lemma first_free_extend: "first_free used start lim n \<Longrightarrow> lim \<le> lim' \<Longrightarrow> first_free used start lim' n"
  by (auto simp: first_free_def)

lemma first_free_cong: "first_free used start lim n \<Longrightarrow> (\<And>i. start \<le> i \<Longrightarrow> i < lim \<Longrightarrow> used i = used' i) \<Longrightarrow> first_free used' start lim n"
  by (auto simp: first_free_def)

lemma none_free_cong: "none_free used start lim \<Longrightarrow> (\<And>i. start \<le> i \<Longrightarrow> i < lim \<Longrightarrow> used i = used' i) \<Longrightarrow> none_free used' start lim"
  by (auto simp: none_free_def)

text \<open>The positions of one node, which starts after \<open>base\<close> blocks\<close>

lemma within_block:
  assumes "\<And>j. m \<le> j \<Longrightarrow> j < m' \<Longrightarrow> bit b (31 - j)" and "m' \<le> (32 :: nat)"
  shows "none_free (\<lambda>i. bit b (31 - i mod 32)) (32 * q + m) (32 * q + m')"
  unfolding none_free_def
proof safe
  fix i assume i: "32 * q + m \<le> i" "i < 32 * q + m'"
  define j where "j = i - 32 * q"
  have "i = 32 * q + j" "m \<le> j" "j < m'" using i by (simp_all add: j_def)
  then show "bit b (31 - i mod 32)" using assms by simp
qed

lemma retry_loop_spec:
  assumes "count s \<noteq> 0" and "unat prec < unat (count s)" and "unat bitOff < 32" and "unat byteOff = 4 * (base + unat prec)"
    and "base + unat (count s) \<le> 2 ^ 59"
  shows "(case retry_loop s prec byteOff bitOff of
      Inr (by, bi) \<Rightarrow> unat bi < 8 \<and> first_free (\<lambda>i. bit (block s) (31 - i mod 32)) (32 * (base + unat prec) + unat bitOff)
        (32 * (base + unat (count s))) (8 * unat by + unat bi)
    | Inl (p, off) \<Rightarrow> p = count s - 1 \<and> unat off = 4 * (base + unat (count s) - 1) \<and>
        none_free (\<lambda>i. bit (block s) (31 - i mod 32)) (32 * (base + unat prec) + unat bitOff) (32 * (base + unat (count s))))"
  using assms
proof (induction s prec byteOff bitOff rule: retry_loop.induct)
  case (1 s prec byteOff bitOff)
  let ?u = "\<lambda>i. bit (block s) (31 - i mod 32)" and ?q = "base + unat prec"
  have c: "unat (count s - 1) = unat (count s) - 1" using 1(2) by (intro unat_minus_one)
  show ?case
  proof (cases "getAvailableBit s bitOff")
    case (Some a)
    then obtain by' bi where p: "a = (by', bi)" by (cases a)
    obtain j where j: "unat bitOff \<le> j" "j < 32" "unat by' = j div 8" "unat bi = j mod 8" "\<not> bit (block s) (31 - j)"
      "\<forall>i. unat bitOff \<le> i \<and> i < j \<longrightarrow> bit (block s) (31 - i)"
      using getAvailableBit_Some [of s bitOff by' bi] Some p 1(4) by auto
    have "unat byteOff + unat by' < 2 ^ 64" using 1(3,5,6) j(2,3) by simp
    then have by': "unat (byteOff + by') = 4 * ?q + j div 8" using 1(5) j(3) by (simp add: unat_add_lem [THEN iffD1])
    have n: "8 * unat (byteOff + by') + unat bi = 32 * ?q + j"
      unfolding by' j(4) by simp
    have "none_free ?u (32 * ?q + unat bitOff) (32 * ?q + j)" using within_block [of "unat bitOff" j "block s" ?q] j(2,6) by simp
    then have "first_free ?u (32 * ?q + unat bitOff) (32 * (base + unat (count s))) (32 * ?q + j)"
      using j(1,2,5) 1(3) mod_mult_self4 [of 32 ?q j] by (auto simp: first_free_def none_free_def)
    then show ?thesis using Some p n j(4) by (simp add: retry_loop.simps)
  next
    case None
    have nf: "none_free ?u (32 * ?q + unat bitOff) (32 * ?q + 32)"
      using within_block [of "unat bitOff" 32 "block s" ?q] getAvailableBit_None [OF None 1(2,4)] by simp
    show ?thesis
    proof (cases "prec = count s - 1")
      case True
      then have e: "32 * ?q + 32 = 32 * (base + unat (count s))" "?q = base + unat (count s) - 1" using c 1(3) by auto
      then have "unat byteOff = 4 * (base + unat (count s) - 1)" using 1(5) by simp
      then show ?thesis using None True nf unfolding e(1) by (simp add: retry_loop.simps)
    next
      case False
      have lt: "unat prec < unat (count s) - 1" using False c 1(3) by (metis Suc_diff_1 gr_implies_not0 less_antisym not_less_zero word_unat_eq_iff neq0_conv)
      then have p: "unat (prec + 1) = unat prec + 1" using 1(6) by (simp add: unat_word_ariths)
      have b: "unat (byteOff + blockBytes) = 4 * (base + unat (prec + 1))"
        using 1(5,6) lt p by (subst unat_add_lem [THEN iffD1]) (auto simp: blockBytes_def)
      let ?r = "retry_loop s (prec + 1) (byteOff + blockBytes) 0"
      have st: "32 * (base + unat (prec + 1)) + unat (0 :: 64 word) = 32 * ?q + 32" using p by simp
      have "unat (prec + 1) < unat (count s)" "unat (0 :: 64 word) < 32" using lt p by simp_all
      note ih = 1(1) [OF None False 1(2) this b 1(6), unfolded st]
      have r: "retry_loop s prec byteOff bitOff = ?r" using None False by (simp add: retry_loop.simps [of s prec])
      have le: "32 * ?q + unat bitOff \<le> 32 * ?q + 32" using 1(4) by simp
      show ?thesis unfolding r
        using ih first_free_later [OF nf _ le] none_free_later [OF nf] by (auto split: sum.splits prod.splits)
    qed
  qed
qed

text \<open>What a search from a position reports: the first free bit, or that there is none\<close>

definition search_result :: "(nat \<Rightarrow> bool) \<Rightarrow> nat \<Rightarrow> nat \<Rightarrow> (bit_err, 64 word \<times> 64 word) res \<Rightarrow> bool" where
  "search_result used start lim r \<longleftrightarrow>
    (case r of
       Inr (by, bi) \<Rightarrow> unat bi < 8 \<and> first_free used start lim (8 * unat by + unat bi)
     | Inl e \<Rightarrow> e = ErrNoBitAvailable \<and> none_free used start lim)"

lemma search_result_later: "none_free used start mid \<Longrightarrow> start \<le> mid \<Longrightarrow> search_result used mid lim r \<Longrightarrow> search_result used start lim r"
  by (auto simp: search_result_def split: sum.splits prod.splits intro: first_free_later none_free_later)

lemma bit_set_node:
  assumes "32 * length (decode pre) \<le> i" and "i < 32 * (length (decode pre) + unat (count s))"
  shows "bit_set (pre @ s # post) i \<longleftrightarrow> bit (block s) (31 - i mod 32)"
proof -
  have "i div 32 < length (decode pre) + unat (count s)" using assms(2) by (intro less_mult_imp_div_less) simp
  moreover have "length (decode pre) \<le> i div 32" using assms(1) by linarith
  ultimately show ?thesis using decode_nth [of "i div 32 - length (decode pre)" s pre post] by (simp add: bit_set_def)
qed

text \<open>The byte offset of the next node\<close>

lemma next_offset:
  assumes "unat p < unat (count s)" and "base + unat (count s) \<le> 2 ^ 59" and "unat off = 4 * (base + unat p)"
  shows "unat (off + (count s * blockBytes - p * blockBytes)) = 4 * (base + unat (count s))"
proof -
  have "unat (count s * blockBytes - p * blockBytes) = 4 * unat (count s) - 4 * unat p"
    using assms(1,2) unat_blockBytes [of "count s"] unat_blockBytes [of p] by (subst unat_sub) (auto simp: word_le_nat_alt)
  then show ?thesis using assms by (subst unat_add_lem [THEN iffD1]) auto
qed

lemma first_loop_spec:
  assumes "list_all (\<lambda>s. count s \<noteq> 0) ss" and "length (decode (pre @ ss)) \<le> 2 ^ 59"
    and "ss \<noteq> [] \<Longrightarrow> unat prec < unat (count (hd ss))" and "ss = [] \<Longrightarrow> prec = 0" and "unat bitOff < 32"
    and "unat byteOff = 4 * (length (decode pre) + unat prec)"
  shows "search_result (bit_set (pre @ ss)) (32 * (length (decode pre) + unat prec) + unat bitOff) (32 * length (decode (pre @ ss)))
    (first_loop ss prec byteOff bitOff)"
  using assms
proof (induction ss prec byteOff bitOff arbitrary: pre rule: first_loop.induct)
  case (2 s ss prec byteOff bitOff)
  let ?base = "length (decode pre)" and ?all = "pre @ s # ss" and ?u = "\<lambda>i. bit (block s) (31 - i mod 32)"
  let ?st = "32 * (?base + unat prec) + unat bitOff" and ?mid = "32 * (?base + unat (count s))"
  have c: "count s \<noteq> 0" "unat prec < unat (count s)" "?base + unat (count s) \<le> 2 ^ 59" using 2(3-5) by simp_all
  have used: "bit_set ?all i = ?u i" if "?st \<le> i" "i < ?mid" for i
    using bit_set_node [of pre i s ss] that by simp
  have le: "?st \<le> ?mid" using c(2) 2(7) by simp
  have hd: "ss \<noteq> [] \<Longrightarrow> unat (0 :: 64 word) < unat (count (hd ss))" using 2(3) by (cases ss) (auto simp: unat_gt_0)
  have later: "search_result (bit_set ?all) ?st (32 * length (decode ?all)) (first_loop ss 0 off 0)"
    if "none_free ?u ?st ?mid" "search_result (bit_set ?all) ?mid (32 * length (decode ?all)) (first_loop ss 0 off 0)" for off
    using that none_free_cong [of ?u ?st ?mid "bit_set ?all"] used search_result_later [OF _ le] by blast
  show ?case
  proof (cases "block s = blockMAX")
    case True
    have "none_free ?u ?st ?mid" using True by (auto simp: none_free_def bit_blockMAX)
    moreover note off = next_offset [OF c(2,3) 2(8)]
    ultimately show ?thesis
      using True 2(2) [of "pre @ [s]"] 2(3,4) hd later [of "byteOff + (count s * blockBytes - prec * blockBytes)"] by auto
  next
    case False
    show ?thesis
    proof (cases "retry_loop s prec byteOff bitOff")
      case (Inr a)
      then show ?thesis
        using retry_loop_spec [OF c(1,2) 2(7,8) c(3)] False first_free_cong [of ?u ?st ?mid _ "bit_set ?all"] used first_free_extend
        by (cases a) (fastforce simp: search_result_def)
    next
      case (Inl a)
      obtain p off where a: "a = (p, off)" by (cases a)
      have p: "p = count s - 1" "unat off = 4 * (?base + unat (count s) - 1)" "none_free ?u ?st ?mid"
        using retry_loop_spec [OF c(1,2) 2(7,8) c(3)] Inl a by simp_all
      have "unat p = unat (count s) - 1" unfolding p(1) using c(1) by (intro unat_minus_one)
      then have "unat p < unat (count s)" "unat off = 4 * (?base + unat p)" using c(2) p(2) by auto
      note off = next_offset [OF this(1) c(3) this(2)]
      then show ?thesis
        using False Inl a p(3) 2(1) [OF False Inl a [symmetric], of "pre @ [s]"] 2(3,4) hd later [of "off + (count s * blockBytes - p * blockBytes)"]
        by auto
    qed
  qed
qed (auto simp: none_free_def search_result_def)

lemma getFirstAvailable_spec:
  assumes "seq_inv ss" and "unat start < 32 * length (decode ss)"
  shows "search_result (bit_set ss) (unat start) (32 * length (decode ss)) (getFirstAvailable ss start)"
proof -
  have len: "length (decode ss) \<le> 2 ^ 59" using assms(1) by (simp add: seq_inv_def)
  obtain byteStart bitStart where p: "ordinalToPos start = (byteStart, bitStart)" by (cases "ordinalToPos start")
  obtain pre cur post prec inB where f: "findSequence ss byteStart = Some (pre, cur, post, prec, inB)" "ss = pre @ cur # post"
    and k: "unat start div 32 = length (decode pre) + unat prec" "unat prec < unat (count cur)"
    and pos: "unat (inB * 8 + bitStart) = unat start mod 32" "unat byteStart = 4 * (unat start div 32) + unat inB"
    using find_ordinal [OF len p assms(2)] by metis
  have "unat (byteStart - inB) = 4 * (length (decode pre) + unat prec)"
    using pos(2) k(1) by (subst unat_sub) (auto simp: word_le_nat_alt)
  moreover have "32 * (length (decode pre) + unat prec) + unat (inB * 8 + bitStart) = unat start" using k(1) pos(1) by (metis mult_div_mod_eq)
  moreover have "list_all (\<lambda>s. count s \<noteq> 0) (cur # post)" using assms(1) f(2) by (simp add: seq_inv_def)
  moreover have "unat (inB * 8 + bitStart) < 32" using pos(1) by simp
  ultimately show ?thesis
    using first_loop_spec [of "cur # post" pre prec "inB * 8 + bitStart" "byteStart - inB"] k(2) len f p
    by (simp add: getFirstAvailable_def)
qed

text \<open>Past the last block nothing is found.\<close>

lemma getFirstAvailable_outside:
  assumes "seq_inv ss" and "32 * length (decode ss) \<le> unat start"
  shows "getFirstAvailable ss start = Inl ErrNoBitAvailable"
proof -
  have len: "length (decode ss) \<le> 2 ^ 59" using assms(1) by (simp add: seq_inv_def)
  obtain byteStart bitStart where p: "ordinalToPos start = (byteStart, bitStart)" by (cases "ordinalToPos start")
  have dv: "unat byteStart div 4 = unat start div 32" using in_block_position(2) [OF p, of "byteStart mod 4"] by (simp add: unat_mod)
  have "findSequence ss byteStart = None"
  proof (rule ccontr)
    assume "findSequence ss byteStart \<noteq> None"
    then obtain pre cur post prec inB where f: "findSequence ss byteStart = Some (pre, cur, post, prec, inB)" by auto
    have "unat byteStart div 4 < length (decode ss)" using findSequence_Some [OF f len] by simp
    then show False using dv assms(2) by linarith
  qed
  then show ?thesis using p by (simp add: getFirstAvailable_def)
qed

lemma posToOrdinal_unat:
  assumes "8 * unat by + unat bi < 2 ^ 64"
  shows "unat (posToOrdinal by bi) = 8 * unat by + unat bi"
  using assms by (simp add: posToOrdinal_def unat_word_ariths)

lemma ordinal_of_pos:
  assumes "8 * unat by + unat bi < 2 ^ 64" and "unat bi < 8"
  shows "ordinalToPos (posToOrdinal by bi) = (by, bi)"
proof -
  have "unat (posToOrdinal by bi div 8) = unat by" "unat (posToOrdinal by bi mod 8) = unat bi"
    using posToOrdinal_unat [OF assms(1)] assms(2) by (simp_all add: unat_div unat_mod)
  then show ?thesis by (simp add: ordinalToPos_def word_unat_eq_iff)
qed

lemma getFirstAvailable_hit:
  assumes "seq_inv ss" and "getFirstAvailable ss from = Inr (by, bi)"
  shows "ordinalToPos (posToOrdinal by bi) = (by, bi)" "from \<le> posToOrdinal by bi" "\<not> bit_set ss (unat (posToOrdinal by bi))"
    "\<forall>i. unat from \<le> i \<and> i < unat (posToOrdinal by bi) \<longrightarrow> bit_set ss i"
proof -
  let ?lim = "32 * length (decode ss)"
  have "unat from < ?lim" using getFirstAvailable_outside [OF assms(1), of "from"] assms(2) by fastforce
  then have s: "unat bi < 8" "first_free (bit_set ss) (unat from) ?lim (8 * unat by + unat bi)"
    using getFirstAvailable_spec [OF assms(1), of "from"] assms(2) by (simp_all add: search_result_def)
  then have "8 * unat by + unat bi < 2 ^ 64" using assms(1) by (simp add: first_free_def seq_inv_def)
  then show "ordinalToPos (posToOrdinal by bi) = (by, bi)" "from \<le> posToOrdinal by bi" "\<not> bit_set ss (unat (posToOrdinal by bi))"
    "\<forall>i. unat from \<le> i \<and> i < unat (posToOrdinal by bi) \<longrightarrow> bit_set ss i"
    using s ordinal_of_pos posToOrdinal_unat by (simp_all add: first_free_def word_le_nat_alt)
qed

text \<open>The search in a range, from the position after the last allocation when that is asked for: it finds a free bit of
  the range whenever there is one, and the first one when it starts at the beginning.\<close>

lemma getAvailableFromCurrent_spec:
  assumes "seq_inv ss" and "unat to < 32 * length (decode ss)" and "start \<le> to"
  shows "case getAvailableFromCurrent ss start cur to of
      Inr (by, bi) \<Rightarrow> ordinalToPos (posToOrdinal by bi) = (by, bi) \<and> start \<le> posToOrdinal by bi \<and> posToOrdinal by bi \<le> to \<and>
        \<not> bit_set ss (unat (posToOrdinal by bi)) \<and>
        (cur = 0 \<longrightarrow> (\<forall>i. unat start \<le> i \<and> i < unat (posToOrdinal by bi) \<longrightarrow> bit_set ss i))
    | Inl e \<Rightarrow> e = ErrNoBitAvailable \<and> none_free (bit_set ss) (unat start) (Suc (unat to))"
proof -
  note hit = getFirstAvailable_hit [OF assms(1)]
  have "unat start < 32 * length (decode ss)" using assms(2,3) by (simp add: word_le_nat_alt)
  then have miss: "none_free (bit_set ss) (unat start) (32 * length (decode ss))" if "getFirstAvailable ss start = Inl e" for e
    using getFirstAvailable_spec [OF assms(1), of start] that by (simp add: search_result_def)
  have far: "none_free (bit_set ss) (unat start) (Suc (unat to))" if "getFirstAvailable ss start = Inr (by, bi)" "to < posToOrdinal by bi" for "by" bi
    using hit(4) [OF that(1)] that(2) by (auto simp: none_free_def word_less_nat_alt)
  have ge: "start \<le> posToOrdinal by bi" if "getFirstAvailable ss cur = Inr (by, bi)" "start < cur" for "by" bi
    using hit(2) [OF that(1)] that(2) by simp
  show ?thesis
    using hit miss far ge assms(2)
    by (auto simp: getAvailableFromCurrent_def Let_def none_free_def not_less split: sum.splits if_splits)
qed

end
