(* ===== verification/Bit_Handle.thy ===== *)
theory Bit_Handle
  imports Bit_Sequence
begin

text \<open>The handle of a bit sequence, \<^verbatim>\<open>bitseq/sequence.go\<close> and \<^verbatim>\<open>bitseq/store.go\<close>: allocation, release and serialisation of bits,
  alone or over a data store with atomic writes, and its client, the id manager of \<^verbatim>\<open>idm/idm.go\<close>. The data store is a
  parameter; the loop that retries a lost race is a partial function, undefined when every attempt loses.\<close>

section \<open>Handles\<close>

record handle =
  h_bits :: "64 word"
  h_unselected :: "64 word"
  h_head :: "sequence list"
  h_app :: string
  h_id :: string
  h_dbIndex :: "64 word"
  h_dbExists :: bool
  h_curr :: "64 word"

datatype ds_err = ErrKeyNotFound | ErrKeyModified | DsErr string

datatype handle_err = BitErr bit_err | InvalidRange | NotInSequence | StoreErr ds_err

text \<open>Reading changes the handle to what the store holds; a write that succeeds gives it the new index.\<close>

record 'w datastore =
  ds_GetObject :: "handle \<Rightarrow> 'w \<Rightarrow> ds_err option \<times> handle \<times> 'w"
  ds_PutObjectAtomic :: "handle \<Rightarrow> 'w \<Rightarrow> ds_err option \<times> handle \<times> 'w"
  ds_DeleteObjectAtomic :: "handle \<Rightarrow> 'w \<Rightarrow> ds_err option \<times> 'w"

type_synonym 'w store = "'w datastore option"

datatype write_err = RetryError | WriteErr ds_err

definition writeToStore :: "'w store \<Rightarrow> handle \<Rightarrow> 'w \<Rightarrow> write_err option \<times> handle \<times> 'w" where
  "writeToStore store h w =
    (case store of
       None \<Rightarrow> (None, h, w)
     | Some d \<Rightarrow>
         (case ds_PutObjectAtomic d h w of
            (None, h', w') \<Rightarrow> (None, h', w')
          | (Some e, h', w') \<Rightarrow> (Some (if e = ErrKeyModified then RetryError else WriteErr e), h', w')))"

definition deleteFromStore :: "'w store \<Rightarrow> handle \<Rightarrow> 'w \<Rightarrow> ds_err option \<times> 'w" where
  "deleteFromStore store h w = (case store of None \<Rightarrow> (None, w) | Some d \<Rightarrow> ds_DeleteObjectAtomic d h w)"

text \<open>The latest state of the handle; a key that is not found is no error.\<close>

definition fetch :: "'w store \<Rightarrow> handle \<Rightarrow> 'w \<Rightarrow> ds_err option \<times> handle \<times> 'w" where
  "fetch store h w =
    (case store of
       None \<Rightarrow> (None, h, w)
     | Some d \<Rightarrow>
         (case ds_GetObject d h w of (e, h', w') \<Rightarrow> (if e = Some ErrKeyNotFound then None else e, h', w')))"

definition new_handle :: "string \<Rightarrow> string \<Rightarrow> 64 word \<Rightarrow> handle" where
  "new_handle app i numElements =
    \<lparr>h_bits = numElements, h_unselected = numElements, h_head = [Seq 0 (getNumBlocks numElements)], h_app = app, h_id = i,
     h_dbIndex = 0, h_dbExists = False, h_curr = 0\<rparr>"

definition NewHandle :: "'w store \<Rightarrow> string \<Rightarrow> string \<Rightarrow> 64 word \<Rightarrow> 'w \<Rightarrow> (handle_err, handle) res \<times> 'w" where
  "NewHandle store app i numElements w =
    (case fetch store (new_handle app i numElements) w of
       (Some e, h1, w1) \<Rightarrow> (Inl (StoreErr e), w1)
     | (None, h1, w1) \<Rightarrow>
         if store = None \<or> h_dbExists h1 then (Inr h1, w1)
         else (case writeToStore store h1 w1 of
                 (None, h2, w2) \<Rightarrow> (Inr h2, w2)
               | (Some RetryError, h2, w2) \<Rightarrow> (Inl (StoreErr ErrKeyModified), w2)
               | (Some (WriteErr e), h2, w2) \<Rightarrow> (Inl (StoreErr e), w2)))"

section \<open>Setting and releasing\<close>

datatype request = Specific "64 word" | Any "64 word" "64 word" bool | Release "64 word"

text \<open>The position a request selects, with the value returned for it and the handle with its mark moved\<close>

definition select_bit :: "request \<Rightarrow> handle \<Rightarrow> (bit_err, 64 word \<times> 64 word \<times> 64 word \<times> handle) res" where
  "select_bit q h =
    (case q of
       Release ordinal \<Rightarrow> (case ordinalToPos ordinal of (bytePos, bitPos) \<Rightarrow> Inr (bytePos, bitPos, 0, h))
     | Any start to serial \<Rightarrow>
         (case getAvailableFromCurrent (h_head h) start (if serial then h_curr h else 0) to of
            Inl e \<Rightarrow> Inl e
          | Inr (bytePos, bitPos) \<Rightarrow>
              (let ret = posToOrdinal bytePos bitPos in Inr (bytePos, bitPos, ret, h\<lparr>h_curr := ret + 1\<rparr>)))
     | Specific ordinal \<Rightarrow>
         (case checkIfAvailable (h_head h) ordinal of
            Inl e \<Rightarrow> Inl e
          | Inr (bytePos, bitPos) \<Rightarrow> Inr (bytePos, bitPos, ordinal, h)))"

definition is_release :: "request \<Rightarrow> bool" where
  "is_release q = (case q of Release _ \<Rightarrow> True | _ \<Rightarrow> False)"

definition push_handle :: "request \<Rightarrow> 64 word \<Rightarrow> 64 word \<Rightarrow> handle \<Rightarrow> handle" where
  "push_handle q bytePos bitPos h =
    h\<lparr>h_unselected := (if is_release q then h_unselected h + 1 else h_unselected h - 1),
      h_head := pushReservation bytePos bitPos (h_head h) (is_release q)\<rparr>"

datatype set_outcome = SetDone "64 word" | SetFail handle_err | SetRetry

definition set_try :: "'w store \<Rightarrow> request \<Rightarrow> handle \<Rightarrow> 'w \<Rightarrow> set_outcome \<times> handle \<times> 'w" where
  "set_try store q h w =
    (case fetch store h w of
       (Some e, h1, w1) \<Rightarrow> (SetFail (StoreErr e), h1, w1)
     | (None, h1, w1) \<Rightarrow>
         (case select_bit q h1 of
            Inl e \<Rightarrow> (SetFail (BitErr e), h1, w1)
          | Inr (bytePos, bitPos, ret, h2) \<Rightarrow>
              (case writeToStore store (push_handle q bytePos bitPos h2) w1 of
                 (Some RetryError, nh, w2) \<Rightarrow> (SetRetry, h2, w2)
               | (Some (WriteErr e), nh, w2) \<Rightarrow> (SetFail (StoreErr e), h2, w2)
               | (None, nh, w2) \<Rightarrow>
                   (SetDone ret, h2\<lparr>h_unselected := h_unselected nh, h_head := h_head nh, h_dbIndex := h_dbIndex nh,
                                   h_dbExists := h_dbExists nh\<rparr>, w2))))"

partial_function (option) handle_set :: "'w store \<Rightarrow> request \<Rightarrow> handle \<Rightarrow> 'w \<Rightarrow> ((handle_err, 64 word) res \<times> handle \<times> 'w) option" where
  "handle_set store q h w =
    (case set_try store q h w of
       (SetDone ret, h', w') \<Rightarrow> Some (Inr ret, h', w')
     | (SetFail e, h', w') \<Rightarrow> Some (Inl e, h', w')
     | (SetRetry, h', w') \<Rightarrow> handle_set store q h' w')"

declare handle_set.simps [code]

definition SetAnyInRange :: "'w store \<Rightarrow> 64 word \<Rightarrow> 64 word \<Rightarrow> bool \<Rightarrow> handle \<Rightarrow> 'w \<Rightarrow> ((handle_err, 64 word) res \<times> handle \<times> 'w) option" where
  "SetAnyInRange store start to serial h w =
    (if to < start \<or> to \<ge> h_bits h then Some (Inl InvalidRange, h, w)
     else if h_unselected h = 0 then Some (Inl (BitErr ErrNoBitAvailable), h, w)
     else handle_set store (Any start to serial) h w)"

definition SetAny :: "'w store \<Rightarrow> bool \<Rightarrow> handle \<Rightarrow> 'w \<Rightarrow> ((handle_err, 64 word) res \<times> handle \<times> 'w) option" where
  "SetAny store serial h w =
    (if h_unselected h = 0 then Some (Inl (BitErr ErrNoBitAvailable), h, w)
     else handle_set store (Any 0 (h_bits h - 1) serial) h w)"

definition validateOrdinal :: "handle \<Rightarrow> 64 word \<Rightarrow> bool" where
  "validateOrdinal h ordinal \<longleftrightarrow> ordinal < h_bits h"

definition SetBit :: "'w store \<Rightarrow> 64 word \<Rightarrow> handle \<Rightarrow> 'w \<Rightarrow> ((handle_err, 64 word) res \<times> handle \<times> 'w) option" where
  "SetBit store ordinal h w =
    (if \<not> validateOrdinal h ordinal then Some (Inl NotInSequence, h, w) else handle_set store (Specific ordinal) h w)"

definition Unset :: "'w store \<Rightarrow> 64 word \<Rightarrow> handle \<Rightarrow> 'w \<Rightarrow> ((handle_err, 64 word) res \<times> handle \<times> 'w) option" where
  "Unset store ordinal h w =
    (if \<not> validateOrdinal h ordinal then Some (Inl NotInSequence, h, w) else handle_set store (Release ordinal) h w)"

definition IsSet :: "handle \<Rightarrow> 64 word \<Rightarrow> bool" where
  "IsSet h ordinal \<longleftrightarrow>
    validateOrdinal h ordinal \<and> (case checkIfAvailable (h_head h) ordinal of Inl _ \<Rightarrow> True | Inr _ \<Rightarrow> False)"

section \<open>Consistency, removal\<close>

text \<open>Nodes without blocks are unlinked, except the head.\<close>

definition runConsistencyCheck :: "handle \<Rightarrow> bool \<times> handle" where
  "runConsistencyCheck h =
    (case h_head h of
       [] \<Rightarrow> (False, h)
     | s # ss \<Rightarrow> (list_ex (\<lambda>c. count c = 0) ss, h\<lparr>h_head := s # filter (\<lambda>c. count c \<noteq> 0) ss\<rparr>))"

datatype check_outcome = CheckDone "handle_err option" | CheckRetry

definition check_try :: "'w store \<Rightarrow> handle \<Rightarrow> 'w \<Rightarrow> check_outcome \<times> handle \<times> 'w" where
  "check_try store h w =
    (case fetch store h w of
       (Some e, h1, w1) \<Rightarrow> (CheckDone (Some (StoreErr e)), h1, w1)
     | (None, h1, w1) \<Rightarrow>
         (case runConsistencyCheck h1 of (corrupted, nh) \<Rightarrow>
            if \<not> corrupted then (CheckDone None, h1, w1)
            else case writeToStore store nh w1 of
              (None, nh', w2) \<Rightarrow> (CheckDone None, h1\<lparr>h_head := h_head nh'\<rparr>, w2)
            | (Some RetryError, nh', w2) \<Rightarrow> (CheckRetry, h1, w2)
            | (Some (WriteErr e), nh', w2) \<Rightarrow> (CheckDone (Some (StoreErr e)), h1, w2)))"

partial_function (option) CheckConsistency :: "'w store \<Rightarrow> handle \<Rightarrow> 'w \<Rightarrow> (handle_err option \<times> handle \<times> 'w) option" where
  "CheckConsistency store h w =
    (case check_try store h w of
       (CheckDone e, h', w') \<Rightarrow> Some (e, h', w')
     | (CheckRetry, h', w') \<Rightarrow> CheckConsistency store h' w')"

text \<open>The code repeats the deletion after a \<^verbatim>\<open>RetryError\<close>; but \<^verbatim>\<open>deleteFromStore\<close> hands on the error of the store as it is, and that
  is never one, so the first error is final.\<close>

definition HandleDestroy :: "'w store \<Rightarrow> handle \<Rightarrow> 'w \<Rightarrow> handle_err option \<times> 'w" where
  "HandleDestroy store h w = (case deleteFromStore store h w of (e, w') \<Rightarrow> (map_option StoreErr e, w'))"

section \<open>Serialisation\<close>

text \<open>\<^verbatim>\<open>binary.BigEndian\<close>\<close>

primrec PutUint :: "nat \<Rightarrow> 'a::len word \<Rightarrow> 8 word list" where
  "PutUint 0 x = []"
| "PutUint (Suc n) x = ucast (drop_bit (8 * n) x) # PutUint n x"

fun uint_acc :: "'a::len word \<Rightarrow> 8 word list \<Rightarrow> 'a word" where
  "uint_acc acc [] = acc"
| "uint_acc acc (b # bs) = uint_acc (push_bit 8 acc OR ucast b) bs"

definition Uint :: "8 word list \<Rightarrow> 'a::len word" where
  "Uint bs = uint_acc 0 bs"

fun seq_toByteArray :: "sequence list \<Rightarrow> 8 word list" where
  "seq_toByteArray [] = []"
| "seq_toByteArray (s # ss) = PutUint 4 (block s) @ PutUint 8 (count s) @ seq_toByteArray ss"

datatype bytes_err = BadLength nat | NilArray | IndexPanic

text \<open>The loop takes twelve bytes before it looks whether any are left: on no bytes at all it panics.\<close>

function fromBytes_loop :: "8 word list \<Rightarrow> (bytes_err, sequence list) res" where
  "fromBytes_loop bs =
    (if length bs < 12 then Inl IndexPanic
     else let s = Seq (Uint (take 4 bs)) (Uint (take 8 (drop 4 bs))) in
       if length bs = 12 then Inr [s] else res_map (\<lambda>ss. s # ss) (fromBytes_loop (drop 12 bs)))"
  by pat_completeness auto

termination by (relation "measure length") auto

declare fromBytes_loop.simps [simp del]

definition seq_fromByteArray :: "8 word list \<Rightarrow> (bytes_err, sequence list) res" where
  "seq_fromByteArray bs = (if length bs mod 12 \<noteq> 0 then Inl (BadLength (length bs)) else fromBytes_loop bs)"

definition ToByteArray :: "handle \<Rightarrow> 8 word list" where
  "ToByteArray h = PutUint 8 (h_bits h) @ PutUint 8 (h_unselected h) @ seq_toByteArray (h_head h)"

text \<open>\<^verbatim>\<open>None\<close> is the nil slice; a slice of less than 16 bytes cannot be cut.\<close>

definition FromByteArray :: "8 word list option \<Rightarrow> handle \<Rightarrow> (bytes_err, handle) res" where
  "FromByteArray ba h =
    (case ba of
       None \<Rightarrow> Inl NilArray
     | Some bs \<Rightarrow>
         if length bs < 16 then Inl IndexPanic
         else res_map (\<lambda>ss. h\<lparr>h_bits := Uint (take 8 bs), h_unselected := Uint (take 8 (drop 8 bs)), h_head := ss\<rparr>)
                (seq_fromByteArray (drop 16 bs)))"

lemma uint_acc_PutUint: "uint_acc acc (PutUint n x) = push_bit (8 * n) acc OR take_bit (8 * n) (x :: 'a::len word)"
proof (induction n arbitrary: acc)
  case (Suc n)
  have "push_bit (8 * n) (push_bit 8 acc OR ucast (ucast (drop_bit (8 * n) x) :: 8 word)) OR take_bit (8 * n) x =
    push_bit (8 * Suc n) acc OR take_bit (8 * Suc n) x"
    by (rule bit_word_eqI) (auto simp: bit_simps possible_bit_word not_le add.commute [of "8 * n" 8])
  then show ?case using Suc by simp
qed simp

lemma Uint_PutUint: "LENGTH('a) \<le> 8 * n \<Longrightarrow> Uint (PutUint n x) = (x :: 'a::len word)"
  by (simp add: Uint_def uint_acc_PutUint take_bit_word_eq_self)

lemma length_PutUint [simp]: "length (PutUint n x) = n"
  by (induction n) simp_all

lemma length_seq_toByteArray [simp]: "length (seq_toByteArray ss) = 12 * length ss"
  by (induction ss) simp_all

lemma fromBytes_toBytes: "ss \<noteq> [] \<Longrightarrow> fromBytes_loop (seq_toByteArray ss) = Inr ss"
proof (induction ss)
  case (Cons s ss)
  then show ?case
    by (cases "ss = []") (simp_all add: fromBytes_loop.simps [of "_ @ _"] Uint_PutUint res_map_def)
qed simp

lemma bytes_roundtrip: "h_head h \<noteq> [] \<Longrightarrow>
  FromByteArray (Some (ToByteArray h)) h' = Inr (h'\<lparr>h_bits := h_bits h, h_unselected := h_unselected h, h_head := h_head h\<rparr>)"
  by (simp add: FromByteArray_def ToByteArray_def seq_fromByteArray_def fromBytes_toBytes Uint_PutUint res_map_def)

section \<open>A handle is a set of bits\<close>

definition used_bits :: "handle \<Rightarrow> nat set" where
  "used_bits h = {n. n < unat (h_bits h) \<and> bit_set (h_head h) n}"

definition handle_size :: "handle \<Rightarrow> nat" where
  "handle_size h = unat (h_bits h)"

definition handle_inv :: "handle \<Rightarrow> bool" where
  "handle_inv h \<longleftrightarrow> h_bits h \<noteq> 0 \<and> seq_inv (h_head h) \<and> length (decode (h_head h)) = unat (getNumBlocks (h_bits h)) \<and>
    unat (h_unselected h) + card (used_bits h) = handle_size h"

definition valid_request :: "request \<Rightarrow> handle \<Rightarrow> bool" where
  "valid_request q h \<longleftrightarrow>
    (case q of
       Specific n \<Rightarrow> unat n < handle_size h
     | Any start to serial \<Rightarrow> start \<le> to \<and> unat to < handle_size h
     | Release n \<Rightarrow> unat n \<in> used_bits h)"

text \<open>What a request does to the set of used bits, with the value it returns\<close>

definition granted :: "request \<Rightarrow> 64 word \<Rightarrow> nat set \<Rightarrow> nat set \<Rightarrow> bool" where
  "granted q ret old new \<longleftrightarrow>
    (case q of
       Specific n \<Rightarrow> ret = n \<and> unat n \<notin> old \<and> new = insert (unat n) old
     | Any start to serial \<Rightarrow> start \<le> ret \<and> ret \<le> to \<and> unat ret \<notin> old \<and> new = insert (unat ret) old
     | Release n \<Rightarrow> unat n \<in> old \<and> new = old - {unat n})"

definition refused :: "request \<Rightarrow> bit_err \<Rightarrow> nat set \<Rightarrow> bool" where
  "refused q e old \<longleftrightarrow>
    (case q of
       Specific n \<Rightarrow> e = ErrBitAllocated \<and> unat n \<in> old
     | Any start to serial \<Rightarrow> e = ErrNoBitAvailable \<and> {unat start .. unat to} \<subseteq> old
     | Release n \<Rightarrow> False)"

lemma getNumBlocks_covers: "unat bits \<le> 32 * unat (getNumBlocks bits)" "unat (getNumBlocks bits) \<le> 2 ^ 59"
proof -
  have "unat bits < 2 ^ 64" using unsigned_less [of bits, where ?'a = nat] by simp
  moreover have "unat (bits div 32 + 1) = unat bits div 32 + 1" using calculation by (simp add: unat_word_ariths unat_div)
  moreover have "bits mod 32 \<noteq> 0 \<longleftrightarrow> unat bits mod 32 \<noteq> 0" by (simp add: word_unat_eq_iff unat_mod)
  ultimately show "unat bits \<le> 32 * unat (getNumBlocks bits)" "unat (getNumBlocks bits) \<le> 2 ^ 59"
    by (auto simp: getNumBlocks_def unat_div)
qed

lemma finite_used [simp]: "finite (used_bits h)"
  by (simp add: used_bits_def)

lemma handle_inv_bound: "handle_inv h \<Longrightarrow> n < handle_size h \<Longrightarrow> n < 32 * length (decode (h_head h))"
  using getNumBlocks_covers(1) [of "h_bits h"] by (simp add: handle_inv_def handle_size_def)

lemma used_bits_curr [simp]: "used_bits (h\<lparr>h_curr := c\<rparr>) = used_bits h" "handle_size (h\<lparr>h_curr := c\<rparr>) = handle_size h"
  "handle_inv (h\<lparr>h_curr := c\<rparr>) = handle_inv h"
  by (simp_all add: used_bits_def handle_size_def handle_inv_def)

lemma push_handle_spec:
  assumes "handle_inv h" and "unat n < handle_size h" and "ordinalToPos n = (bytePos, bitPos)"
    and "is_release q \<longleftrightarrow> unat n \<in> used_bits h"
  shows "handle_inv (push_handle q bytePos bitPos h)" "handle_size (push_handle q bytePos bitPos h) = handle_size h"
    "used_bits (push_handle q bytePos bitPos h) = (if is_release q then used_bits h - {unat n} else insert (unat n) (used_bits h))"
proof -
  let ?h = "push_handle q bytePos bitPos h"
  have inv: "seq_inv (h_head h)" "length (decode (h_head h)) = unat (getNumBlocks (h_bits h))" "h_bits h \<noteq> 0"
    "unat (h_unselected h) + card (used_bits h) = handle_size h" using assms(1) by (simp_all add: handle_inv_def)
  note p = pushReservation_spec [OF inv(1) assms(3) handle_inv_bound [OF assms(1,2)], where release = "is_release q"]
  have b: "h_bits ?h = h_bits h" "handle_size ?h = handle_size h" by (simp_all add: push_handle_def handle_size_def)
  then show "handle_size ?h = handle_size h" by simp
  show u: "used_bits ?h = (if is_release q then used_bits h - {unat n} else insert (unat n) (used_bits h))"
    using p(3) handle_inv_bound [OF assms(1)] assms(2) b
    by (auto simp: used_bits_def push_handle_def handle_size_def split: if_splits)
  have lt: "handle_size h < 2 ^ 64" using unsigned_less [of "h_bits h", where ?'a = nat] by (simp add: handle_size_def)
  have "unat (h_unselected ?h) + card (used_bits ?h) = handle_size h"
  proof (cases "is_release q")
    case True
    then have "unat n \<in> used_bits h" using assms(4) by simp
    then have c: "card (used_bits h) = Suc (card (used_bits ?h))" using u True card_Suc_Diff1 [OF finite_used, of "unat n" h] by simp
    then have "unat (h_unselected h + 1) = unat (h_unselected h) + 1" using inv(4) lt by (simp add: unat_word_ariths)
    then show ?thesis using c True inv(4) by (simp add: push_handle_def)
  next
    case False
    then have n: "unat n \<notin> used_bits h" using assms(4) by simp
    then have c: "card (used_bits ?h) = Suc (card (used_bits h))" using u False by simp
    have "used_bits ?h \<subseteq> {..< handle_size h}" using b by (auto simp: used_bits_def handle_size_def)
    then have "card (used_bits ?h) \<le> handle_size h" using card_mono [of "{..< handle_size h}"] by simp
    then have "h_unselected h \<noteq> 0" using c inv(4) by auto
    then have "unat (h_unselected h - 1) + 1 = unat (h_unselected h)" using unat_minus_one [of "h_unselected h"] unat_gt_0 [of "h_unselected h"] by simp
    then show ?thesis using c False inv(4) by (simp add: push_handle_def)
  qed
  then show "handle_inv ?h" using p(1,2) b inv by (simp add: handle_inv_def push_handle_def)
qed

lemma select_bit_refused:
  assumes "handle_inv h" and "valid_request q h" and "select_bit q h = Inl e"
  shows "refused q e (used_bits h)"
proof -
  have inv: "seq_inv (h_head h)" using assms(1) by (simp add: handle_inv_def)
  show ?thesis
  proof (cases q)
    case (Specific n)
    then have "unat n < handle_size h" using assms(2) by (simp add: valid_request_def)
    then show ?thesis
      using checkIfAvailable_spec [OF inv handle_inv_bound [OF assms(1)]] assms(3) Specific
      by (auto simp: select_bit_def refused_def used_bits_def handle_size_def split: sum.splits if_splits)
  next
    case (Any start to serial)
    then have to: "unat to < handle_size h" "start \<le> to" using assms(2) by (simp_all add: valid_request_def)
    then have "e = ErrNoBitAvailable \<and> none_free (bit_set (h_head h)) (unat start) (Suc (unat to))"
      using getAvailableFromCurrent_spec [OF inv handle_inv_bound [OF assms(1) to(1)] to(2), of "if serial then h_curr h else 0"]
        assms(3) Any by (auto simp: select_bit_def Let_def split: sum.splits)
    then show ?thesis using Any to(1) by (auto simp: refused_def none_free_def used_bits_def handle_size_def)
  qed (use assms(3) in \<open>simp add: select_bit_def split: prod.splits\<close>)
qed

text \<open>The selected position belongs to one bit: the returned one, or the released one.\<close>

lemma select_bit_granted:
  assumes "handle_inv h" and "valid_request q h" and "select_bit q h = Inr (bytePos, bitPos, ret, h2)"
  shows "\<exists>n c. h2 = h\<lparr>h_curr := c\<rparr> \<and> ordinalToPos n = (bytePos, bitPos) \<and> unat n < handle_size h \<and>
    (is_release q \<longleftrightarrow> unat n \<in> used_bits h) \<and>
    granted q ret (used_bits h) (if is_release q then used_bits h - {unat n} else insert (unat n) (used_bits h))"
proof -
  have inv: "seq_inv (h_head h)" using assms(1) by (simp add: handle_inv_def)
  have same: "h = h\<lparr>h_curr := h_curr h\<rparr>" by simp
  show ?thesis
  proof (cases q)
    case (Specific n)
    then have "unat n < handle_size h" using assms(2) by (simp add: valid_request_def)
    then have "ordinalToPos n = (bytePos, bitPos)" "ret = n" "h2 = h" "unat n \<notin> used_bits h"
      using checkIfAvailable_spec [OF inv handle_inv_bound [OF assms(1)]] assms(3) Specific
      by (auto simp: select_bit_def used_bits_def split: sum.splits if_splits)
    then show ?thesis using Specific \<open>unat n < handle_size h\<close> same
      by (intro exI [of _ n] exI [of _ "h_curr h"]) (simp add: granted_def is_release_def)
  next
    case (Any start to serial)
    then have to: "unat to < handle_size h" "start \<le> to" using assms(2) by (simp_all add: valid_request_def)
    let ?n = "posToOrdinal bytePos bitPos"
    have n: "ordinalToPos ?n = (bytePos, bitPos)" "start \<le> ?n" "?n \<le> to" "\<not> bit_set (h_head h) (unat ?n)" "ret = ?n"
      "h2 = h\<lparr>h_curr := ret + 1\<rparr>"
      using getAvailableFromCurrent_spec [OF inv handle_inv_bound [OF assms(1) to(1)] to(2), of "if serial then h_curr h else 0"]
        assms(3) Any by (auto simp: select_bit_def Let_def split: sum.splits)
    have "unat ?n < handle_size h" using n(3) to(1) by (simp add: word_le_nat_alt)
    then show ?thesis using Any n
      by (intro exI [of _ ?n] exI [of _ "ret + 1"]) (simp add: granted_def is_release_def used_bits_def)
  next
    case (Release n)
    then have "unat n \<in> used_bits h" using assms(2) by (simp add: valid_request_def)
    moreover have "unat n < handle_size h" using calculation by (simp add: used_bits_def handle_size_def)
    ultimately show ?thesis using Release assms(3) same
      by (intro exI [of _ n] exI [of _ "h_curr h"]) (auto simp: select_bit_def granted_def is_release_def split: prod.splits)
  qed
qed

lemma select_push:
  assumes "handle_inv h" and "valid_request q h" and "select_bit q h = Inr (bytePos, bitPos, ret, h2)"
  shows "handle_inv (push_handle q bytePos bitPos h2)" "handle_size (push_handle q bytePos bitPos h2) = handle_size h"
    "granted q ret (used_bits h) (used_bits (push_handle q bytePos bitPos h2))"
proof -
  obtain n c where n: "h2 = h\<lparr>h_curr := c\<rparr>" "ordinalToPos n = (bytePos, bitPos)" "unat n < handle_size h"
    "is_release q \<longleftrightarrow> unat n \<in> used_bits h"
    "granted q ret (used_bits h) (if is_release q then used_bits h - {unat n} else insert (unat n) (used_bits h))"
    using select_bit_granted [OF assms] by blast
  note p = push_handle_spec [of h2 n bytePos bitPos q]
  show "handle_inv (push_handle q bytePos bitPos h2)" "handle_size (push_handle q bytePos bitPos h2) = handle_size h"
    "granted q ret (used_bits h) (used_bits (push_handle q bytePos bitPos h2))"
    using p n assms(1) by (simp_all split: if_splits)
qed

section \<open>A handle without a store\<close>

text \<open>Without a store there is no race to lose: every request returns.\<close>

lemma handle_set_local:
  "handle_set None q h w =
    (case select_bit q h of
       Inl e \<Rightarrow> Some (Inl (BitErr e), h, w)
     | Inr (bytePos, bitPos, ret, h2) \<Rightarrow> Some (Inr ret, push_handle q bytePos bitPos h2, w))"
  by (subst handle_set.simps)
    (auto simp: set_try_def fetch_def writeToStore_def push_handle_def split: sum.splits)

lemma handle_set_local_spec:
  assumes "handle_inv h" and "valid_request q h"
  obtains e where "handle_set None q h w = Some (Inl (BitErr e), h, w)" "refused q e (used_bits h)"
  | ret h' where "handle_set None q h w = Some (Inr ret, h', w)" "handle_inv h'" "handle_size h' = handle_size h"
      "granted q ret (used_bits h) (used_bits h')"
proof (cases "select_bit q h")
  case (Inl e)
  then show thesis using that(1) select_bit_refused [OF assms] by (simp add: handle_set_local)
next
  case (Inr a)
  then show thesis using that(2) select_push [OF assms] by (cases a) (auto simp: handle_set_local)
qed

section \<open>The interface of an allocator\<close>

text \<open>What the users of a handle rely on: the operations are those of a set of used bits below a size. A client that
  releases only what it holds owns exactly the used bits.\<close>

locale bit_allocator =
  fixes inv :: "'h \<Rightarrow> bool" and used :: "'h \<Rightarrow> nat set" and size_of :: "'h \<Rightarrow> nat"
    and any :: "bool \<Rightarrow> 'h \<Rightarrow> 'w \<Rightarrow> ((handle_err, 64 word) res \<times> 'h \<times> 'w) option"
    and in_range :: "64 word \<Rightarrow> 64 word \<Rightarrow> bool \<Rightarrow> 'h \<Rightarrow> 'w \<Rightarrow> ((handle_err, 64 word) res \<times> 'h \<times> 'w) option"
    and specific :: "64 word \<Rightarrow> 'h \<Rightarrow> 'w \<Rightarrow> ((handle_err, 64 word) res \<times> 'h \<times> 'w) option"
    and unset :: "64 word \<Rightarrow> 'h \<Rightarrow> 'w \<Rightarrow> ((handle_err, 64 word) res \<times> 'h \<times> 'w) option"
  assumes any_spec: "inv h \<Longrightarrow> (\<exists>e. any serial h w = Some (Inl e, h, w) \<and> used h = {..< size_of h}) \<or>
      (\<exists>n h'. any serial h w = Some (Inr n, h', w) \<and> inv h' \<and> size_of h' = size_of h \<and> unat n < size_of h \<and>
        unat n \<notin> used h \<and> used h' = insert (unat n) (used h))"
    and in_range_spec: "inv h \<Longrightarrow> a \<le> b \<Longrightarrow> unat b < size_of h \<Longrightarrow>
      (\<exists>e. in_range a b serial h w = Some (Inl e, h, w) \<and> {unat a .. unat b} \<subseteq> used h) \<or>
      (\<exists>n h'. in_range a b serial h w = Some (Inr n, h', w) \<and> inv h' \<and> size_of h' = size_of h \<and> a \<le> n \<and> n \<le> b \<and>
        unat n \<notin> used h \<and> used h' = insert (unat n) (used h))"
    and specific_spec: "inv h \<Longrightarrow> unat n < size_of h \<Longrightarrow>
      (\<exists>e. specific n h w = Some (Inl e, h, w) \<and> unat n \<in> used h) \<or>
      (\<exists>h'. specific n h w = Some (Inr n, h', w) \<and> inv h' \<and> size_of h' = size_of h \<and> unat n \<notin> used h \<and>
        used h' = insert (unat n) (used h))"
    and unset_spec: "inv h \<Longrightarrow> unat n \<in> used h \<Longrightarrow>
      \<exists>r h'. unset n h w = Some (Inr r, h', w) \<and> inv h' \<and> size_of h' = size_of h \<and> used h' = used h - {unat n}"
    and used_size: "inv h \<Longrightarrow> used h \<subseteq> {..< size_of h}"
begin

definition owns :: "'h \<Rightarrow> nat set \<Rightarrow> nat \<Rightarrow> bool" where
  "owns h held n \<longleftrightarrow> inv h \<and> used h = held \<and> size_of h = n"

lemma any_owns:
  assumes "owns h held m" and "any serial h w = Some (r, h', w')"
  shows "(\<exists>e. r = Inl e \<and> owns h' held m \<and> held = {..< m}) \<or>
    (\<exists>n. r = Inr n \<and> unat n < m \<and> unat n \<notin> held \<and> owns h' (insert (unat n) held) m)"
  using any_spec [of h serial w] assms by (auto simp: owns_def)

lemma in_range_owns:
  assumes "owns h held m" and "a \<le> b" and "unat b < m" and "in_range a b serial h w = Some (r, h', w')"
  shows "(\<exists>e. r = Inl e \<and> owns h' held m \<and> {unat a .. unat b} \<subseteq> held) \<or>
    (\<exists>n. r = Inr n \<and> a \<le> n \<and> n \<le> b \<and> unat n \<notin> held \<and> owns h' (insert (unat n) held) m)"
  using in_range_spec [of h a b serial w] assms by (auto simp: owns_def)

lemma specific_owns:
  assumes "owns h held m" and "unat n < m" and "specific n h w = Some (r, h', w')"
  shows "(\<exists>e. r = Inl e \<and> owns h' held m \<and> unat n \<in> held) \<or>
    (r = Inr n \<and> unat n \<notin> held \<and> owns h' (insert (unat n) held) m)"
  using specific_spec [of h n w] assms by (auto simp: owns_def)

lemma unset_owns:
  assumes "owns h held m" and "unat n \<in> held" and "unset n h w = Some (r, h', w')"
  shows "owns h' (held - {unat n}) m"
  using unset_spec [of h n w] assms by (auto simp: owns_def)

lemma any_returns: "owns h held m \<Longrightarrow> \<exists>r h' w'. any serial h w = Some (r, h', w')"
  using any_spec [of h serial w] by (auto simp: owns_def)

end

text \<open>The operations of a handle without a store keep that contract.\<close>

lemma used_bits_below: "used_bits h \<subseteq> {..< handle_size h}"
  by (auto simp: used_bits_def handle_size_def)

lemma none_unselected: "handle_inv h \<Longrightarrow> h_unselected h = 0 \<Longrightarrow> used_bits h = {..< handle_size h}"
  using card_subset_eq [of "{..< handle_size h}" "used_bits h"] used_bits_below [of h] by (simp add: handle_inv_def)

lemma below_bits: "unat n < handle_size h \<longleftrightarrow> n < h_bits h"
  by (simp add: handle_size_def word_less_nat_alt)

lemma any_local:
  assumes "handle_inv h" and "a \<le> b" and "unat b < handle_size h"
  shows "(\<exists>e. handle_set None (Any a b serial) h w = Some (Inl e, h, w) \<and> {unat a .. unat b} \<subseteq> used_bits h) \<or>
    (\<exists>n h'. handle_set None (Any a b serial) h w = Some (Inr n, h', w) \<and> handle_inv h' \<and> handle_size h' = handle_size h \<and> a \<le> n \<and> n \<le> b \<and>
      unat n \<notin> used_bits h \<and> used_bits h' = insert (unat n) (used_bits h))"
proof -
  have "valid_request (Any a b serial) h" using assms(2,3) by (simp add: valid_request_def)
  from handle_set_local_spec [OF assms(1) this, of w] show ?thesis by cases (auto simp: refused_def granted_def)
qed

lemma SetAny_local:
  assumes "handle_inv h"
  shows "(\<exists>e. SetAny None serial h w = Some (Inl e, h, w) \<and> used_bits h = {..< handle_size h}) \<or>
    (\<exists>n h'. SetAny None serial h w = Some (Inr n, h', w) \<and> handle_inv h' \<and> handle_size h' = handle_size h \<and> unat n < handle_size h \<and>
      unat n \<notin> used_bits h \<and> used_bits h' = insert (unat n) (used_bits h))"
proof (cases "h_unselected h = 0")
  case False
  have "unat (h_bits h - 1) = handle_size h - 1" "0 < handle_size h"
    using assms unat_minus_one [of "h_bits h"] by (auto simp: handle_inv_def handle_size_def unat_gt_0)
  then have last: "unat (h_bits h - 1) < handle_size h" "{0 .. unat (h_bits h - 1)} = {..< handle_size h}" by auto
  have "unat n < handle_size h" if "n \<le> h_bits h - 1" for n using that last(1) by (simp add: word_le_nat_alt)
  then show ?thesis
    using any_local [OF assms _ last(1), of 0 serial w] last(2) used_bits_below [of h] False by (fastforce simp: SetAny_def)
qed (use none_unselected [OF assms] in \<open>simp add: SetAny_def\<close>)

lemma SetAnyInRange_local:
  assumes "handle_inv h" and "a \<le> b" and "unat b < handle_size h"
  shows "(\<exists>e. SetAnyInRange None a b serial h w = Some (Inl e, h, w) \<and> {unat a .. unat b} \<subseteq> used_bits h) \<or>
    (\<exists>n h'. SetAnyInRange None a b serial h w = Some (Inr n, h', w) \<and> handle_inv h' \<and> handle_size h' = handle_size h \<and> a \<le> n \<and> n \<le> b \<and>
      unat n \<notin> used_bits h \<and> used_bits h' = insert (unat n) (used_bits h))"
proof -
  have "\<not> (b < a \<or> b \<ge> h_bits h)" using assms by (auto simp: below_bits)
  then show ?thesis
    using any_local [OF assms, of serial w] none_unselected [OF assms(1)] assms(3) by (auto simp: SetAnyInRange_def)
qed

lemma SetBit_local:
  assumes "handle_inv h" and "unat n < handle_size h"
  shows "(\<exists>e. SetBit None n h w = Some (Inl e, h, w) \<and> unat n \<in> used_bits h) \<or>
    (\<exists>h'. SetBit None n h w = Some (Inr n, h', w) \<and> handle_inv h' \<and> handle_size h' = handle_size h \<and> unat n \<notin> used_bits h \<and>
      used_bits h' = insert (unat n) (used_bits h))"
proof -
  have v: "valid_request (Specific n) h" using assms(2) by (simp add: valid_request_def)
  from handle_set_local_spec [OF assms(1) v, of w] show ?thesis
    using assms(2) by cases (simp_all add: SetBit_def validateOrdinal_def below_bits refused_def granted_def)
qed

lemma Unset_local:
  assumes "handle_inv h" and "unat n \<in> used_bits h"
  shows "\<exists>r h'. Unset None n h w = Some (Inr r, h', w) \<and> handle_inv h' \<and> handle_size h' = handle_size h \<and>
    used_bits h' = used_bits h - {unat n}"
proof -
  have v: "valid_request (Release n) h" using assms(2) by (simp add: valid_request_def)
  have "n < h_bits h" using assms(2) used_bits_below by (auto simp: below_bits [symmetric])
  then have "Unset None n h w = handle_set None (Release n) h w" by (simp add: Unset_def validateOrdinal_def)
  moreover from handle_set_local_spec [OF assms(1) v, of w]
  have "\<exists>r h'. handle_set None (Release n) h w = Some (Inr r, h', w) \<and> handle_inv h' \<and> handle_size h' = handle_size h \<and>
    used_bits h' = used_bits h - {unat n}" by cases (auto simp: refused_def granted_def)
  ultimately show ?thesis by simp
qed

interpretation lone: bit_allocator handle_inv used_bits handle_size "SetAny None" "SetAnyInRange None" "SetBit None" "Unset None"
  by unfold_locales (rule SetAny_local SetAnyInRange_local SetBit_local Unset_local used_bits_below; assumption)+

section \<open>Properties\<close>

lemma getNumBlocks_nonzero: "bits \<noteq> 0 \<Longrightarrow> getNumBlocks bits \<noteq> 0"
  using getNumBlocks_covers(1) [of bits] by (auto simp: word_unat_eq_iff)

lemma new_handle_inv:
  assumes "bits \<noteq> 0"
  shows "handle_inv (new_handle app i bits)" "used_bits (new_handle app i bits) = {}" "handle_size (new_handle app i bits) = unat bits"
proof -
  have b: "bit_set (h_head (new_handle app i bits)) n = False" if "n < unat bits" for n
  proof -
    have "n div 32 < unat (getNumBlocks bits)" using that getNumBlocks_covers(1) [of bits] by simp
    then show ?thesis by (simp add: new_handle_def bit_set_def)
  qed
  then show u: "used_bits (new_handle app i bits) = {}" by (auto simp: used_bits_def new_handle_def)
  show "handle_size (new_handle app i bits) = unat bits" by (simp add: handle_size_def new_handle_def)
  show "handle_inv (new_handle app i bits)"
    using assms u getNumBlocks_nonzero [OF assms] getNumBlocks_covers(2) [of bits]
    by (simp add: handle_inv_def handle_size_def seq_inv_def new_handle_def)
qed

text \<open>C32: A bit sequence behaves like the set of its used bits: on a handle without a store every request on bits of the
  sequence returns; it is granted as on a set, taking a bit that was free or giving one back and changing no other, or it
  is refused because the bits it asks for are all used; the counter of free bits and the encoding stay exact. A request
  that does not continue after the last allocation gets the first free bit of its range.\<close>

theorem handle_refines_set:
  assumes "handle_inv h" and "valid_request q h"
  shows "\<exists>r h'. handle_set None q h w = Some (r, h', w) \<and> handle_inv h' \<and> h_bits h' = h_bits h \<and>
    (case r of
       Inr ret \<Rightarrow> granted q ret (used_bits h) (used_bits h') \<and>
         (\<forall>start to. q = Any start to False \<longrightarrow> {unat start ..< unat ret} \<subseteq> used_bits h)
     | Inl e \<Rightarrow> h' = h \<and> (\<exists>b. e = BitErr b \<and> refused q b (used_bits h)))"
proof (cases "select_bit q h")
  case (Inl e)
  then show ?thesis using select_bit_refused [OF assms] assms(1) by (simp add: handle_set_local)
next
  case (Inr a)
  then obtain bytePos bitPos ret h2 where a: "select_bit q h = Inr (bytePos, bitPos, ret, h2)" by (cases a) auto
  have "{unat start ..< unat ret} \<subseteq> used_bits h" if q: "q = Any start to False" for start to
  proof -
    have to: "unat to < handle_size h" "start \<le> to" using assms(2) q by (simp_all add: valid_request_def)
    have inv: "seq_inv (h_head h)" using assms(1) by (simp add: handle_inv_def)
    have "ret \<le> to" "\<forall>i. unat start \<le> i \<and> i < unat ret \<longrightarrow> bit_set (h_head h) i"
      using getAvailableFromCurrent_spec [OF inv handle_inv_bound [OF assms(1) to(1)] to(2), of 0] a q
      by (auto simp: select_bit_def Let_def split: sum.splits)
    then show ?thesis using to(1) by (auto simp: used_bits_def handle_size_def word_le_nat_alt)
  qed
  then show ?thesis
    using select_push [OF assms a] a
    by (simp add: handle_set_local handle_size_def word_unat_eq_iff)
qed

definition ex_handle :: handle where
  "ex_handle = (new_handle ''ipam'' ''net'' 40)\<lparr>h_unselected := 39, h_head := [Seq 0x80000000 1, Seq 0 1]\<rparr>"

lemma ex_handle_inv: "handle_inv ex_handle" "used_bits ex_handle = {0}" "h_bits ex_handle = 40"
proof -
  have "handle_inv (new_handle ''ipam'' ''net'' 40)" "used_bits (new_handle ''ipam'' ''net'' 40) = {}" by (simp_all add: new_handle_inv)
  moreover have "unat (0 :: 64 word) < handle_size (new_handle ''ipam'' ''net'' 40)" by (simp add: handle_size_def new_handle_def)
  moreover have e: "push_handle (Specific 0) 0 0 (new_handle ''ipam'' ''net'' 40) = ex_handle"
    by code_simp
  ultimately show "handle_inv ex_handle" "used_bits ex_handle = {0}"
    using push_handle_spec [of "new_handle ''ipam'' ''net'' 40" 0 0 0 "Specific 0"] by (simp_all add: ordinalToPos_def is_release_def)
  show "h_bits ex_handle = 40" by (simp add: ex_handle_def new_handle_def)
qed

theorem handle_refines_set_witness:
  "\<exists>r h'. handle_set None (Any 0 39 False) ex_handle () = Some (r, h', ()) \<and> handle_inv h' \<and> r = Inr 1 \<and> used_bits h' = {0, 1}"
proof -
  have v: "valid_request (Any 0 39 False) ex_handle" by (simp add: valid_request_def handle_size_def ex_handle_inv(3))
  have "map_option fst (handle_set None (Any 0 39 False) ex_handle ()) = Some (Inr 1)" by code_simp
  then obtain h' where "handle_set None (Any 0 39 False) ex_handle () = Some (Inr 1, h', ())" by auto
  moreover from this have "handle_inv h' \<and> granted (Any 0 39 False) 1 (used_bits ex_handle) (used_bits h')"
    using handle_refines_set [OF ex_handle_inv(1) v, of "()"] by auto
  ultimately show ?thesis by (auto simp: granted_def ex_handle_inv(2))
qed

section \<open>Handles that share a store\<close>

lemma handle_set_induct:
  assumes "handle_set store q h w = Some y"
    and "\<And>h w ret h' w'. set_try store q h w = (SetDone ret, h', w') \<Longrightarrow> P h w (Inr ret, h', w')"
    and "\<And>h w e h' w'. set_try store q h w = (SetFail e, h', w') \<Longrightarrow> P h w (Inl e, h', w')"
    and "\<And>h w h' w' y. set_try store q h w = (SetRetry, h', w') \<Longrightarrow> P h' w' y \<Longrightarrow> P h w y"
  shows "P h w y"
proof -
  have "store = store \<and> q = q \<longrightarrow> P h w y"
    by (rule handle_set.raw_induct [where P = "\<lambda>s' q' h w y. s' = store \<and> q' = q \<longrightarrow> P h w y", OF _ assms(1)])
      (auto split: prod.splits set_outcome.splits dest: assms(2,3) intro: assms(4))
  then show ?thesis by simp
qed

definition same_mask :: "handle \<Rightarrow> handle \<Rightarrow> bool" where
  "same_mask h g \<longleftrightarrow> h_bits h = h_bits g \<and> h_unselected h = h_unselected g \<and> h_head h = h_head g"

lemma same_mask_facts: "same_mask h g \<Longrightarrow> used_bits h = used_bits g \<and> handle_size h = handle_size g \<and> handle_inv h = handle_inv g"
  by (simp add: same_mask_def used_bits_def handle_size_def handle_inv_def)

lemma push_handle_index [simp]: "h_dbIndex (push_handle q by bi h) = h_dbIndex h" "h_bits (push_handle q by bi h) = h_bits h"
  by (simp_all add: push_handle_def)

lemma set_try_store:
  assumes "ds_GetObject d h w = (None, g, w1)" and "set_try (Some d) q h w = (out, h', w')"
  shows "out = SetDone ret \<Longrightarrow> \<exists>by bi g2 nh. select_bit q g = Inr (by, bi, ret, g2) \<and>
      ds_PutObjectAtomic d (push_handle q by bi g2) w1 = (None, nh, w')"
    "out = SetRetry \<Longrightarrow> \<exists>nh e nh'. ds_PutObjectAtomic d nh w1 = (Some e, nh', w')"
proof -
  have f: "fetch (Some d) h w = (None, g, w1)" using assms(1) by (simp add: fetch_def)
  have "(out = SetDone ret \<longrightarrow> (\<exists>by bi g2 nh. select_bit q g = Inr (by, bi, ret, g2) \<and>
      ds_PutObjectAtomic d (push_handle q by bi g2) w1 = (None, nh, w'))) \<and>
    (out = SetRetry \<longrightarrow> (\<exists>nh e nh'. ds_PutObjectAtomic d nh w1 = (Some e, nh', w')))"
  proof (cases "select_bit q g")
    case (Inl e)
    then show ?thesis using assms(2) f by (auto simp: set_try_def)
  next
    case (Inr a)
    then obtain by' bi r g2 where a: "select_bit q g = Inr (by', bi, r, g2)" by (cases a) auto
    obtain e nh w2 where p: "ds_PutObjectAtomic d (push_handle q by' bi g2) w1 = (e, nh, w2)"
      by (cases "ds_PutObjectAtomic d (push_handle q by' bi g2) w1")
    show ?thesis
    proof (cases e)
      case None
      then show ?thesis using assms(2) f a p by (auto simp: set_try_def writeToStore_def)
    next
      case (Some x)
      then show ?thesis using assms(2) f a p by (cases "x = ErrKeyModified") (auto simp: set_try_def writeToStore_def)
    qed
  qed
  then show "out = SetDone ret \<Longrightarrow> \<exists>by bi g2 nh. select_bit q g = Inr (by, bi, ret, g2) \<and>
      ds_PutObjectAtomic d (push_handle q by bi g2) w1 = (None, nh, w')"
    "out = SetRetry \<Longrightarrow> \<exists>nh e nh'. ds_PutObjectAtomic d nh w1 = (Some e, nh', w')" by simp_all
qed


text \<open>A store with another participant that allocates a bit of its own before each of the next writes\<close>

definition other_write :: "handle \<Rightarrow> handle" where
  "other_write c =
    (case SetAny None False c () of
       Some (Inr _, c', _) \<Rightarrow> c'\<lparr>h_dbIndex := h_dbIndex c + 1\<rparr>
     | _ \<Rightarrow> c)"

definition racing_store :: "(handle \<times> nat) datastore" where
  "racing_store =
    \<lparr>ds_GetObject = (\<lambda>h (c, n). (None, c, c, n)),
     ds_PutObjectAtomic = (\<lambda>h (c, n).
       let c1 = (if 0 < n then other_write c else c) in
       if h_dbIndex h = h_dbIndex c1 then (let h' = h\<lparr>h_dbIndex := h_dbIndex h + 1\<rparr> in (None, h', h', n - 1))
       else (Some ErrKeyModified, h, c1, n - 1)),
     ds_DeleteObjectAtomic = (\<lambda>h w. (None, w))\<rparr>"

lemma handle_inv_index [simp]: "handle_inv (c\<lparr>h_dbIndex := i\<rparr>) = handle_inv c" "handle_size (c\<lparr>h_dbIndex := i\<rparr>) = handle_size c"
  by (simp_all add: handle_inv_def used_bits_def handle_size_def)

lemma other_write_keeps:
  assumes "handle_inv c"
  shows "handle_inv (other_write c) \<and> h_bits (other_write c) = h_bits c \<and>
    (h_dbIndex (other_write c) = h_dbIndex c \<longrightarrow> same_mask (other_write c) c)"
proof -
  from SetAny_local [OF assms, of False "()"] consider
    "other_write c = c" | h' where "other_write c = h'\<lparr>h_dbIndex := h_dbIndex c + 1\<rparr>" "handle_inv h'" "h_bits h' = h_bits c"
    by (fastforce simp: other_write_def handle_size_def word_unat_eq_iff)
  then show ?thesis using assms by cases (simp_all add: same_mask_def)
qed


end
