(* ===== verification/Id_Manager.thy ===== *)
theory Id_Manager
  imports Bit_Handle
begin

text \<open>The id manager of \<^verbatim>\<open>idm/idm.go\<close>, which hands out the numbers of an interval over a bit sequence.\<close>

record idm =
  i_start :: "64 word"
  i_end :: "64 word"
  i_handle :: "handle option"

datatype idm_err = InvalidId | InvalidSet | HandleErr handle_err | NotInitialized | NotInSet | NilHandle

type_synonym ('a, 'w) idm_result = "((idm_err, 'a) res \<times> idm \<times> 'w) option"

definition New :: "'w store \<Rightarrow> string \<Rightarrow> 64 word \<Rightarrow> 64 word \<Rightarrow> 'w \<Rightarrow> (idm_err, idm) res \<times> 'w" where
  "New store i start to w =
    (if i = [] then (Inl InvalidId, w)
     else if to \<le> start then (Inl InvalidSet, w)
     else case NewHandle store ''idm'' i (1 + to - start) w of
       (Inl e, w') \<Rightarrow> (Inl (HandleErr e), w')
     | (Inr h, w') \<Rightarrow> (Inr \<lparr>i_start = start, i_end = to, i_handle = Some h\<rparr>, w'))"

text \<open>A call on the handle, whose result is shifted by the first number of the interval\<close>

definition on_handle :: "(handle \<Rightarrow> 'w \<Rightarrow> ((handle_err, 64 word) res \<times> handle \<times> 'w) option) \<Rightarrow> idm \<Rightarrow> handle \<Rightarrow> 'w \<Rightarrow> (64 word, 'w) idm_result" where
  "on_handle f i h w =
    (case f h w of
       None \<Rightarrow> None
     | Some (r, h', w') \<Rightarrow>
         Some (case r of Inl e \<Rightarrow> Inl (HandleErr e) | Inr n \<Rightarrow> Inr (i_start i + n), i\<lparr>i_handle := Some h'\<rparr>, w'))"

definition GetID :: "'w store \<Rightarrow> bool \<Rightarrow> idm \<Rightarrow> 'w \<Rightarrow> (64 word, 'w) idm_result" where
  "GetID store serial i w =
    (case i_handle i of None \<Rightarrow> Some (Inl NotInitialized, i, w) | Some h \<Rightarrow> on_handle (SetAny store serial) i h w)"

definition GetSpecificID :: "'w store \<Rightarrow> 64 word \<Rightarrow> idm \<Rightarrow> 'w \<Rightarrow> (64 word, 'w) idm_result" where
  "GetSpecificID store n i w =
    (case i_handle i of
       None \<Rightarrow> Some (Inl NotInitialized, i, w)
     | Some h \<Rightarrow>
         if n < i_start i \<or> n > i_end i then Some (Inl NotInSet, i, w)
         else on_handle (SetBit store (n - i_start i)) i h w)"

definition GetIDInRange :: "'w store \<Rightarrow> 64 word \<Rightarrow> 64 word \<Rightarrow> bool \<Rightarrow> idm \<Rightarrow> 'w \<Rightarrow> (64 word, 'w) idm_result" where
  "GetIDInRange store start to serial i w =
    (case i_handle i of
       None \<Rightarrow> Some (Inl NotInitialized, i, w)
     | Some h \<Rightarrow>
         if start < i_start i \<or> to > i_end i then Some (Inl NotInSet, i, w)
         else on_handle (SetAnyInRange store (start - i_start i) (to - i_start i) serial) i h w)"

text \<open>The error of the handle is dropped; there is no test of the handle.\<close>

definition ReleaseID :: "'w store \<Rightarrow> 64 word \<Rightarrow> idm \<Rightarrow> 'w \<Rightarrow> (unit, 'w) idm_result" where
  "ReleaseID store n i w =
    (case i_handle i of
       None \<Rightarrow> Some (Inl NilHandle, i, w)
     | Some h \<Rightarrow>
         (case Unset store (n - i_start i) h w of
            None \<Rightarrow> None
          | Some (_, h', w') \<Rightarrow> Some (Inr (), i\<lparr>i_handle := Some h'\<rparr>, w')))"

section \<open>Runs of clients\<close>

text \<open>Clients of one manager that give back only what they hold: the state is the manager and the numbers held.\<close>

definition taken :: "(idm_err, 64 word) res \<Rightarrow> 64 word set" where
  "taken r = (case r of Inl _ \<Rightarrow> {} | Inr n \<Rightarrow> {n})"

inductive idm_step :: "idm \<times> 64 word set \<Rightarrow> idm \<times> 64 word set \<Rightarrow> bool" where
  get: "GetID None serial i () = Some (r, i', ()) \<Longrightarrow> idm_step (i, held) (i', held \<union> taken r)"
| specific: "GetSpecificID None n i () = Some (r, i', ()) \<Longrightarrow> idm_step (i, held) (i', held \<union> taken r)"
| in_range: "a \<le> b \<Longrightarrow> GetIDInRange None a b serial i () = Some (r, i', ()) \<Longrightarrow> idm_step (i, held) (i', held \<union> taken r)"
| release: "n \<in> held \<Longrightarrow> ReleaseID None n i () = Some (r, i', ()) \<Longrightarrow> idm_step (i, held) (i', held - {n})"

inductive_cases idm_stepE: "idm_step (i, held) (i', held')"

text \<open>The manager owns the bits of the numbers held.\<close>

definition offsets :: "64 word \<Rightarrow> 64 word set \<Rightarrow> nat set" where
  "offsets start held = (\<lambda>n. unat (n - start)) ` held"

definition idm_inv :: "64 word \<Rightarrow> 64 word \<Rightarrow> idm \<times> 64 word set \<Rightarrow> bool" where
  "idm_inv start to s \<longleftrightarrow>
    (\<exists>h. fst s = \<lparr>i_start = start, i_end = to, i_handle = Some h\<rparr> \<and> snd s \<subseteq> {start .. to} \<and>
      lone.owns h (offsets start (snd s)) (unat (to - start) + 1))"

lemma offset_inj: "unat (n - start) = unat (m - start) \<longleftrightarrow> n = (m :: 64 word)"
  by (simp add: word_unat_eq_iff [symmetric])

lemma offset_mem: "unat (n - start) \<in> offsets start held \<longleftrightarrow> n \<in> held"
  by (auto simp: offsets_def offset_inj)

lemma offsets_simps:
  "insert (unat (n - start)) (offsets start held) = offsets start (insert n held)"
  "offsets start held - {unat (n - start)} = offsets start (held - {n})"
  by (auto simp: offsets_def offset_inj)

lemma offset_bound: "n \<in> {start .. to} \<longleftrightarrow> unat (n - start) < unat (to - start) + 1 \<and> start \<le> to" for n :: "64 word"
proof -
  have "n - start \<le> to - start \<longleftrightarrow> start \<le> n \<and> n \<le> to" if "start \<le> to"
    using that by uint_arith
  then show ?thesis by (auto simp: word_le_nat_alt less_Suc_eq_le)
qed

text \<open>A grant of the handle is a number of the interval that was not held.\<close>

lemma grant_keeps_inv:
  assumes "idm_inv start to (i, held)" and "start \<le> to" and "n \<in> {start .. to}"
    and "lone.owns h' (insert (unat (n - start)) (offsets start held)) (unat (to - start) + 1)"
  shows "idm_inv start to (i\<lparr>i_handle := Some h'\<rparr>, held \<union> {n})"
  using assms by (auto simp: idm_inv_def offsets_simps)

text \<open>Every allocation of the manager is one of the handle.\<close>

lemma on_handle_cases:
  assumes "on_handle f i h w = Some (r, i', w')"
  obtains e h' where "f h w = Some (Inl e, h', w')" "r = Inl (HandleErr e)" "i' = i\<lparr>i_handle := Some h'\<rparr>"
  | m h' where "f h w = Some (Inr m, h', w')" "r = Inr (i_start i + m)" "i' = i\<lparr>i_handle := Some h'\<rparr>"
  using assms by (auto simp: on_handle_def split: option.splits sum.splits)

definition allocated :: "handle \<Rightarrow> nat \<Rightarrow> nat set \<Rightarrow> (handle_err, 64 word) res \<Rightarrow> bool" where
  "allocated h m held x \<longleftrightarrow>
    (case x of Inl _ \<Rightarrow> lone.owns h held m | Inr n \<Rightarrow> unat n < m \<and> unat n \<notin> held \<and> lone.owns h (insert (unat n) held) m)"

lemma allocation_keeps_inv:
  assumes inv: "idm_inv start to (i, held)" and "start \<le> to" and h: "i_handle i = Some h"
    and run: "on_handle f i h () = Some (r, i', ())"
    and f: "\<And>x h'. f h () = Some (x, h', ()) \<Longrightarrow> allocated h' (unat (to - start) + 1) (offsets start held) x"
  shows "idm_inv start to (i', held \<union> taken r)" "r = Inr n \<Longrightarrow> n \<in> {start .. to} \<and> n \<notin> held"
proof -
  have st: "i_start i = start" using inv by (auto simp: idm_inv_def)
  have "idm_inv start to (i', held \<union> taken r) \<and> (\<forall>n. r = Inr n \<longrightarrow> n \<in> {start .. to} \<and> n \<notin> held)"
    using run
  proof (cases rule: on_handle_cases)
    case (1 e h')
    then show ?thesis using inv f [of "Inl e" h'] by (auto simp: idm_inv_def taken_def allocated_def)
  next
    case (2 m h')
    let ?n = "start + m"
    have m: "unat m < unat (to - start) + 1" "unat m \<notin> offsets start held"
      "lone.owns h' (insert (unat m) (offsets start held)) (unat (to - start) + 1)" using f [OF 2(1)] by (auto simp: allocated_def)
    have n: "unat (?n - start) = unat m" by simp
    have "?n \<in> {start .. to}" using offset_bound [of ?n start to] m(1) assms(2) by simp
    moreover have "?n \<notin> held" using offset_mem [of ?n start held] m(2) by simp
    moreover have "idm_inv start to (i', held \<union> {?n})"
      using grant_keeps_inv [OF inv assms(2) calculation(1)] m(3) 2(3) by simp
    ultimately show ?thesis using 2(2) st by (simp add: taken_def)
  qed
  then show "idm_inv start to (i', held \<union> taken r)" "r = Inr n \<Longrightarrow> n \<in> {start .. to} \<and> n \<notin> held" by simp_all
qed

lemma GetID_spec:
  assumes inv: "idm_inv start to (i, held)" and "start \<le> to" and run: "GetID None serial i () = Some (r, i', ())"
  shows "idm_inv start to (i', held \<union> taken r)" "r = Inr n \<Longrightarrow> n \<in> {start .. to} \<and> n \<notin> held" "r = Inl e \<Longrightarrow> held = {start .. to}"
proof -
  obtain h where h: "i_handle i = Some h" "lone.owns h (offsets start held) (unat (to - start) + 1)" "held \<subseteq> {start .. to}"
    using inv by (auto simp: idm_inv_def)
  have run': "on_handle (SetAny None serial) i h () = Some (r, i', ())" using run h(1) by (simp add: GetID_def)
  have any: "allocated h' (unat (to - start) + 1) (offsets start held) x" if "SetAny None serial h () = Some (x, h', ())" for x h'
    using lone.any_owns [OF h(2) that] unfolding allocated_def by (elim disjE exE conjE) (simp_all only: sum.case simp_thms)
  note a = allocation_keeps_inv [OF inv assms(2) h(1) run']
  show "idm_inv start to (i', held \<union> taken r)" "r = Inr n \<Longrightarrow> n \<in> {start .. to} \<and> n \<notin> held"
    by (rule a [OF any], assumption)+
  show "held = {start .. to}" if r: "r = Inl e"
  proof -
    have "offsets start held = {..< unat (to - start) + 1}"
      using run' by (cases rule: on_handle_cases) (use r lone.any_owns [OF h(2), of serial "()"] in \<open>fastforce+\<close>)
    then have "n \<in> {start .. to} \<Longrightarrow> n \<in> held" for n using offset_bound [of n start to] offset_mem [of n start held] by auto
    then show ?thesis using h(3) by blast
  qed
qed

lemma GetSpecificID_spec:
  assumes inv: "idm_inv start to (i, held)" and "start \<le> to" and run: "GetSpecificID None n i () = Some (r, i', ())"
  shows "idm_inv start to (i', held \<union> taken r)" "(\<exists>m. r = Inr m) \<longleftrightarrow> n \<in> {start .. to} - held" "r = Inr m \<Longrightarrow> m = n"
proof -
  obtain h where h: "i_handle i = Some h" "lone.owns h (offsets start held) (unat (to - start) + 1)" "held \<subseteq> {start .. to}"
    "i_start i = start" "i_end i = to" using inv by (auto simp: idm_inv_def)
  have "idm_inv start to (i', held \<union> taken r) \<and> ((\<exists>m. r = Inr m) \<longleftrightarrow> n \<in> {start .. to} - held) \<and> (\<forall>m. r = Inr m \<longrightarrow> m = n)"
  proof (cases "n \<in> {start .. to}")
    case True
    then have run': "on_handle (SetBit None (n - start)) i h () = Some (r, i', ())"
      using run h(1,4,5) by (auto simp: GetSpecificID_def split: if_splits)
    have b: "unat (n - start) < unat (to - start) + 1" using True offset_bound [of n start to] by simp
    note s = lone.specific_owns [OF h(2) b]
    have "allocated h' (unat (to - start) + 1) (offsets start held) x" if "SetBit None (n - start) h () = Some (x, h', ())" for x h'
      using s [OF that] b by (auto simp: allocated_def)
    then have "idm_inv start to (i', held \<union> taken r)" by (rule allocation_keeps_inv(1) [OF inv assms(2) h(1) run'])
    moreover have "((\<exists>m. r = Inr m) \<longleftrightarrow> n \<notin> held) \<and> (\<forall>m. r = Inr m \<longrightarrow> m = n)"
      using run' by (cases rule: on_handle_cases) (use s offset_mem [of n start held] h(4) in \<open>fastforce+\<close>)
    ultimately show ?thesis using True by simp
  next
    case False
    then have "r = Inl NotInSet" "i' = i" using run h by (auto simp: GetSpecificID_def split: if_splits)
    then show ?thesis using False inv by (auto simp: taken_def)
  qed
  then show "idm_inv start to (i', held \<union> taken r)" "(\<exists>m. r = Inr m) \<longleftrightarrow> n \<in> {start .. to} - held" "r = Inr m \<Longrightarrow> m = n" by simp_all
qed

lemma GetIDInRange_spec:
  assumes inv: "idm_inv start to (i, held)" and "start \<le> to" and "a \<le> b" and run: "GetIDInRange None a b serial i () = Some (r, i', ())"
  shows "idm_inv start to (i', held \<union> taken r)"
proof -
  obtain h where h: "i_handle i = Some h" "lone.owns h (offsets start held) (unat (to - start) + 1)"
    "i_start i = start" "i_end i = to" using inv by (auto simp: idm_inv_def)
  show ?thesis
  proof (cases "a < start \<or> to < b")
    case True
    then have "r = Inl NotInSet" "i' = i" using run h by (auto simp: GetIDInRange_def)
    then show ?thesis using inv by (simp add: taken_def)
  next
    case False
    then have run': "on_handle (SetAnyInRange None (a - start) (b - start) serial) i h () = Some (r, i', ())"
      using run h by (auto simp: GetIDInRange_def)
    have ab: "a - start \<le> b - start" using False assms(3) by uint_arith
    have b: "unat (b - start) < unat (to - start) + 1" using False assms(3) offset_bound [of b start to] by auto
    have "allocated h' (unat (to - start) + 1) (offsets start held) x"
      if "SetAnyInRange None (a - start) (b - start) serial h () = Some (x, h', ())" for x h'
      using lone.in_range_owns [OF h(2) ab b that]
    proof (elim disjE exE conjE)
      fix n assume n: "x = Inr n" "n \<le> b - start" "unat n \<notin> offsets start held"
        "lone.owns h' (insert (unat n) (offsets start held)) (unat (to - start) + 1)"
      have "unat n < unat (to - start) + 1" using n(2) b by (simp add: word_le_nat_alt)
      then show ?thesis using n by (simp add: allocated_def)
    qed (simp add: allocated_def)
    then show ?thesis by (rule allocation_keeps_inv(1) [OF inv assms(2) h(1) run'])
  qed
qed

lemma ReleaseID_spec:
  assumes inv: "idm_inv start to (i, held)" and "n \<in> held" and run: "ReleaseID None n i () = Some (r, i', ())"
  shows "idm_inv start to (i', held - {n})"
proof -
  obtain h where h: "i = \<lparr>i_start = start, i_end = to, i_handle = Some h\<rparr>" "lone.owns h (offsets start held) (unat (to - start) + 1)"
    "held \<subseteq> {start .. to}" using inv by (auto simp: idm_inv_def)
  obtain x h' where u: "Unset None (n - start) h () = Some (x, h', ())" "i' = i\<lparr>i_handle := Some h'\<rparr>"
    using run h(1) by (auto simp: ReleaseID_def split: option.splits)
  have "lone.owns h' (offsets start held - {unat (n - start)}) (unat (to - start) + 1)"
    using lone.unset_owns [OF h(2) _ u(1)] assms(2) by (simp add: offset_mem)
  then show ?thesis using h(1,3) u(2) by (auto simp: idm_inv_def offsets_simps)
qed

lemma New_inv:
  assumes "New None name start to () = (Inr i, ())" and "to - start \<noteq> - 1"
  shows "idm_inv start to (i, {})" "start \<le> to"
proof -
  let ?bits = "1 + to - start"
  have "?bits = (to - start) + 1" by simp
  then have ne: "?bits \<noteq> 0" using assms(2) by (simp only: add_eq_0_iff2) simp
  have i: "i = \<lparr>i_start = start, i_end = to, i_handle = Some (new_handle ''idm'' name ?bits)\<rparr>" and le: "start \<le> to"
    using assms(1) by (auto simp: New_def NewHandle_def fetch_def split: if_splits)
  have "unat ?bits = unat (to - start) + 1" using unatSuc [of "to - start"] ne by (simp add: add_diff_eq)
  then show "idm_inv start to (i, {})" using new_handle_inv [OF ne] i by (simp add: idm_inv_def lone.owns_def offsets_def)
  show "start \<le> to" by (rule le)
qed

lemma idm_reachable:
  assumes "idm_step\<^sup>*\<^sup>* (i0, {}) s" and "idm_inv start to (i0, {})" and "start \<le> to"
  shows "idm_inv start to s"
  using assms(1)
proof (induction rule: rtranclp_induct)
  case (step s t)
  obtain i held i' held' where s: "s = (i, held)" "t = (i', held')" by (cases s, cases t)
  have inv: "idm_inv start to (i, held)" using step(3) s by simp
  from step(2) [unfolded s] show ?case unfolding s
    by (cases rule: idm_stepE)
      (use GetID_spec(1) [OF inv assms(3)] GetSpecificID_spec(1) [OF inv assms(3)] GetIDInRange_spec [OF inv assms(3)] ReleaseID_spec [OF inv]
        in \<open>blast+\<close>)
qed (rule assms(2))

lemma GetID_returns: "idm_inv start to (i, held) \<Longrightarrow> \<exists>r i'. GetID None serial i () = Some (r, i', ())"
proof -
  assume "idm_inv start to (i, held)"
  then obtain h where h: "i_handle i = Some h" "lone.owns h (offsets start held) (unat (to - start) + 1)" by (auto simp: idm_inv_def)
  obtain x h' w' where "SetAny None serial h () = Some (x, h', w')" using lone.any_returns [OF h(2), of serial "()"] by metis
  then show ?thesis using h(1) by (simp add: GetID_def on_handle_def)
qed

section \<open>Properties\<close>

text \<open>C34: The id manager never hands out a number twice: after any sequence of requests and of releases of numbers that are
  held, a request for any number returns a number of the interval that nobody holds, and fails only when all of them are
  held; a request for one number is granted exactly when it lies in the interval and nobody holds it. The interval of all
  64 bit numbers is excluded, whose size does not fit in 64 bits.\<close>

theorem ids_unique:
  assumes "New None name start to () = (Inr i0, ())" and "to - start \<noteq> - 1" and "idm_step\<^sup>*\<^sup>* (i0, {}) (i, held)"
  shows "(\<exists>r i'. GetID None serial i () = Some (r, i', ()) \<and>
      (case r of Inr n \<Rightarrow> n \<in> {start .. to} - held | Inl _ \<Rightarrow> held = {start .. to})) \<and>
    (\<forall>n r i'. GetSpecificID None n i () = Some (r, i', ()) \<longrightarrow> ((\<exists>m. r = Inr m) \<longleftrightarrow> n \<in> {start .. to} - held))"
proof -
  note new = New_inv [OF assms(1,2)]
  have inv: "idm_inv start to (i, held)" by (rule idm_reachable [OF assms(3) new])
  obtain r i' where "GetID None serial i () = Some (r, i', ())" using GetID_returns [OF inv] by blast
  then show ?thesis using GetID_spec [OF inv new(2)] GetSpecificID_spec(2) [OF inv new(2)] by (cases r) auto
qed

theorem ids_unique_witness:
  "\<exists>i0 i. New None ''vxlan'' 100 101 () = (Inr i0, ()) \<and> idm_step\<^sup>*\<^sup>* (i0, {}) (i, {100, 101}) \<and>
    (\<exists>r i'. GetID None False i () = Some (r, i', ()) \<and>
      (case r of Inr n \<Rightarrow> n \<in> {100 .. 101} - {100, 101} | Inl _ \<Rightarrow> {100, 101} = {100 .. (101 :: 64 word)}))"
proof -
  obtain i0 where i0: "New None ''vxlan'' 100 101 () = (Inr i0, ())" by (auto simp: New_def NewHandle_def fetch_def)
  let ?run = "Option.bind (GetID None False i0 ()) (\<lambda>(r, i, _). map_option (\<lambda>(q, j, _). (r, i, q, j)) (GetID None False i ()))"
  have "map_option (\<lambda>(r, i, q, j). (r, q)) (case New None ''vxlan'' 100 101 () of (Inr i0, _) \<Rightarrow>
      Option.bind (GetID None False i0 ()) (\<lambda>(r, i, _). map_option (\<lambda>(q, j, _). (r, i, q, j)) (GetID None False i ()))) =
    Some (Inr 100, Inr 101)" by code_simp
  then have "map_option (\<lambda>(r, i, q, j). (r, q)) ?run = Some (Inr 100, Inr 101)" by (simp add: i0)
  then obtain i j where g: "GetID None False i0 () = Some (Inr 100, i, ())" "GetID None False i () = Some (Inr 101, j, ())"
    by (auto simp: Option.bind_eq_Some_conv)
  have "idm_step (i0, {}) (i, {} \<union> taken (Inr 100))" "idm_step (i, {100}) (j, {100} \<union> taken (Inr 101))"
    using g by (blast intro: idm_step.get)+
  then have run: "idm_step\<^sup>*\<^sup>* (i0, {}) (j, {100, 101})" by (auto simp: taken_def insert_commute)
  have "\<exists>r i'. GetID None False j () = Some (r, i', ()) \<and>
      (case r of Inr n \<Rightarrow> n \<in> {100 .. 101} - {100, 101} | Inl _ \<Rightarrow> {100, 101} = {100 .. (101 :: 64 word)})"
    using ids_unique [OF i0 _ run, of False] by simp
  then show ?thesis using run i0 by blast
qed

end
