(* ===== verification/Spec_Mount.thy ===== *)
theory Spec_Mount
  imports Config Go_Paths
begin

text \<open>The mounts of an OCI specification, \<^verbatim>\<open>createLibcontainerMount\<close> and \<^verbatim>\<open>parseMountOptions\<close> of
  \<^verbatim>\<open>libcontainer/specconv/spec_linux.go\<close>. The tables of options are association lists, and the sets of flags are
  integers used bit by bit. The last section shows what a list of options means: for every flag the last option that
  concerns it decides, and what no table knows is data of the file system.\<close>

section \<open>Flags\<close>

definition MS_RDONLY :: int where "MS_RDONLY = 2 ^ 0"
definition MS_NOSUID :: int where "MS_NOSUID = 2 ^ 1"
definition MS_NODEV :: int where "MS_NODEV = 2 ^ 2"
definition MS_NOEXEC :: int where "MS_NOEXEC = 2 ^ 3"
definition MS_SYNCHRONOUS :: int where "MS_SYNCHRONOUS = 2 ^ 4"
definition MS_REMOUNT :: int where "MS_REMOUNT = 2 ^ 5"
definition MS_MANDLOCK :: int where "MS_MANDLOCK = 2 ^ 6"
definition MS_DIRSYNC :: int where "MS_DIRSYNC = 2 ^ 7"
definition MS_NOATIME :: int where "MS_NOATIME = 2 ^ 10"
definition MS_NODIRATIME :: int where "MS_NODIRATIME = 2 ^ 11"
definition MS_BIND :: int where "MS_BIND = 2 ^ 12"
definition MS_REC :: int where "MS_REC = 2 ^ 14"
definition MS_SILENT :: int where "MS_SILENT = 2 ^ 15"
definition MS_POSIXACL :: int where "MS_POSIXACL = 2 ^ 16"
definition MS_UNBINDABLE :: int where "MS_UNBINDABLE = 2 ^ 17"
definition MS_PRIVATE :: int where "MS_PRIVATE = 2 ^ 18"
definition MS_SLAVE :: int where "MS_SLAVE = 2 ^ 19"
definition MS_SHARED :: int where "MS_SHARED = 2 ^ 20"
definition MS_RELATIME :: int where "MS_RELATIME = 2 ^ 21"
definition MS_I_VERSION :: int where "MS_I_VERSION = 2 ^ 23"
definition MS_STRICTATIME :: int where "MS_STRICTATIME = 2 ^ 24"
definition MS_LAZYTIME :: int where "MS_LAZYTIME = 2 ^ 25"
definition EXT_COPYUP :: int where "EXT_COPYUP = 1"

text \<open>An option that clears its flag and one that sets it\<close>

type_synonym flag_table = "(string \<times> bool \<times> int) list"

definition mount_flags :: flag_table where
  "mount_flags =
    [(''acl'', False, MS_POSIXACL),
     (''async'', True, MS_SYNCHRONOUS),
     (''atime'', True, MS_NOATIME),
     (''bind'', False, MS_BIND),
     (''defaults'', False, 0),
     (''dev'', True, MS_NODEV),
     (''diratime'', True, MS_NODIRATIME),
     (''dirsync'', False, MS_DIRSYNC),
     (''exec'', True, MS_NOEXEC),
     (''iversion'', False, MS_I_VERSION),
     (''lazytime'', False, MS_LAZYTIME),
     (''loud'', True, MS_SILENT),
     (''mand'', False, MS_MANDLOCK),
     (''noacl'', True, MS_POSIXACL),
     (''noatime'', False, MS_NOATIME),
     (''nodev'', False, MS_NODEV),
     (''nodiratime'', False, MS_NODIRATIME),
     (''noexec'', False, MS_NOEXEC),
     (''noiversion'', True, MS_I_VERSION),
     (''nolazytime'', True, MS_LAZYTIME),
     (''nomand'', True, MS_MANDLOCK),
     (''norelatime'', True, MS_RELATIME),
     (''nostrictatime'', True, MS_STRICTATIME),
     (''nosuid'', False, MS_NOSUID),
     (''rbind'', False, MS_BIND OR MS_REC),
     (''relatime'', False, MS_RELATIME),
     (''remount'', False, MS_REMOUNT),
     (''ro'', False, MS_RDONLY),
     (''rw'', True, MS_RDONLY),
     (''silent'', False, MS_SILENT),
     (''strictatime'', False, MS_STRICTATIME),
     (''suid'', True, MS_NOSUID),
     (''sync'', False, MS_SYNCHRONOUS)]"

definition propagationFlags :: "(string \<times> int) list" where
  "propagationFlags =
    [(''private'', MS_PRIVATE),
     (''shared'', MS_SHARED),
     (''slave'', MS_SLAVE),
     (''unbindable'', MS_UNBINDABLE),
     (''rprivate'', MS_PRIVATE OR MS_REC),
     (''rshared'', MS_SHARED OR MS_REC),
     (''rslave'', MS_SLAVE OR MS_REC),
     (''runbindable'', MS_UNBINDABLE OR MS_REC)]"

definition extensionFlags :: flag_table where
  "extensionFlags = [(''tmpcopyup'', False, EXT_COPYUP)]"

section \<open>Parsing options\<close>

record mount_opts =
  mo_flag :: int
  mo_pgflag :: "int list"
  mo_data :: "string list"
  mo_extFlags :: int

definition apply_flag :: "bool \<Rightarrow> int \<Rightarrow> int \<Rightarrow> int" where
  "apply_flag clear f fs = (if clear then fs AND NOT f else fs OR f)"

text \<open>The test \<^verbatim>\<open>f, exists := flags[o]; exists && f.flag != 0\<close>\<close>

definition known_flag :: "flag_table \<Rightarrow> string \<Rightarrow> (bool \<times> int) option" where
  "known_flag tbl opt = (case map_of tbl opt of None \<Rightarrow> None | Some (clear, f) \<Rightarrow> if f \<noteq> 0 then Some (clear, f) else None)"

definition known_propagation :: "string \<Rightarrow> int option" where
  "known_propagation opt = (case map_of propagationFlags opt of None \<Rightarrow> None | Some f \<Rightarrow> if f \<noteq> 0 then Some f else None)"

definition parse_option :: "string \<Rightarrow> mount_opts \<Rightarrow> mount_opts" where
  "parse_option opt s =
    (case known_flag mount_flags opt of
       Some (clear, f) \<Rightarrow> s\<lparr>mo_flag := apply_flag clear f (mo_flag s)\<rparr>
     | None \<Rightarrow>
         (case known_propagation opt of
            Some f \<Rightarrow> s\<lparr>mo_pgflag := mo_pgflag s @ [f]\<rparr>
          | None \<Rightarrow>
              (case known_flag extensionFlags opt of
                 Some (clear, f) \<Rightarrow> s\<lparr>mo_extFlags := apply_flag clear f (mo_extFlags s)\<rparr>
               | None \<Rightarrow> s\<lparr>mo_data := mo_data s @ [opt]\<rparr>)))"

definition parseMountOptions :: "string list \<Rightarrow> int \<times> int list \<times> string \<times> int" where
  "parseMountOptions options =
    (let s = fold parse_option options \<lparr>mo_flag = 0, mo_pgflag = [], mo_data = [], mo_extFlags = 0\<rparr>
     in (mo_flag s, mo_pgflag s, join_with CHR '','' (mo_data s), mo_extFlags s))"

record oci_mount =
  sm_Destination :: string
  sm_Type :: string
  sm_Source :: string
  sm_Options :: "string list"

definition createLibcontainerMount :: "string \<Rightarrow> oci_mount \<Rightarrow> mount" where
  "createLibcontainerMount cwd m =
    (case parseMountOptions (sm_Options m) of (flags, pgflags, data, ext) \<Rightarrow>
      (let bnd = (flags AND MS_BIND \<noteq> 0);
           device = (if bnd then ''bind'' else sm_Type m);
           source = (if bnd \<and> \<not> IsAbs (sm_Source m) then Join [cwd, sm_Source m] else sm_Source m)
       in \<lparr>m_Source = source, m_Destination = sm_Destination m, m_Device = device, m_Flags = flags,
           m_PropagationFlags = pgflags, m_Data = data, m_Relabel = [], m_Extensions = ext\<rparr>))"

section \<open>What the options mean\<close>

text \<open>An option concerns a bit when its table has it and the bit is in its flag. Of the options that concern a bit the
  last one decides.\<close>

definition concerns :: "flag_table \<Rightarrow> nat \<Rightarrow> string \<Rightarrow> bool" where
  "concerns tbl n opt \<longleftrightarrow> (case map_of tbl opt of None \<Rightarrow> False | Some (clear, f) \<Rightarrow> bit f n)"

definition sets_flag :: "flag_table \<Rightarrow> string \<Rightarrow> bool" where
  "sets_flag tbl opt \<longleftrightarrow> (case map_of tbl opt of None \<Rightarrow> False | Some (clear, f) \<Rightarrow> \<not> clear)"

definition last_decides :: "flag_table \<Rightarrow> nat \<Rightarrow> string list \<Rightarrow> bool" where
  "last_decides tbl n opts \<longleftrightarrow> (let cs = filter (concerns tbl n) opts in cs \<noteq> [] \<and> sets_flag tbl (last cs))"

definition is_data :: "string \<Rightarrow> bool" where
  "is_data opt \<longleftrightarrow> opt \<notin> fst ` set mount_flags - {''defaults''} \<and> opt \<notin> fst ` set propagationFlags \<and> opt \<notin> fst ` set extensionFlags"

lemma bit_apply_flag: "bit (apply_flag clear f fs) n \<longleftrightarrow> (if bit f n then \<not> clear else bit fs n)"
  by (auto simp: apply_flag_def bit_and_iff bit_or_iff bit_not_iff)


lemma mount_flags_zero: "\<forall>(k, c, f) \<in> set mount_flags. (f = 0) = (k = ''defaults'')" by code_simp

lemma propagation_nonzero: "\<forall>(k, f) \<in> set propagationFlags. f \<noteq> 0 \<and> k \<notin> fst ` set mount_flags" by code_simp

lemma known_flag_mount: "known_flag mount_flags opt = None \<longleftrightarrow> opt \<notin> fst ` set mount_flags - {''defaults''}"
proof (cases "map_of mount_flags opt")
  case None
  then show ?thesis by (auto simp: known_flag_def map_of_eq_None_iff [THEN iffD1])
next
  case (Some cf)
  then have "(opt, cf) \<in> set mount_flags" by (rule map_of_SomeD)
  then have "(snd cf = 0) = (opt = ''defaults'')" "opt \<in> fst ` set mount_flags" using mount_flags_zero by (force, force)
  then show ?thesis using Some by (cases cf) (simp add: known_flag_def)
qed

lemma known_propagation_eq: "known_propagation opt = map_of propagationFlags opt"
  using propagation_nonzero by (auto simp: known_propagation_def split: option.splits dest!: map_of_SomeD)

lemma known_extension: "known_flag extensionFlags opt = (if opt = ''tmpcopyup'' then Some (False, EXT_COPYUP) else None)"
  by (simp add: known_flag_def extensionFlags_def EXT_COPYUP_def)

lemma propagation_not_flag: "map_of propagationFlags opt = Some f \<Longrightarrow> known_flag mount_flags opt = None"
  using propagation_nonzero by (auto simp: known_flag_mount dest!: map_of_SomeD)

lemma tmpcopyup_only_extension: "known_flag mount_flags ''tmpcopyup'' = None" "map_of propagationFlags ''tmpcopyup'' = None"
  by code_simp+

lemma known_flag_concerns:
  "known_flag tbl opt = None \<Longrightarrow> \<not> concerns tbl n opt"
  "known_flag tbl opt = Some (clear, f) \<Longrightarrow> concerns tbl n opt = bit f n \<and> sets_flag tbl opt = (\<not> clear)"
  by (auto simp: known_flag_def concerns_def sets_flag_def split: option.splits if_splits prod.splits)

lemma last_decides_simps [simp]:
  "\<not> last_decides tbl n []"
  "last_decides tbl n (opts @ [opt]) = (if concerns tbl n opt then sets_flag tbl opt else last_decides tbl n opts)"
  by (simp_all add: last_decides_def Let_def)

lemma is_data_known: "is_data opt \<longleftrightarrow> known_flag mount_flags opt = None \<and> map_of propagationFlags opt = None \<and> known_flag extensionFlags opt = None"
proof -
  have "opt \<notin> fst ` set extensionFlags \<longleftrightarrow> known_flag extensionFlags opt = None"
    by (simp add: known_extension) (simp add: extensionFlags_def)
  then show ?thesis by (simp add: is_data_def known_flag_mount map_of_eq_None_iff)
qed

text \<open>One option: the flags it touches and where it goes\<close>

lemma parse_option_flag:
  "bit (mo_flag (parse_option opt s)) n = (if concerns mount_flags n opt then sets_flag mount_flags opt else bit (mo_flag s) n)"
  by (auto simp: parse_option_def bit_apply_flag known_flag_concerns split: option.splits)

lemma parse_option_ext:
  "bit (mo_extFlags (parse_option opt s)) n =
    (if concerns extensionFlags n opt then sets_flag extensionFlags opt else bit (mo_extFlags s) n)"
proof (cases "opt = ''tmpcopyup''")
  case True
  then show ?thesis
    using known_flag_concerns(2) [of extensionFlags "''tmpcopyup''" False EXT_COPYUP n]
    by (simp add: parse_option_def bit_apply_flag tmpcopyup_only_extension known_propagation_eq known_extension)
next
  case False
  then have "known_flag extensionFlags opt = None" by (simp add: known_extension)
  then show ?thesis using known_flag_concerns(1) by (auto simp: parse_option_def split: option.splits)
qed

lemma parse_option_lists:
  "mo_pgflag (parse_option opt s) = mo_pgflag s @ (case map_of propagationFlags opt of None \<Rightarrow> [] | Some f \<Rightarrow> [f])"
  "mo_data (parse_option opt s) = mo_data s @ (if is_data opt then [opt] else [])"
  using propagation_not_flag [of opt]
  by (cases "map_of propagationFlags opt"; auto simp: parse_option_def known_propagation_eq is_data_known split: option.splits)+

lemma parse_loop:
  assumes "s = fold parse_option opts \<lparr>mo_flag = 0, mo_pgflag = [], mo_data = [], mo_extFlags = 0\<rparr>"
  shows "bit (mo_flag s) n = last_decides mount_flags n opts" "bit (mo_extFlags s) n = last_decides extensionFlags n opts"
    "mo_pgflag s = List.map_filter (map_of propagationFlags) opts" "mo_data s = filter is_data opts"
  using assms
  by (induction opts arbitrary: s rule: rev_induct)
    (auto simp: parse_option_flag parse_option_ext parse_option_lists List.map_filter_def split: option.splits)

lemma bind_and: "fs AND MS_BIND \<noteq> 0 \<longleftrightarrow> bit fs 12"
proof -
  have "fs AND MS_BIND = of_bool (bit fs 12) * 2 ^ 12"
    unfolding MS_BIND_def by (rule bit_eqI) (auto simp: bit_and_iff bit_exp_iff simp del: power_numeral numeral_power_eq_of_nat_cancel_iff)
  then show ?thesis by simp
qed

lemma bind_concerns: "concerns mount_flags 12 opt \<longleftrightarrow> opt = ''bind'' \<or> opt = ''rbind''"
proof -
  have "\<forall>(k, c, f) \<in> set mount_flags. bit f 12 = (k \<in> {''bind'', ''rbind''})" by code_simp
  moreover have "concerns mount_flags 12 ''bind''" "concerns mount_flags 12 ''rbind''" by code_simp+
  moreover have "opt = ''bind'' \<or> opt = ''rbind''" if "concerns mount_flags 12 opt"
    using that calculation(1) by (auto simp: concerns_def split: option.splits dest!: map_of_SomeD)
  ultimately show ?thesis by blast
qed

lemma bind_decides: "last_decides mount_flags 12 opts \<longleftrightarrow> ''bind'' \<in> set opts \<or> ''rbind'' \<in> set opts"
proof -
  have "sets_flag mount_flags ''bind''" "sets_flag mount_flags ''rbind''" by code_simp+
  then show ?thesis by (induction opts rule: rev_induct) (auto simp: bind_concerns)
qed


section \<open>Properties\<close>

text \<open>C37: The conversion of a mount, exactly: a bit of the flags is set when the last option that concerns it sets it, and
  likewise for the extension flags; the propagation flags are those of the propagation options in their order; the data
  is every other option, in order and separated by commas, the option defaults among them. A mount is a bind mount if
  and only if it has the option bind or rbind, wherever these stand; then its type is bind and its source absolute, and
  otherwise both are those of the specification.\<close>

theorem mount_conversion_exact:
  assumes "createLibcontainerMount cwd m = m'" and "IsAbs cwd"
  shows "(\<forall>n. bit (m_Flags m') n \<longleftrightarrow> last_decides mount_flags n (sm_Options m)) \<and>
    (\<forall>n. bit (m_Extensions m') n \<longleftrightarrow> last_decides extensionFlags n (sm_Options m)) \<and>
    m_PropagationFlags m' = List.map_filter (map_of propagationFlags) (sm_Options m) \<and>
    m_Data m' = join_with CHR '','' (filter is_data (sm_Options m)) \<and> m_Destination m' = sm_Destination m \<and>
    (if ''bind'' \<in> set (sm_Options m) \<or> ''rbind'' \<in> set (sm_Options m)
     then m_Device m' = ''bind'' \<and> IsAbs (m_Source m') \<and> (IsAbs (sm_Source m) \<longrightarrow> m_Source m' = sm_Source m)
     else m_Device m' = sm_Type m \<and> m_Source m' = sm_Source m)"
proof -
  let ?s = "fold parse_option (sm_Options m) \<lparr>mo_flag = 0, mo_pgflag = [], mo_data = [], mo_extFlags = 0\<rparr>"
  note loop = parse_loop [OF refl, of "sm_Options m"]
  have bnd: "(mo_flag ?s AND MS_BIND \<noteq> 0) = (''bind'' \<in> set (sm_Options m) \<or> ''rbind'' \<in> set (sm_Options m))"
    by (simp only: bind_and loop(1) bind_decides)
  have abs: "IsAbs (Join [cwd, x])" for x using assms(2) by (auto simp: IsAbs_def [of cwd]) (simp add: IsAbs_def)
  show ?thesis
    using assms(1) bnd abs by (auto simp: createLibcontainerMount_def parseMountOptions_def Let_def loop simp del: Join.simps)
qed


definition ex_oci_mount :: oci_mount where
  "ex_oci_mount = \<lparr>sm_Destination = ''/data'', sm_Type = ''none'', sm_Source = ''data'',
    sm_Options = [''rw'', ''rbind'', ''rslave'', ''size=1k'', ''ro'', ''defaults'']\<rparr>"

theorem mount_conversion_exact_witness:
  "bit (m_Flags (createLibcontainerMount ''/b'' ex_oci_mount)) 0 \<and> m_PropagationFlags (createLibcontainerMount ''/b'' ex_oci_mount) = [540672] \<and>
    m_Data (createLibcontainerMount ''/b'' ex_oci_mount) = ''size=1k,defaults'' \<and>
    m_Device (createLibcontainerMount ''/b'' ex_oci_mount) = ''bind'' \<and> IsAbs (m_Source (createLibcontainerMount ''/b'' ex_oci_mount))"
proof -
  have "IsAbs ''/b''" "last_decides mount_flags 0 (sm_Options ex_oci_mount)"
    "List.map_filter (map_of propagationFlags) (sm_Options ex_oci_mount) = [540672]"
    "join_with CHR '','' (filter is_data (sm_Options ex_oci_mount)) = ''size=1k,defaults''"
    "''rbind'' \<in> set (sm_Options ex_oci_mount)"
    by code_simp+
  then show ?thesis using mount_conversion_exact [OF refl, of "''/b''" ex_oci_mount] by simp
qed

end
