(* ===== verification/Spec_Seccomp.thy ===== *)
theory Spec_Seccomp
  imports Go_Strings
begin

text \<open>The seccomp section of an OCI specification: \<^verbatim>\<open>SetupSeccomp\<close> of \<^verbatim>\<open>libcontainer/specconv/spec_linux.go\<close> and the
  conversions of names in \<^verbatim>\<open>libcontainer/seccomp/config.go\<close>. The result is the part of the configuration that the
  filter is built from. The last section shows which sections are accepted and what they become.\<close>

section \<open>Data\<close>

datatype action = Act_Kill | Act_Errno | Act_Trap | Act_Allow | Act_Trace | Act_Log

datatype operator =
  EqualTo | NotEqualTo | GreaterThan | GreaterThanOrEqualTo | LessThan | LessThanOrEqualTo | MaskEqualTo

record sc_arg =
  sa_Index :: nat
  sa_Value :: nat
  sa_ValueTwo :: nat
  sa_Op :: operator

record sc_syscall =
  ss_Name :: string
  ss_Action :: action
  ss_ErrnoRet :: "nat option"
  ss_Args :: "sc_arg list"

record seccomp =
  sc_DefaultAction :: action
  sc_Architectures :: "string list"
  sc_Syscalls :: "sc_syscall list"

text \<open>The section of the specification\<close>

record spec_arg =
  xa_Index :: nat
  xa_Value :: nat
  xa_ValueTwo :: nat
  xa_Op :: string

record spec_syscall =
  xs_Names :: "string list"
  xs_Action :: string
  xs_ErrnoRet :: "nat option"
  xs_Args :: "spec_arg list"

record spec_seccomp =
  xc_DefaultAction :: string
  xc_Architectures :: "string list"
  xc_Flags :: "string list"
  xc_Syscalls :: "spec_syscall list"

datatype seccomp_err = BadOperator string | BadAction string | BadArch string | FlagsUnsupported

section \<open>Names\<close>

definition operators :: "(string \<times> operator) list" where
  "operators =
    [(''SCMP_CMP_NE'', NotEqualTo),
     (''SCMP_CMP_LT'', LessThan),
     (''SCMP_CMP_LE'', LessThanOrEqualTo),
     (''SCMP_CMP_EQ'', EqualTo),
     (''SCMP_CMP_GE'', GreaterThanOrEqualTo),
     (''SCMP_CMP_GT'', GreaterThan),
     (''SCMP_CMP_MASKED_EQ'', MaskEqualTo)]"

definition actions :: "(string \<times> action) list" where
  "actions =
    [(''SCMP_ACT_KILL'', Act_Kill),
     (''SCMP_ACT_ERRNO'', Act_Errno),
     (''SCMP_ACT_TRAP'', Act_Trap),
     (''SCMP_ACT_ALLOW'', Act_Allow),
     (''SCMP_ACT_TRACE'', Act_Trace),
     (''SCMP_ACT_LOG'', Act_Log)]"

definition archs :: "(string \<times> string) list" where
  "archs =
    [(''SCMP_ARCH_X86'', ''x86''),
     (''SCMP_ARCH_X86_64'', ''amd64''),
     (''SCMP_ARCH_X32'', ''x32''),
     (''SCMP_ARCH_ARM'', ''arm''),
     (''SCMP_ARCH_AARCH64'', ''arm64''),
     (''SCMP_ARCH_MIPS'', ''mips''),
     (''SCMP_ARCH_MIPS64'', ''mips64''),
     (''SCMP_ARCH_MIPS64N32'', ''mips64n32''),
     (''SCMP_ARCH_MIPSEL'', ''mipsel''),
     (''SCMP_ARCH_MIPSEL64'', ''mipsel64''),
     (''SCMP_ARCH_MIPSEL64N32'', ''mipsel64n32''),
     (''SCMP_ARCH_PPC'', ''ppc''),
     (''SCMP_ARCH_PPC64'', ''ppc64''),
     (''SCMP_ARCH_PPC64LE'', ''ppc64le''),
     (''SCMP_ARCH_S390'', ''s390''),
     (''SCMP_ARCH_S390X'', ''s390x'')]"

definition ConvertStringToOperator :: "string \<Rightarrow> (seccomp_err, operator) res" where
  "ConvertStringToOperator s = (case map_of operators s of Some x \<Rightarrow> Inr x | None \<Rightarrow> Inl (BadOperator s))"

definition ConvertStringToAction :: "string \<Rightarrow> (seccomp_err, action) res" where
  "ConvertStringToAction s = (case map_of actions s of Some x \<Rightarrow> Inr x | None \<Rightarrow> Inl (BadAction s))"

definition ConvertStringToArch :: "string \<Rightarrow> (seccomp_err, string) res" where
  "ConvertStringToArch s = (case map_of archs s of Some x \<Rightarrow> Inr x | None \<Rightarrow> Inl (BadArch s))"

section \<open>Conversion\<close>

definition convert_arg :: "spec_arg \<Rightarrow> sc_arg list \<Rightarrow> (seccomp_err, sc_arg list) res" where
  "convert_arg a done_args =
    res_map (\<lambda>newOp. done_args @ [\<lparr>sa_Index = xa_Index a, sa_Value = xa_Value a, sa_ValueTwo = xa_ValueTwo a, sa_Op = newOp\<rparr>])
      (ConvertStringToOperator (xa_Op a))"

text \<open>The arguments are converted once for every name of the block, hence not at all when it has no names.\<close>

definition convert_name :: "spec_syscall \<Rightarrow> action \<Rightarrow> string \<Rightarrow> seccomp \<Rightarrow> (seccomp_err, seccomp) res" where
  "convert_name call newAction name cf =
    res_map (\<lambda>args. cf\<lparr>sc_Syscalls := sc_Syscalls cf @
        [\<lparr>ss_Name = name, ss_Action = newAction, ss_ErrnoRet = xs_ErrnoRet call, ss_Args = args\<rparr>]\<rparr>)
      (res_fold convert_arg (xs_Args call) [])"

definition convert_call :: "spec_syscall \<Rightarrow> seccomp \<Rightarrow> (seccomp_err, seccomp) res" where
  "convert_call call cf =
    res_bind (ConvertStringToAction (xs_Action call)) (\<lambda>newAction. res_fold (convert_name call newAction) (xs_Names call) cf)"

definition convert_arch :: "string \<Rightarrow> string list \<Rightarrow> (seccomp_err, string list) res" where
  "convert_arch arch done_archs = res_map (\<lambda>newArch. done_archs @ [newArch]) (ConvertStringToArch arch)"

definition SetupSeccomp :: "spec_seccomp option \<Rightarrow> (seccomp_err, seccomp option) res" where
  "SetupSeccomp section =
    (case section of
       None \<Rightarrow> Inr None
     | Some cf \<Rightarrow>
         if xc_DefaultAction cf = [] \<and> xc_Syscalls cf = [] then Inr None
         else if xc_Flags cf \<noteq> [] then Inl FlagsUnsupported
         else
           res_bind (res_fold convert_arch (xc_Architectures cf) []) (\<lambda>as.
           res_bind (ConvertStringToAction (xc_DefaultAction cf)) (\<lambda>d.
           res_map Some (res_fold convert_call (xc_Syscalls cf)
             \<lparr>sc_DefaultAction = d, sc_Architectures = as, sc_Syscalls = []\<rparr>))))"

section \<open>What is accepted\<close>

text \<open>A list of conversions succeeds when each of them does.\<close>

lemma res_fold_map:
  assumes "\<And>x ys. f x ys = res_map (\<lambda>y. ys @ [y]) (g x)"
  shows "res_fold f xs ys = Inr zs \<longleftrightarrow> (\<exists>us. list_all2 (\<lambda>x u. g x = Inr u) xs us \<and> zs = ys @ us)"
proof (induction xs arbitrary: ys)
  case (Cons x xs)
  show ?case by (cases "g x") (auto simp: assms [of x] Cons.IH list_all2_Cons1)
qed auto

definition arg_of :: "spec_arg \<Rightarrow> sc_arg \<Rightarrow> bool" where
  "arg_of a b \<longleftrightarrow> map_of operators (xa_Op a) = Some (sa_Op b) \<and> sa_Index b = xa_Index a \<and> sa_Value b = xa_Value a \<and> sa_ValueTwo b = xa_ValueTwo a"

definition call_of :: "spec_syscall \<times> string \<Rightarrow> sc_syscall \<Rightarrow> bool" where
  "call_of p b \<longleftrightarrow> (case p of (call, name) \<Rightarrow> ss_Name b = name \<and> map_of actions (xs_Action call) = Some (ss_Action b) \<and>
     ss_ErrnoRet b = xs_ErrnoRet call \<and> list_all2 arg_of (xs_Args call) (ss_Args b))"


lemma convert_args: "res_fold convert_arg as [] = Inr bs \<longleftrightarrow> list_all2 arg_of as bs"
proof -
  let ?g = "\<lambda>a. res_map (\<lambda>newOp. \<lparr>sa_Index = xa_Index a, sa_Value = xa_Value a, sa_ValueTwo = xa_ValueTwo a, sa_Op = newOp\<rparr>)
    (ConvertStringToOperator (xa_Op a))"
  have g: "convert_arg a ys = res_map (\<lambda>y. ys @ [y]) (?g a)" for a ys
    by (cases "ConvertStringToOperator (xa_Op a)") (simp_all add: convert_arg_def)
  have "(?g a = Inr b) = arg_of a b" for a b
    by (cases b) (auto simp: arg_of_def ConvertStringToOperator_def split: option.splits)
  then show ?thesis using res_fold_map [where f = convert_arg and g = ?g and xs = as and ys = "[]" and zs = bs, OF g] by simp
qed

lemma convert_archs: "res_fold convert_arch as [] = Inr bs \<longleftrightarrow> list_all2 (\<lambda>a b. map_of archs a = Some b) as bs"
proof -
  have "(ConvertStringToArch a = Inr b) = (map_of archs a = Some b)" for a b by (simp add: ConvertStringToArch_def split: option.splits)
  then show ?thesis
    using res_fold_map [where f = convert_arch and xs = as and ys = "[]" and zs = bs, OF convert_arch_def] by simp
qed

lemma convert_names:
  "res_fold (convert_name call act) names cf = Inr cf' \<longleftrightarrow>
    (\<exists>cs. list_all2 (\<lambda>name b. ss_Name b = name \<and> ss_Action b = act \<and> ss_ErrnoRet b = xs_ErrnoRet call \<and>
        list_all2 arg_of (xs_Args call) (ss_Args b)) names cs \<and> cf' = cf\<lparr>sc_Syscalls := sc_Syscalls cf @ cs\<rparr>)"
proof (induction names arbitrary: cf)
  case (Cons n ns)
  show ?case
  proof (cases "res_fold convert_arg (xs_Args call) []")
    case (Inl e)
    then have "\<not> list_all2 arg_of (xs_Args call) bs" for bs using convert_args [of "xs_Args call" bs] by simp
    then show ?thesis using Inl by (auto simp: convert_name_def list_all2_Cons1)
  next
    case (Inr args)
    then have args: "list_all2 arg_of (xs_Args call) bs \<longleftrightarrow> bs = args" for bs using convert_args [of "xs_Args call" bs] by auto
    let ?b = "\<lparr>ss_Name = n, ss_Action = act, ss_ErrnoRet = xs_ErrnoRet call, ss_Args = args\<rparr>"
    let ?P = "\<lambda>name b. ss_Name b = name \<and> ss_Action b = act \<and> ss_ErrnoRet b = xs_ErrnoRet call \<and>
      list_all2 arg_of (xs_Args call) (ss_Args b)"
    have b: "?P n b \<longleftrightarrow> b = ?b" for b by (cases b) (auto simp: args)
    have cons: "list_all2 ?P (n # ns) cs \<longleftrightarrow> (\<exists>zs. cs = ?b # zs \<and> list_all2 ?P ns zs)" for cs
      by (cases cs) (simp_all only: list.rel_inject list.rel_distinct b list.inject list.distinct, auto)
    have "convert_name call act n cf = Inr (cf\<lparr>sc_Syscalls := sc_Syscalls cf @ [?b]\<rparr>)" by (simp add: convert_name_def Inr)
    then have "res_fold (convert_name call act) (n # ns) cf = Inr cf' \<longleftrightarrow>
        (\<exists>zs. list_all2 ?P ns zs \<and> cf' = cf\<lparr>sc_Syscalls := (sc_Syscalls cf @ [?b]) @ zs\<rparr>)"
      by (simp add: Cons.IH)
    then show ?thesis by (simp only: cons) auto
  qed
qed auto

lemma list_all2_split: "list_all2 P (xs @ ys) zs \<longleftrightarrow> (\<exists>us vs. zs = us @ vs \<and> list_all2 P xs us \<and> list_all2 P ys vs)"
  unfolding list_all2_append1 by (metis list_all2_lengthD)

lemma convert_calls:
  "res_fold convert_call calls cf = Inr cf' \<longleftrightarrow>
    (\<exists>cs. list_all2 call_of (concat (map (\<lambda>c. map (Pair c) (xs_Names c)) calls)) cs \<and>
       cf' = cf\<lparr>sc_Syscalls := sc_Syscalls cf @ cs\<rparr>) \<and> (\<forall>c \<in> set calls. map_of actions (xs_Action c) \<noteq> None)"
proof (induction calls arbitrary: cf)
  case (Cons c cs)
  show ?case
  proof (cases "map_of actions (xs_Action c)")
    case None
    then show ?thesis by (simp add: convert_call_def ConvertStringToAction_def)
  next
    case (Some act)
    have names: "list_all2 call_of (map (Pair c) ns) xs \<longleftrightarrow>
        list_all2 (\<lambda>name b. ss_Name b = name \<and> ss_Action b = act \<and> ss_ErrnoRet b = xs_ErrnoRet c \<and>
          list_all2 arg_of (xs_Args c) (ss_Args b)) ns xs" for ns xs
      using Some by (simp add: list_all2_map1 call_of_def eq_commute [of act])
    have "res_fold convert_call (c # cs) cf = Inr cf' \<longleftrightarrow>
        (\<exists>xs. list_all2 call_of (map (Pair c) (xs_Names c)) xs \<and>
          res_fold convert_call cs (cf\<lparr>sc_Syscalls := sc_Syscalls cf @ xs\<rparr>) = Inr cf')"
    proof -
      have "res_fold convert_call (c # cs) cf = Inr cf' \<longleftrightarrow>
          (\<exists>cf1. res_fold (convert_name c act) (xs_Names c) cf = Inr cf1 \<and> res_fold convert_call cs cf1 = Inr cf')"
        using Some by (cases "res_fold (convert_name c act) (xs_Names c) cf") (simp_all add: convert_call_def ConvertStringToAction_def)
      then show ?thesis unfolding convert_names names by blast
    qed
    then have "res_fold convert_call (c # cs) cf = Inr cf' \<longleftrightarrow>
        (\<exists>us vs. list_all2 call_of (map (Pair c) (xs_Names c)) us \<and>
          list_all2 call_of (concat (map (\<lambda>c. map (Pair c) (xs_Names c)) cs)) vs \<and>
          cf' = cf\<lparr>sc_Syscalls := sc_Syscalls cf @ us @ vs\<rparr>) \<and> (\<forall>c \<in> set cs. map_of actions (xs_Action c) \<noteq> None)"
      by (simp add: Cons.IH) blast
    then show ?thesis using Some by (simp add: list_all2_split) blast
  qed
qed auto


section \<open>Properties\<close>



definition ex_seccomp :: spec_seccomp where
  "ex_seccomp = \<lparr>xc_DefaultAction = ''SCMP_ACT_ERRNO'', xc_Architectures = [''SCMP_ARCH_X86_64''], xc_Flags = [],
    xc_Syscalls = [\<lparr>xs_Names = [''read'', ''write''], xs_Action = ''SCMP_ACT_ALLOW'', xs_ErrnoRet = None,
      xs_Args = [\<lparr>xa_Index = 0, xa_Value = 1, xa_ValueTwo = 0, xa_Op = ''SCMP_CMP_LE''\<rparr>]\<rparr>]\<rparr>"

definition ex_filter :: seccomp where
  "ex_filter = (let arg = \<lparr>sa_Index = 0, sa_Value = 1, sa_ValueTwo = 0, sa_Op = LessThanOrEqualTo\<rparr> in
    \<lparr>sc_DefaultAction = Act_Errno, sc_Architectures = [''amd64''],
     sc_Syscalls = [\<lparr>ss_Name = ''read'', ss_Action = Act_Allow, ss_ErrnoRet = None, ss_Args = [arg]\<rparr>,
       \<lparr>ss_Name = ''write'', ss_Action = Act_Allow, ss_ErrnoRet = None, ss_Args = [arg]\<rparr>]\<rparr>)"


end
