(* ===== verification/Spec_Cgroup.thy ===== *)
theory Spec_Cgroup
  imports Config Go_Paths Cgroup_V2 Spec_Seccomp
begin

text \<open>The cgroup and device sections of an OCI specification: \<^verbatim>\<open>CreateCgroupConfig\<close> with the systemd properties,
  \<^verbatim>\<open>createDevices\<close> and the default devices of \<^verbatim>\<open>libcontainer/specconv/spec_linux.go\<close>. Pointers of the specification are
  options, and Go maps are association lists in the order in which the loop meets the entries. The default devices are
  objects that every configuration shares, so they are a store that the conversion reads and writes: a node of the
  configuration is a position in the store or an object of its own. Parsing a D-Bus value and the arithmetic on its
  floating-point numbers belong to other packages and are the record \<^verbatim>\<open>conv_env\<close>, with the working directory.\<close>

section \<open>Specification\<close>

record spec_device =
  sd_Path :: string
  sd_Type :: string
  sd_Major :: int
  sd_Minor :: int
  sd_FileMode :: "nat option"
  sd_UID :: "nat option"
  sd_GID :: "nat option"

record spec_device_cgroup =
  dc_Allow :: bool
  dc_Type :: string
  dc_Major :: "int option"
  dc_Minor :: "int option"
  dc_Access :: string

record spec_memory =
  me_Limit :: "int option"
  me_Reservation :: "int option"
  me_Swap :: "int option"
  me_Kernel :: "int option"
  me_KernelTCP :: "int option"
  me_Swappiness :: "nat option"
  me_DisableOOMKiller :: "bool option"

record spec_cpu =
  cu_Shares :: "nat option"
  cu_Quota :: "int option"
  cu_Period :: "nat option"
  cu_RealtimeRuntime :: "int option"
  cu_RealtimePeriod :: "nat option"
  cu_Cpus :: string
  cu_Mems :: string

record spec_weight_device =
  sw_Major :: int
  sw_Minor :: int
  sw_Weight :: "nat option"
  sw_LeafWeight :: "nat option"

record spec_throttle_device =
  st_Major :: int
  st_Minor :: int
  st_Rate :: nat

record spec_blockio =
  bi_Weight :: "nat option"
  bi_LeafWeight :: "nat option"
  bi_WeightDevice :: "spec_weight_device list"
  bi_ThrottleReadBpsDevice :: "spec_throttle_device list"
  bi_ThrottleWriteBpsDevice :: "spec_throttle_device list"
  bi_ThrottleReadIOPSDevice :: "spec_throttle_device list"
  bi_ThrottleWriteIOPSDevice :: "spec_throttle_device list"

record spec_network =
  sn_ClassID :: "nat option"
  sn_Priorities :: "(string \<times> nat) list"

record spec_resources =
  sr_Devices :: "spec_device_cgroup list"
  sr_Memory :: "spec_memory option"
  sr_CPU :: "spec_cpu option"
  sr_Pids :: "int option"
  sr_BlockIO :: "spec_blockio option"
  sr_HugepageLimits :: "(string \<times> nat) list"
  sr_Network :: "spec_network option"
  sr_Unified :: "(string \<times> string) list"

record spec_id_mapping =
  si_ContainerID :: nat
  si_HostID :: nat
  si_Size :: nat

record spec_namespace =
  sp_NsType :: string
  sp_NsPath :: string

record spec_linux =
  sl_UIDMappings :: "spec_id_mapping list"
  sl_GIDMappings :: "spec_id_mapping list"
  sl_Sysctl :: "(string \<times> string) list"
  sl_Resources :: "spec_resources option"
  sl_CgroupsPath :: string
  sl_Namespaces :: "spec_namespace list"
  sl_Devices :: "spec_device list"
  sl_Seccomp :: "spec_seccomp option"
  sl_RootfsPropagation :: string
  sl_MaskedPaths :: "string list"
  sl_ReadonlyPaths :: "string list"
  sl_MountLabel :: string
  sl_IntelRdt :: "intel_rdt option"

datatype conv_err =
    WdErr go_err | RootMissing | NilDeref
  | BadPropagation string | UnsafePropagation | BadNamespace string | DuplicateNamespace string
  | IdErr config_err | SeccompErr seccomp_err
  | BadPropertyName string string | BadVariant string string go_err | NotANumber string string
  | BadCgroupsPath string | EmptyAccess nat | BadCgroupDeviceType string | BadDeviceType string

text \<open>A D-Bus value by the signature of its type; only numbers are looked at.\<close>

datatype 'f variant =
    V_y "8 word" | V_n "16 word" | V_q "16 word" | V_i "32 word" | V_u "32 word" | V_x "64 word" | V_t "64 word"
  | V_d 'f | V_other string

record 'f conv_env =
  ce_wd :: "(go_err, string) res"
  ce_ParseVariant :: "string \<Rightarrow> (go_err, 'f variant) res"
  ce_FloatUSec :: "'f \<Rightarrow> 64 word"

section \<open>Systemd properties\<close>

definition is_lower :: "char \<Rightarrow> bool" where
  "is_lower c \<longleftrightarrow> (let n = (of_char c :: nat) in 97 \<le> n \<and> n \<le> 122)"

definition is_latin :: "char \<Rightarrow> bool" where
  "is_latin c \<longleftrightarrow> is_lower c \<or> (let n = (of_char c :: nat) in 65 \<le> n \<and> n \<le> 90)"

text \<open>The expressions \<^verbatim>\<open>^[a-zA-Z]{3,}$\<close> and \<^verbatim>\<open>[a-z]Sec$\<close>\<close>

definition isValidName :: "string \<Rightarrow> bool" where
  "isValidName s \<longleftrightarrow> 3 \<le> length s \<and> list_all is_latin s"

definition isSecSuffix :: "string \<Rightarrow> bool" where
  "isSecSuffix s \<longleftrightarrow> has_suffix s ''Sec'' \<and> (let p = trim_suffix s ''Sec'' in p \<noteq> [] \<and> is_lower (last p))"

text \<open>The conversions and the multiplication are on \<^verbatim>\<open>uint64\<close>; signed numbers are sign-extended.\<close>

definition convertSecToUSec :: "('f \<Rightarrow> 64 word) \<Rightarrow> 'f variant \<Rightarrow> 'f variant option" where
  "convertSecToUSec fl v =
    (case v of
       V_y b \<Rightarrow> Some (V_t (ucast b * 1000000))
     | V_n i \<Rightarrow> Some (V_t (scast i * 1000000))
     | V_q n \<Rightarrow> Some (V_t (ucast n * 1000000))
     | V_i i \<Rightarrow> Some (V_t (scast i * 1000000))
     | V_u n \<Rightarrow> Some (V_t (ucast n * 1000000))
     | V_x i \<Rightarrow> Some (V_t (i * 1000000))
     | V_t n \<Rightarrow> Some (V_t (n * 1000000))
     | V_d d \<Rightarrow> Some (V_t (fl d))
     | V_other s \<Rightarrow> None)"

definition systemd_prop :: "'f conv_env \<Rightarrow> string \<times> string \<Rightarrow> (string \<times> 'f variant) list \<Rightarrow>
  (conv_err, (string \<times> 'f variant) list) res" where
  "systemd_prop env kv sp =
    (case kv of (k, v) \<Rightarrow>
      (let name = trim_prefix k ''org.systemd.property.'' in
       if length name = length k then Inr sp
       else if \<not> isValidName name then Inl (BadPropertyName k name)
       else case ce_ParseVariant env v of
         Inl e \<Rightarrow> Inl (BadVariant k v e)
       | Inr value \<Rightarrow>
           if isSecSuffix name then
             (case convertSecToUSec (ce_FloatUSec env) value of
                None \<Rightarrow> Inl (NotANumber k v)
              | Some usec \<Rightarrow> Inr (sp @ [(trim_suffix name ''Sec'' @ ''USec'', usec)]))
           else Inr (sp @ [(name, value)])))"

definition initSystemdProps :: "'f conv_env \<Rightarrow> (string \<times> string) list \<Rightarrow> (conv_err, (string \<times> 'f variant) list) res" where
  "initSystemdProps env annotations = res_fold (systemd_prop env) annotations []"


section \<open>Device rules\<close>

definition stringToCgroupDeviceRune :: "string \<Rightarrow> (conv_err, dev_type) res" where
  "stringToCgroupDeviceRune s =
    (if s = ''a'' then Inr WildcardDevice
     else if s = ''b'' then Inr BlockDevice
     else if s = ''c'' then Inr CharDevice
     else Inl (BadCgroupDeviceType s))"

definition stringToDeviceRune :: "string \<Rightarrow> (conv_err, dev_type) res" where
  "stringToDeviceRune s =
    (if s = ''p'' then Inr FifoDevice
     else if s = ''u'' \<or> s = ''c'' then Inr CharDevice
     else if s = ''b'' then Inr BlockDevice
     else Inl (BadDeviceType s))"

definition or_default :: "'a \<Rightarrow> 'a option \<Rightarrow> 'a" where
  "or_default z x = (case x of None \<Rightarrow> z | Some v \<Rightarrow> v)"

definition device_rule :: "nat \<times> spec_device_cgroup \<Rightarrow> rule list \<Rightarrow> (conv_err, rule list) res" where
  "device_rule p rs =
    (case p of (i, d) \<Rightarrow>
      (let t = (if dc_Type d \<noteq> [] then dc_Type d else ''a'') in
       if dc_Access d = [] then Inl (EmptyAccess i)
       else res_map (\<lambda>dt. rs @ [\<lparr>r_type = dt, r_major = or_default (-1) (dc_Major d), r_minor = or_default (-1) (dc_Minor d),
                               r_perms = dc_Access d, r_allow = dc_Allow d\<rparr>])
              (stringToCgroupDeviceRune t)))"

definition device_rules :: "spec_device_cgroup list \<Rightarrow> (conv_err, rule list) res" where
  "device_rules ds = res_fold device_rule (enumerate 0 ds) []"

section \<open>Resources\<close>

text \<open>A field is set when the specification has it.\<close>

definition opt_set :: "'a option \<Rightarrow> ('a \<Rightarrow> 's \<Rightarrow> 's) \<Rightarrow> 's \<Rightarrow> 's" where
  "opt_set x f s = (case x of None \<Rightarrow> s | Some v \<Rightarrow> f v s)"

definition memory_resources :: "spec_memory \<Rightarrow> resources \<Rightarrow> resources" where
  "memory_resources m r =
    fold (\<lambda>f. f)
      [opt_set (me_Limit m) (\<lambda>v r. r\<lparr>r_Memory := v\<rparr>),
       opt_set (me_Reservation m) (\<lambda>v r. r\<lparr>r_MemoryReservation := v\<rparr>),
       opt_set (me_Swap m) (\<lambda>v r. r\<lparr>r_MemorySwap := v\<rparr>),
       opt_set (me_Kernel m) (\<lambda>v r. r\<lparr>r_KernelMemory := v\<rparr>),
       opt_set (me_KernelTCP m) (\<lambda>v r. r\<lparr>r_KernelMemoryTCP := v\<rparr>),
       opt_set (me_Swappiness m) (\<lambda>v r. r\<lparr>r_MemorySwappiness := Some v\<rparr>),
       opt_set (me_DisableOOMKiller m) (\<lambda>v r. r\<lparr>r_OomKillDisable := v\<rparr>)] r"

definition cpu_resources :: "spec_cpu \<Rightarrow> resources \<Rightarrow> resources" where
  "cpu_resources c r =
    fold (\<lambda>f. f)
      [opt_set (cu_Shares c) (\<lambda>v r. r\<lparr>r_CpuShares := v, r_CpuWeight := unat (ConvertCPUSharesToCgroupV2Value (of_nat v))\<rparr>),
       opt_set (cu_Quota c) (\<lambda>v r. r\<lparr>r_CpuQuota := v\<rparr>),
       opt_set (cu_Period c) (\<lambda>v r. r\<lparr>r_CpuPeriod := v\<rparr>),
       opt_set (cu_RealtimeRuntime c) (\<lambda>v r. r\<lparr>r_CpuRtRuntime := v\<rparr>),
       opt_set (cu_RealtimePeriod c) (\<lambda>v r. r\<lparr>r_CpuRtPeriod := v\<rparr>),
       (\<lambda>r. if cu_Cpus c \<noteq> [] then r\<lparr>r_CpusetCpus := cu_Cpus c\<rparr> else r),
       (\<lambda>r. if cu_Mems c \<noteq> [] then r\<lparr>r_CpusetMems := cu_Mems c\<rparr> else r)] r"

definition NewWeightDevice :: "int \<Rightarrow> int \<Rightarrow> nat \<Rightarrow> nat \<Rightarrow> weightDevice" where
  "NewWeightDevice major minor weight leafWeight =
    \<lparr>bd_Major = major, bd_Minor = minor, wd_Weight = weight, wd_LeafWeight = leafWeight\<rparr>"

definition NewThrottleDevice :: "int \<Rightarrow> int \<Rightarrow> nat \<Rightarrow> throttleDevice" where
  "NewThrottleDevice major minor rate = \<lparr>bd_Major = major, bd_Minor = minor, td_Rate = rate\<rparr>"

definition throttle_devices :: "spec_throttle_device list \<Rightarrow> throttleDevice list" where
  "throttle_devices ds = map (\<lambda>d. NewThrottleDevice (st_Major d) (st_Minor d) (st_Rate d)) ds"

definition weight_devices :: "spec_weight_device list \<Rightarrow> weightDevice list" where
  "weight_devices ds =
    map (\<lambda>d. NewWeightDevice (sw_Major d) (sw_Minor d) (or_default 0 (sw_Weight d)) (or_default 0 (sw_LeafWeight d))) ds"

definition blockio_resources :: "spec_blockio \<Rightarrow> resources \<Rightarrow> resources" where
  "blockio_resources b r =
    (opt_set (bi_LeafWeight b) (\<lambda>v r. r\<lparr>r_BlkioLeafWeight := v\<rparr>)
      (opt_set (bi_Weight b) (\<lambda>v r. r\<lparr>r_BlkioWeight := v\<rparr>) r))
    \<lparr>r_BlkioWeightDevice := r_BlkioWeightDevice r @ weight_devices (bi_WeightDevice b),
     r_BlkioThrottleReadBpsDevice := r_BlkioThrottleReadBpsDevice r @ throttle_devices (bi_ThrottleReadBpsDevice b),
     r_BlkioThrottleWriteBpsDevice := r_BlkioThrottleWriteBpsDevice r @ throttle_devices (bi_ThrottleWriteBpsDevice b),
     r_BlkioThrottleReadIOPSDevice := r_BlkioThrottleReadIOPSDevice r @ throttle_devices (bi_ThrottleReadIOPSDevice b),
     r_BlkioThrottleWriteIOPSDevice := r_BlkioThrottleWriteIOPSDevice r @ throttle_devices (bi_ThrottleWriteIOPSDevice b)\<rparr>"

definition network_resources :: "spec_network \<Rightarrow> resources \<Rightarrow> resources" where
  "network_resources n r =
    (opt_set (sn_ClassID n) (\<lambda>v r. r\<lparr>r_NetClsClassid := v\<rparr>) r)
    \<lparr>r_NetPrioIfpriomap := r_NetPrioIfpriomap r @
       map (\<lambda>(name, prio). \<lparr>ip_Interface = name, ip_Priority = int prio\<rparr>) (sn_Priorities n)\<rparr>"

definition spec_limits :: "spec_resources \<Rightarrow> resources \<Rightarrow> resources" where
  "spec_limits sr r =
    fold (\<lambda>f. f)
      [opt_set (sr_Memory sr) memory_resources,
       opt_set (sr_CPU sr) cpu_resources,
       opt_set (sr_Pids sr) (\<lambda>v r. r\<lparr>r_PidsLimit := v\<rparr>),
       opt_set (sr_BlockIO sr) blockio_resources,
       (\<lambda>r. r\<lparr>r_HugetlbLimit := r_HugetlbLimit r @ map (\<lambda>(size, limit). \<lparr>hp_Pagesize = size, hp_Limit = limit\<rparr>) (sr_HugepageLimits sr)\<rparr>),
       opt_set (sr_Network sr) network_resources,
       (\<lambda>r. if sr_Unified sr \<noteq> [] then r\<lparr>r_Unified := Some (sr_Unified sr)\<rparr> else r)] r"

section \<open>The cgroup\<close>

definition cgroup_names :: "bool \<Rightarrow> string \<Rightarrow> string \<Rightarrow> cgroup \<Rightarrow> (conv_err, cgroup) res" where
  "cgroup_names useSystemdCgroup name myCgroupPath c =
    (if useSystemdCgroup then
       if myCgroupPath = [] then Inr (c\<lparr>cg_Parent := ''system.slice'', cg_ScopePrefix := ''runc'', cg_Name := name\<rparr>)
       else (case split_on CHR '':'' myCgroupPath of
               [p0, p1, p2] \<Rightarrow> Inr (c\<lparr>cg_Parent := p0, cg_ScopePrefix := p1, cg_Name := p2\<rparr>)
             | _ \<Rightarrow> Inl (BadCgroupsPath myCgroupPath))
     else Inr (if myCgroupPath = [] then c\<lparr>cg_Name := name, cg_Path := []\<rparr> else c\<lparr>cg_Path := myCgroupPath\<rparr>))"

definition cgroup_path :: "bool \<Rightarrow> spec_linux option \<Rightarrow> string" where
  "cgroup_path useSystemdCgroup lin =
    (case lin of
       None \<Rightarrow> []
     | Some l \<Rightarrow>
         if sl_CgroupsPath l = [] then []
         else if useSystemdCgroup then sl_CgroupsPath l
         else CleanPath (sl_CgroupsPath l))"

definition spec_resources_of :: "spec_linux option \<Rightarrow> resources \<Rightarrow> (conv_err, resources) res" where
  "spec_resources_of lin r =
    (case lin of
       None \<Rightarrow> Inr r
     | Some l \<Rightarrow>
         (case sl_Resources l of
            None \<Rightarrow> Inr r
          | Some sr \<Rightarrow> res_map (\<lambda>rules. spec_limits sr (r\<lparr>r_Devices := r_Devices r @ rules\<rparr>)) (device_rules (sr_Devices sr))))"

text \<open>The properties for systemd are a result of their own beside the cgroup.\<close>

definition CreateCgroupConfig :: "'f conv_env \<Rightarrow> bool \<Rightarrow> string \<Rightarrow> (string \<times> string) list \<Rightarrow> spec_linux option \<Rightarrow> rule list \<Rightarrow>
  (conv_err, cgroup \<times> (string \<times> 'f variant) list) res" where
  "CreateCgroupConfig env useSystemdCgroup name annotations lin defaultDevs =
    res_bind (if useSystemdCgroup then initSystemdProps env annotations else Inr []) (\<lambda>sp.
    res_bind (cgroup_names useSystemdCgroup name (cgroup_path useSystemdCgroup lin)
      \<lparr>cg_Name = [], cg_Parent = [], cg_Path = [], cg_ScopePrefix = [], cg_Paths = None, cg_Resources = empty_resources\<rparr>) (\<lambda>c.
    res_map (\<lambda>r. (c\<lparr>cg_Resources := r\<lparr>r_Devices := r_Devices r @ defaultDevs\<rparr>\<rparr>, sp))
      (spec_resources_of lin (cg_Resources c))))"

section \<open>Devices\<close>

definition default_device :: "string \<Rightarrow> int \<Rightarrow> int \<Rightarrow> device" where
  "default_device path major minor =
    \<lparr>r_type = CharDevice, r_major = major, r_minor = minor, r_perms = ''rwm'', r_allow = True,
     d_Path = path, d_FileMode = (if path = [] then 0 else 438), d_Uid = 0, d_Gid = 0\<rparr>"

definition mknod_device :: "dev_type \<Rightarrow> device" where
  "mknod_device t =
    \<lparr>r_type = t, r_major = Wildcard, r_minor = Wildcard, r_perms = ''m'', r_allow = True,
     d_Path = [], d_FileMode = 0, d_Uid = 0, d_Gid = 0\<rparr>"

definition AllowedDevices :: "device list" where
  "AllowedDevices =
    [mknod_device CharDevice,
     mknod_device BlockDevice,
     default_device ''/dev/null'' 1 3,
     default_device ''/dev/random'' 1 8,
     default_device ''/dev/full'' 1 7,
     default_device ''/dev/tty'' 5 0,
     default_device ''/dev/zero'' 1 5,
     default_device ''/dev/urandom'' 1 9,
     default_device [] 136 Wildcard,
     default_device [] 5 2,
     default_device [] 10 200]"

text \<open>A node of the configuration: one of the shared default devices, or an object of its own\<close>

datatype dev_node = Shared nat | Own device

definition shadowed :: "spec_device list \<Rightarrow> device \<Rightarrow> bool" where
  "shadowed sds ad \<longleftrightarrow> d_Path ad \<noteq> [] \<and> (\<exists>sd \<in> set sds. sd_Path sd = d_Path ad)"

definition kept_defaults :: "spec_device list \<Rightarrow> device list \<Rightarrow> nat list" where
  "kept_defaults sds allowed = filter (\<lambda>i. \<not> shadowed sds (allowed ! i)) [0..<length allowed]"

definition spec_node :: "spec_device \<Rightarrow> dev_node list \<Rightarrow> (conv_err, dev_node list) res" where
  "spec_node d nodes =
    res_map (\<lambda>dt. nodes @
        [Own \<lparr>r_type = dt, r_major = sd_Major d, r_minor = sd_Minor d, r_perms = [], r_allow = False,
              d_Path = sd_Path d,
              d_FileMode = (case sd_FileMode d of None \<Rightarrow> 438 | Some mode \<Rightarrow> unat ((of_nat mode :: 32 word) AND NOT 0xF000)),
              d_Uid = or_default 0 (sd_UID d), d_Gid = or_default 0 (sd_GID d)\<rparr>])
      (stringToDeviceRune (sd_Type d))"

text \<open>The loop over the default devices reads \<^verbatim>\<open>spec.Linux.Devices\<close> at the first one that has a path, without a nil
  test.\<close>

definition createDevices :: "spec_linux option \<Rightarrow> device list \<Rightarrow> (conv_err, nat list \<times> dev_node list) res" where
  "createDevices lin allowed =
    (case lin of
       None \<Rightarrow>
         if \<exists>ad \<in> set allowed. d_Path ad \<noteq> [] then Inl NilDeref
         else Inr ([0..<length allowed], [])
     | Some l \<Rightarrow>
         (let kept = kept_defaults (sl_Devices l) allowed in
          res_map (Pair kept)
            (res_fold spec_node (sl_Devices l) (map Shared (filter (\<lambda>i. d_Path (allowed ! i) \<noteq> []) kept)))))"

definition deref :: "device list \<Rightarrow> dev_node \<Rightarrow> device" where
  "deref allowed n = (case n of Shared i \<Rightarrow> allowed ! i | Own d \<Rightarrow> d)"


section \<open>What the sections become\<close>

lemma res_fold_extends:
  assumes "\<And>x ys zs. f x ys = Inr zs \<Longrightarrow> \<exists>us. zs = ys @ us \<and> P us" and "P []" and "\<And>us vs. P us \<Longrightarrow> P vs \<Longrightarrow> P (us @ vs)"
    and "res_fold f xs ys = Inr zs"
  shows "\<exists>us. zs = ys @ us \<and> P us"
  using assms(4)
proof (induction xs arbitrary: ys)
  case (Cons x xs)
  then obtain ys1 where y: "f x ys = Inr ys1" "res_fold f xs ys1 = Inr zs" by (auto split: sum.splits)
  from Cons.IH [OF y(2)] assms(1) [OF y(1)] assms(3) show ?case by (metis append_assoc)
qed (use assms(2) in auto)

lemma device_rule_ok:
  assumes "device_rule p rs = Inr rs'"
  shows "\<exists>us. rs' = rs @ us \<and> (\<forall>r \<in> set us. type_CanCgroup (r_type r) \<and> r_perms r \<noteq> [])"
proof -
  have "type_CanCgroup dt" if "stringToCgroupDeviceRune t = Inr dt" for t dt
    using that unfolding stringToCgroupDeviceRune_def by (auto simp: type_CanCgroup_def split: if_split_asm)
  then show ?thesis using assms by (cases p) (auto simp: device_rule_def Let_def res_map_eq_Inr split: if_split_asm)
qed

lemma device_rules_ok:
  assumes "device_rules ds = Inr rs" and "r \<in> set rs"
  shows "type_CanCgroup (r_type r) \<and> r_perms r \<noteq> []"
proof -
  let ?P = "\<lambda>us. \<forall>r \<in> set us. type_CanCgroup (r_type r) \<and> r_perms r \<noteq> []"
  have "\<exists>us. rs = [] @ us \<and> ?P us"
    by (rule res_fold_extends [OF device_rule_ok]) (use assms(1) in \<open>auto simp: device_rules_def\<close>)
  then show ?thesis using assms(2) by auto
qed

lemma opt_set_keeps: "(\<And>v s. g (f v s) = g s) \<Longrightarrow> g (opt_set x f s) = g s"
  by (cases x) (simp_all add: opt_set_def)

lemma sections_keep_devices:
  "r_Devices (memory_resources m r) = r_Devices r" "r_Devices (cpu_resources c r) = r_Devices r"
  "r_Devices (blockio_resources b r) = r_Devices r" "r_Devices (network_resources n r) = r_Devices r"
  by (simp_all add: memory_resources_def cpu_resources_def blockio_resources_def network_resources_def opt_set_keeps [where g = r_Devices])

lemma spec_limits_devices [simp]: "r_Devices (spec_limits sr r) = r_Devices r"
  by (simp add: spec_limits_def opt_set_keeps [where g = r_Devices] sections_keep_devices)

text \<open>The rules the specification itself gives\<close>

definition user_rules :: "spec_linux \<Rightarrow> (conv_err, rule list) res" where
  "user_rules l = (case sl_Resources l of None \<Rightarrow> Inr [] | Some sr \<Rightarrow> device_rules (sr_Devices sr))"

lemma cgroup_names_resources: "cgroup_names sd name path c = Inr c' \<Longrightarrow> cg_Resources c' = cg_Resources c"
proof (cases "sd \<and> path \<noteq> []")
  case True
  assume "cgroup_names sd name path c = Inr c'"
  then have "(case split_on CHR '':'' path of [p0, p1, p2] \<Rightarrow> Inr (c\<lparr>cg_Parent := p0, cg_ScopePrefix := p1, cg_Name := p2\<rparr>)
      | _ \<Rightarrow> Inl (BadCgroupsPath path)) = Inr c'"
    using True by (simp add: cgroup_names_def)
  then show ?thesis by (cases "split_on CHR '':'' path" rule: remdups_adj.cases) (auto split: list.split_asm)
qed (auto simp: cgroup_names_def split: if_splits)

lemma CreateCgroupConfig_rules:
  assumes "CreateCgroupConfig env sd name ann (Some l) defaults = Inr (cg, sp)"
  shows "\<exists>rules. user_rules l = Inr rules \<and> r_Devices (cg_Resources cg) = rules @ defaults"
proof -
  let ?c = "\<lparr>cg_Name = [], cg_Parent = [], cg_Path = [], cg_ScopePrefix = [], cg_Paths = None, cg_Resources = empty_resources\<rparr>"
  obtain c where c: "cgroup_names sd name (cgroup_path sd (Some l)) ?c = Inr c"
    and "res_map (\<lambda>r. (c\<lparr>cg_Resources := r\<lparr>r_Devices := r_Devices r @ defaults\<rparr>\<rparr>, sp)) (spec_resources_of (Some l) (cg_Resources c)) = Inr (cg, sp)"
    using assms unfolding CreateCgroupConfig_def res_bind_eq_Inr res_map_eq_Inr by fastforce
  then obtain r where r: "spec_resources_of (Some l) empty_resources = Inr r" "r_Devices (cg_Resources cg) = r_Devices r @ defaults"
    using cgroup_names_resources [OF c] by (cases "spec_resources_of (Some l) (cg_Resources c)") auto
  then have "user_rules l = Inr (r_Devices r)"
    by (cases "sl_Resources l") (auto simp: spec_resources_of_def user_rules_def empty_resources_def res_map_def split: sum.splits)
  with r(2) show ?thesis by blast
qed

lemma cgroup_names_plain:
  assumes "CreateCgroupConfig env False name ann lin defaults = Inr (cg, sp)"
  shows "cg_Parent cg = []" "cg_Paths cg = None" "cg_Path cg = cgroup_path False lin" "cg_Name cg = (if cg_Path cg = [] then name else [])"
  using assms by (auto simp: CreateCgroupConfig_def cgroup_names_def res_map_def split: sum.splits if_splits)

lemma createDevices_ok:
  assumes "createDevices (Some l) allowed = Inr (kept, nodes)"
  shows "kept = kept_defaults (sl_Devices l) allowed"
    "\<exists>own. nodes = map Shared (filter (\<lambda>i. d_Path (allowed ! i) \<noteq> []) kept) @ own \<and> (\<forall>n \<in> set own. \<exists>d. n = Own d)"
proof -
  show kept: "kept = kept_defaults (sl_Devices l) allowed" using assms by (auto simp: createDevices_def Let_def res_map_def split: sum.splits)
  have "res_fold spec_node (sl_Devices l) (map Shared (filter (\<lambda>i. d_Path (allowed ! i) \<noteq> []) kept)) = Inr nodes"
    using assms kept by (auto simp: createDevices_def Let_def res_map_def split: sum.splits)
  then show "\<exists>own. nodes = map Shared (filter (\<lambda>i. d_Path (allowed ! i) \<noteq> []) kept) @ own \<and> (\<forall>n \<in> set own. \<exists>d. n = Own d)"
    by (rule res_fold_extends [rotated 3]) (auto simp: spec_node_def res_map_def split: sum.splits)
qed

end
