(* ===== verification/Spec_Convert.thy ===== *)
theory Spec_Convert
  imports Spec_Mount Spec_Cgroup Config_Validate Device_Filter Cgroup_V2_Create
begin

text \<open>The conversion of an OCI specification into the configuration of a container, \<^verbatim>\<open>CreateLibcontainerConfig\<close> of
  \<^verbatim>\<open>libcontainer/specconv/spec_linux.go\<close>. The record \<^verbatim>\<open>lib_config\<close> extends the configuration by the fields that no other
  component reads here, by the device nodes as references and by the systemd properties of the cgroup; the devices of the
  configuration are what the references show when the conversion returns. The default devices are threaded
  through, since giving the devices of a user namespace to its root writes to them.\<close>

section \<open>Specification\<close>

record capabilities =
  cap_Bounding :: "string list"
  cap_Effective :: "string list"
  cap_Inheritable :: "string list"
  cap_Permitted :: "string list"
  cap_Ambient :: "string list"

record spec_process =
  pr_OOMScoreAdj :: "int option"
  pr_NoNewPrivileges :: bool
  pr_Umask :: "nat option"
  pr_SelinuxLabel :: string
  pr_Capabilities :: "capabilities option"

record spec_hook =
  hk_Path :: string
  hk_Args :: "string list"
  hk_Env :: "string list"
  hk_Timeout :: "int option"

record spec_hooks =
  sh_Prestart :: "spec_hook list"
  sh_CreateRuntime :: "spec_hook list"
  sh_CreateContainer :: "spec_hook list"
  sh_StartContainer :: "spec_hook list"
  sh_Poststart :: "spec_hook list"
  sh_Poststop :: "spec_hook list"

record spec_root =
  ro_Path :: string
  ro_Readonly :: bool

record spec =
  sp_Process :: "spec_process option"
  sp_Root :: "spec_root option"
  sp_Hostname :: string
  sp_Mounts :: "oci_mount list"
  sp_Hooks :: "spec_hooks option"
  sp_Annotations :: "(string \<times> string) list"
  sp_Linux :: "spec_linux option"

record conv_opts =
  cv_CgroupName :: string
  cv_UseSystemdCgroup :: bool
  cv_NoPivotRoot :: bool
  cv_NoNewKeyring :: bool
  cv_Spec :: spec
  cv_RootlessEUID :: bool
  cv_RootlessCgroups :: bool

record 'f lib_config = config +
  lc_NoPivotRoot :: bool
  lc_Umask :: "nat option"
  lc_Readonlyfs :: bool
  lc_RootPropagation :: int
  lc_MountLabel :: string
  lc_Capabilities :: "capabilities option"
  lc_OomScoreAdj :: "int option"
  lc_Seccomp :: "seccomp option"
  lc_NoNewPrivileges :: bool
  lc_Version :: string
  lc_NoNewKeyring :: bool
  lc_Nodes :: "dev_node list"
  lc_SystemdProps :: "(string \<times> 'f variant) list"

section \<open>Tables\<close>

definition oci_namespaceMapping :: "(string \<times> namespace_type) list" where
  "oci_namespaceMapping =
    [(''pid'', NEWPID),
     (''network'', NEWNET),
     (''mount'', NEWNS),
     (''user'', NEWUSER),
     (''ipc'', NEWIPC),
     (''uts'', NEWUTS),
     (''cgroup'', NEWCGROUP)]"

definition mountPropagationMapping :: "(string \<times> int) list" where
  "mountPropagationMapping =
    [(''rprivate'', MS_PRIVATE OR MS_REC),
     (''private'', MS_PRIVATE),
     (''rslave'', MS_SLAVE OR MS_REC),
     (''slave'', MS_SLAVE),
     (''rshared'', MS_SHARED OR MS_REC),
     (''shared'', MS_SHARED),
     (''runbindable'', MS_UNBINDABLE OR MS_REC),
     (''unbindable'', MS_UNBINDABLE),
     ('''', 0)]"

section \<open>Namespaces\<close>

definition add_namespace :: "spec_namespace \<Rightarrow> namespaces \<Rightarrow> (conv_err, namespaces) res" where
  "add_namespace ns nss =
    (case map_of oci_namespaceMapping (sp_NsType ns) of
       None \<Rightarrow> Inl (BadNamespace (sp_NsType ns))
     | Some t \<Rightarrow>
         if ns_Contains nss t then Inl (DuplicateNamespace (sp_NsType ns)) else Inr (ns_Add t (sp_NsPath ns) nss))"

definition create_mapping :: "spec_id_mapping \<Rightarrow> IDMap" where
  "create_mapping m = \<lparr>im_ContainerID = int (si_ContainerID m), im_HostID = int (si_HostID m), im_Size = int (si_Size m)\<rparr>"

text \<open>Appending to a nil list: no mappings leave it nil.\<close>

definition append_mappings :: "IDMap list option \<Rightarrow> spec_id_mapping list \<Rightarrow> IDMap list option" where
  "append_mappings old ms =
    (if ms = [] then old else Some ((case old of None \<Rightarrow> [] | Some os \<Rightarrow> os) @ map create_mapping ms))"

definition own_device :: "nat \<Rightarrow> nat \<Rightarrow> device \<Rightarrow> device" where
  "own_device uid gid d = d\<lparr>d_Uid := uid, d_Gid := gid\<rparr>"

text \<open>The loop over the nodes writes through their references.\<close>

definition set_owner :: "nat \<Rightarrow> nat \<Rightarrow> dev_node list \<Rightarrow> device list \<Rightarrow> dev_node list \<times> device list" where
  "set_owner uid gid nodes allowed =
    (map (\<lambda>n. case n of Shared i \<Rightarrow> Shared i | Own d \<Rightarrow> Own (own_device uid gid d)) nodes,
     fold (\<lambda>n store. case n of Shared i \<Rightarrow> store[i := own_device uid gid (store ! i)] | Own d \<Rightarrow> store) nodes allowed)"

definition uint32 :: "int \<Rightarrow> nat" where
  "uint32 i = nat (i mod 2 ^ 32)"

definition setupUserNamespace :: "spec_linux \<Rightarrow> 'f lib_config \<Rightarrow> device list \<Rightarrow> (conv_err, 'f lib_config) res \<times> device list" where
  "setupUserNamespace l cf allowed =
    (let cf1 = cf\<lparr>c_UidMappings := append_mappings (c_UidMappings cf) (sl_UIDMappings l),
                  c_GidMappings := append_mappings (c_GidMappings cf) (sl_GIDMappings l)\<rparr>
     in case HostRootUID (config.truncate cf1) of
       Inl e \<Rightarrow> (Inl (IdErr e), allowed)
     | Inr rootUID \<Rightarrow>
         (case HostRootGID (config.truncate cf1) of
            Inl e \<Rightarrow> (Inl (IdErr e), allowed)
          | Inr rootGID \<Rightarrow>
              (case set_owner (uint32 rootUID) (uint32 rootGID) (lc_Nodes cf1) allowed of
                 (nodes, allowed') \<Rightarrow> (Inr (cf1\<lparr>lc_Nodes := nodes\<rparr>), allowed'))))"

section \<open>The sections of a specification\<close>

definition createCommandHook :: "spec_hook \<Rightarrow> command" where
  "createCommandHook h =
    \<lparr>cmd_Path = hk_Path h, cmd_Args = hk_Args h, cmd_Env = hk_Env h, cmd_Dir = [],
     cmd_Timeout = map_option (\<lambda>t. wrap64 (t * 1000000000)) (hk_Timeout h)\<rparr>"

definition createHooks :: "spec_hooks option \<Rightarrow> hook_name \<Rightarrow> hook list" where
  "createHooks hs n =
    (case hs of
       None \<Rightarrow> []
     | Some h \<Rightarrow>
         map (\<lambda>x. CommandHook (createCommandHook x))
           (if n = Prestart then sh_Prestart h
            else if n = CreateRuntime then sh_CreateRuntime h
            else if n = CreateContainer then sh_CreateContainer h
            else if n = StartContainer then sh_StartContainer h
            else if n = Poststart then sh_Poststart h
            else if n = Poststop then sh_Poststop h
            else []))"

definition rootfs_propagation :: "spec_linux \<Rightarrow> 'f lib_config \<Rightarrow> (conv_err, 'f lib_config) res" where
  "rootfs_propagation l cf =
    (case map_of mountPropagationMapping (sl_RootfsPropagation l) of
       None \<Rightarrow> Inl (BadPropagation (sl_RootfsPropagation l))
     | Some f \<Rightarrow>
         if lc_NoPivotRoot cf \<and> f AND MS_PRIVATE \<noteq> 0 then Inl UnsafePropagation else Inr (cf\<lparr>lc_RootPropagation := f\<rparr>))"

definition linux_namespaces :: "spec_linux \<Rightarrow> 'f lib_config \<Rightarrow> (conv_err, 'f lib_config) res" where
  "linux_namespaces l cf =
    res_map (\<lambda>nss.
        cf\<lparr>c_Namespaces := nss,
           c_Networks := (if ns_Contains nss NEWNET \<and> ns_PathOf nss NEWNET = []
             then [\<lparr>net_Type = ''loopback'', net_Name = [], net_HostInterfaceName = []\<rparr>] else c_Networks cf)\<rparr>)
      (res_fold add_namespace (sl_Namespaces l) (c_Namespaces cf))"

definition linux_rest :: "spec_linux \<Rightarrow> 'f lib_config \<Rightarrow> (conv_err, 'f lib_config) res" where
  "linux_rest l cf =
    (let cf1 = cf\<lparr>c_MaskPaths := sl_MaskedPaths l, c_ReadonlyPaths := sl_ReadonlyPaths l, lc_MountLabel := sl_MountLabel l,
                  c_Sysctl := sl_Sysctl l\<rparr>
     in case (case sl_Seccomp l of None \<Rightarrow> Inr None | Some sc \<Rightarrow> SetupSeccomp (Some sc)) of
          Inl e \<Rightarrow> Inl (SeccompErr e)
        | Inr sc \<Rightarrow> Inr (cf1\<lparr>lc_Seccomp := sc, c_IntelRdt := sl_IntelRdt l\<rparr>))"

definition linux_section :: "spec_linux \<Rightarrow> 'f lib_config \<Rightarrow> device list \<Rightarrow> (conv_err, 'f lib_config) res \<times> device list" where
  "linux_section l cf allowed =
    (case res_bind (rootfs_propagation l cf) (linux_namespaces l) of
       Inl e \<Rightarrow> (Inl e, allowed)
     | Inr cf1 \<Rightarrow>
         (case (if ns_Contains (c_Namespaces cf1) NEWUSER then setupUserNamespace l cf1 allowed else (Inr cf1, allowed)) of
            (Inl e, allowed1) \<Rightarrow> (Inl e, allowed1)
          | (Inr cf2, allowed1) \<Rightarrow> (linux_rest l cf2, allowed1)))"

definition process_section :: "spec_process \<Rightarrow> 'f lib_config \<Rightarrow> 'f lib_config" where
  "process_section p cf =
    cf\<lparr>lc_OomScoreAdj := pr_OOMScoreAdj p, lc_NoNewPrivileges := pr_NoNewPrivileges p, lc_Umask := pr_Umask p,
       c_ProcessLabel := (if pr_SelinuxLabel p \<noteq> [] then pr_SelinuxLabel p else c_ProcessLabel cf),
       lc_Capabilities := (case pr_Capabilities p of None \<Rightarrow> lc_Capabilities cf | Some c \<Rightarrow> Some c)\<rparr>"

definition conv_cwd :: "'f conv_env \<Rightarrow> (go_err, string) res" where
  "conv_cwd env =
    res_bind (ce_wd env) (\<lambda>rcwd. if IsAbs rcwd then Inr (Clean rcwd) else res_map (\<lambda>wd. Join [wd, rcwd]) (ce_wd env))"

definition new_config :: "conv_opts \<Rightarrow> string \<Rightarrow> spec_root \<Rightarrow> dev_node list \<Rightarrow> cgroup \<Rightarrow> (string \<times> 'f variant) list \<Rightarrow> 'f lib_config" where
  "new_config opts cwd root nodes cg sp =
    (let s = cv_Spec opts in
     \<lparr>c_Rootfs = (if IsAbs (ro_Path root) then ro_Path root else Join [cwd, ro_Path root]),
      c_Mounts = map (createLibcontainerMount cwd) (sp_Mounts s), c_Devices = [], c_Hostname = sp_Hostname s,
      c_Namespaces = [], c_Networks = [], c_Routes = [], c_Cgroups = cg, c_ProcessLabel = [],
      c_UidMappings = None, c_GidMappings = None, c_MaskPaths = [], c_ReadonlyPaths = [], c_Sysctl = [],
      c_Hooks = None, c_Labels = map (\<lambda>(k, v). k @ ''='' @ v) (sp_Annotations s) @ [''bundle='' @ cwd], c_IntelRdt = None,
      c_RootlessEUID = cv_RootlessEUID opts, c_RootlessCgroups = cv_RootlessCgroups opts,
      lc_NoPivotRoot = cv_NoPivotRoot opts, lc_Umask = None, lc_Readonlyfs = ro_Readonly root, lc_RootPropagation = 0,
      lc_MountLabel = [], lc_Capabilities = None, lc_OomScoreAdj = None, lc_Seccomp = None, lc_NoNewPrivileges = False,
      lc_Version = [], lc_NoNewKeyring = cv_NoNewKeyring opts, lc_Nodes = nodes, lc_SystemdProps = sp\<rparr>)"

definition finish_config :: "spec \<Rightarrow> device list \<Rightarrow> 'f lib_config \<Rightarrow> 'f lib_config" where
  "finish_config s allowed cf =
    (let cf1 = (case sp_Process s of None \<Rightarrow> cf | Some p \<Rightarrow> process_section p cf)
     in cf1\<lparr>c_Hooks := Some (createHooks (sp_Hooks s)), lc_Version := ''1.0.2-dev'', c_Devices := map (deref allowed) (lc_Nodes cf1)\<rparr>)"

definition base_config :: "'f conv_env \<Rightarrow> conv_opts \<Rightarrow> device list \<Rightarrow> (conv_err, 'f lib_config) res" where
  "base_config env opts allowed =
    (let s = cv_Spec opts in
     case conv_cwd env of Inl e \<Rightarrow> Inl (WdErr e) | Inr cwd \<Rightarrow>
     (case sp_Root s of None \<Rightarrow> Inl RootMissing | Some root \<Rightarrow>
      res_bind (createDevices (sp_Linux s) allowed) (\<lambda>(defaults, nodes).
      res_map (\<lambda>(cg, sp). new_config opts cwd root nodes cg sp)
        (CreateCgroupConfig env (cv_UseSystemdCgroup opts) (cv_CgroupName opts) (sp_Annotations s) (sp_Linux s)
          (map (\<lambda>i. rule.truncate (allowed ! i)) defaults)))))"

definition CreateLibcontainerConfig :: "'f conv_env \<Rightarrow> conv_opts \<Rightarrow> device list \<Rightarrow> (conv_err, 'f lib_config) res \<times> device list" where
  "CreateLibcontainerConfig env opts allowed =
    (case base_config env opts allowed of
       Inl e \<Rightarrow> (Inl e, allowed)
     | Inr cf \<Rightarrow>
         (case sp_Linux (cv_Spec opts) of
            None \<Rightarrow> (Inr (finish_config (cv_Spec opts) allowed cf), allowed)
          | Some l \<Rightarrow>
              (case linux_section l cf allowed of
                 (Inl e, allowed1) \<Rightarrow> (Inl e, allowed1)
               | (Inr cf1, allowed1) \<Rightarrow> (Inr (finish_config (cv_Spec opts) allowed1 cf1), allowed1))))"


section \<open>The run of a conversion\<close>

lemma conversion_ok:
  assumes "CreateLibcontainerConfig env opts allowed = (Inr cf, allowed')" and "sp_Linux (cv_Spec opts) = Some l"
  obtains cwd root kept nodes cg sp cf1 where "conv_cwd env = Inr cwd" "sp_Root (cv_Spec opts) = Some root"
    "createDevices (Some l) allowed = Inr (kept, nodes)"
    "CreateCgroupConfig env (cv_UseSystemdCgroup opts) (cv_CgroupName opts) (sp_Annotations (cv_Spec opts)) (Some l)
       (map (\<lambda>i. rule.truncate (allowed ! i)) kept) = Inr (cg, sp)"
    "linux_section l (new_config opts cwd root nodes cg sp) allowed = (Inr cf1, allowed')"
    "cf = finish_config (cv_Spec opts) allowed' cf1"
proof -
  obtain cf0 where cf0: "base_config env opts allowed = Inr cf0" using assms(1) by (cases "base_config env opts allowed") (auto simp: CreateLibcontainerConfig_def)
  obtain cwd root kept nodes cg sp where b: "conv_cwd env = Inr cwd" "sp_Root (cv_Spec opts) = Some root"
    "createDevices (Some l) allowed = Inr (kept, nodes)"
    "CreateCgroupConfig env (cv_UseSystemdCgroup opts) (cv_CgroupName opts) (sp_Annotations (cv_Spec opts)) (Some l)
       (map (\<lambda>i. rule.truncate (allowed ! i)) kept) = Inr (cg, sp)" "cf0 = new_config opts cwd root nodes cg sp"
    using cf0 assms(2) by (auto simp: base_config_def Let_def res_bind_eq_Inr res_map_eq_Inr split: sum.split_asm option.split_asm)
  obtain cf1 where "linux_section l cf0 allowed = (Inr cf1, allowed')" "cf = finish_config (cv_Spec opts) allowed' cf1"
    using assms cf0 by (auto simp: CreateLibcontainerConfig_def split: sum.split_asm prod.split_asm)
  then show thesis using that b by blast
qed

text \<open>What the conversion of the Linux section sets\<close>

lemma truncate_simps [simp]:
  "c_Namespaces (config.truncate cf) = c_Namespaces cf" "c_Networks (config.truncate cf) = c_Networks cf"
  "c_Routes (config.truncate cf) = c_Routes cf" "c_UidMappings (config.truncate cf) = c_UidMappings cf"
  "c_GidMappings (config.truncate cf) = c_GidMappings cf"
  by (simp_all add: config.truncate_def)

lemma root_ids_cong:
  "c_Namespaces c = c_Namespaces d \<Longrightarrow> c_UidMappings c = c_UidMappings d \<Longrightarrow> HostRootUID c = HostRootUID d"
  "c_Namespaces c = c_Namespaces d \<Longrightarrow> c_GidMappings c = c_GidMappings d \<Longrightarrow> HostRootGID c = HostRootGID d"
  by (simp_all add: HostRootUID_def HostUID_def HostRootGID_def HostGID_def)

lemma linux_section_ok:
  assumes "linux_section l cf allowed = (Inr cf1, allowed')" and "c_Namespaces cf = []" and "c_Networks cf = []"
    and "c_UidMappings cf = None" and "c_GidMappings cf = None"
  obtains nss where "res_fold add_namespace (sl_Namespaces l) [] = Inr nss" "c_Namespaces cf1 = nss"
    "c_Cgroups cf1 = c_Cgroups cf" "c_Rootfs cf1 = c_Rootfs cf" "c_Mounts cf1 = c_Mounts cf" "c_Routes cf1 = c_Routes cf"
    "\<not> ns_Contains nss NEWNET \<longrightarrow> c_Networks cf1 = []"
    "if ns_Contains nss NEWUSER
     then (\<exists>uid gid. HostRootUID (config.truncate cf1) = Inr uid \<and> HostRootGID (config.truncate cf1) = Inr gid \<and>
       set_owner (uint32 uid) (uint32 gid) (lc_Nodes cf) allowed = (lc_Nodes cf1, allowed'))
     else c_UidMappings cf1 = None \<and> c_GidMappings cf1 = None \<and> lc_Nodes cf1 = lc_Nodes cf \<and> allowed' = allowed"
proof -
  obtain a where a: "rootfs_propagation l cf = Inr a" and "\<exists>b. linux_namespaces l a = Inr b"
    using assms(1) by (auto simp: linux_section_def res_bind_eq_Inr split: sum.split_asm elim: res_bind_eq_Inr [THEN iffD1, elim_format])
  then obtain b where b: "linux_namespaces l a = Inr b" by blast
  obtain p where p: "a = cf\<lparr>lc_RootPropagation := p\<rparr>" using a by (auto simp: rootfs_propagation_def split: option.split_asm if_split_asm)
  obtain nss n where nss: "res_fold add_namespace (sl_Namespaces l) [] = Inr nss"
    and b': "b = cf\<lparr>lc_RootPropagation := p, c_Namespaces := nss, c_Networks := n\<rparr>" "\<not> ns_Contains nss NEWNET \<longrightarrow> n = []"
    using b assms(2,3) by (auto simp: linux_namespaces_def res_map_eq_Inr p)
  obtain d where d: "(if ns_Contains nss NEWUSER then setupUserNamespace l b allowed else (Inr b, allowed)) = (Inr d, allowed')"
    and rest: "linux_rest l d = Inr cf1"
    using assms(1) a b b'(1) by (auto simp: linux_section_def split: sum.split_asm prod.split_asm)
  obtain m o' ml sy sc ir where cf1: "cf1 = d\<lparr>c_MaskPaths := m, c_ReadonlyPaths := o', lc_MountLabel := ml, c_Sysctl := sy, lc_Seccomp := sc, c_IntelRdt := ir\<rparr>"
    using rest by (auto simp: linux_rest_def Let_def split: sum.split_asm)
  show thesis
  proof (cases "ns_Contains nss NEWUSER")
    case False
    then have "d = b" "allowed' = allowed" using d by simp_all
    then show ?thesis using False b' assms(4,5) by (intro that [OF nss]) (simp_all add: cf1)
  next
    case True
    then obtain um gm uid gid nodes where run: "set_owner (uint32 uid) (uint32 gid) (lc_Nodes b) allowed = (nodes, allowed')"
      "HostRootUID (config.truncate (b\<lparr>c_UidMappings := um, c_GidMappings := gm\<rparr>)) = Inr uid"
      "HostRootGID (config.truncate (b\<lparr>c_UidMappings := um, c_GidMappings := gm\<rparr>)) = Inr gid"
      and db: "d = b\<lparr>c_UidMappings := um, c_GidMappings := gm, lc_Nodes := nodes\<rparr>"
      using d by (auto simp: setupUserNamespace_def Let_def split: sum.split_asm prod.split_asm)
    have "HostRootUID (config.truncate cf1) = Inr uid" "HostRootGID (config.truncate cf1) = Inr gid"
      unfolding run(2,3) [symmetric]
      by (rule root_ids_cong; simp add: cf1 db)+
    then show ?thesis using True b' run(1) by (intro that [OF nss]) (auto simp: cf1 db)
  qed
qed


section \<open>Devices of a configuration\<close>

lemma own_device_simps [simp]:
  "d_Uid (own_device u g d) = u" "d_Gid (own_device u g d) = g" "d_Path (own_device u g d) = d_Path d"
  "rule.truncate (own_device u g d) = rule.truncate d" "own_device u g (own_device u g d) = own_device u g d"
  by (simp_all add: own_device_def rule.truncate_def)

lemma set_owner_store:
  assumes "set_owner u g nodes allowed = (nodes', allowed')"
  shows "length allowed' = length allowed"
    "i < length allowed \<Longrightarrow> allowed' ! i = (if Shared i \<in> set nodes then own_device u g (allowed ! i) else allowed ! i)"
proof -
  let ?f = "\<lambda>n store. case n of Shared i \<Rightarrow> store[i := own_device u g (store ! i)] | Own d \<Rightarrow> store"
  have len: "length (fold ?f nodes st) = length st" for st
    by (induction nodes arbitrary: st) (auto split: dev_node.splits)
  have "fold ?f nodes st ! i = (if Shared i \<in> set nodes then own_device u g (st ! i) else st ! i)" if "i < length st" for st
    using that
  proof (induction nodes arbitrary: st)
    case (Cons n ns)
    have "length (?f n st) = length st" by (cases n) auto
    then show ?case using Cons by (cases n; cases "n = Shared i") auto
  qed simp
  then show "length allowed' = length allowed"
    "i < length allowed \<Longrightarrow> allowed' ! i = (if Shared i \<in> set nodes then own_device u g (allowed ! i) else allowed ! i)"
    using assms len by (auto simp: set_owner_def)
qed

lemma set_owner_devices:
  assumes run: "set_owner u g nodes allowed = (nodes', allowed')" and "\<forall>i. Shared i \<in> set nodes \<longrightarrow> i < length allowed" and "n \<in> set nodes'"
  shows "d_Uid (deref allowed' n) = u \<and> d_Gid (deref allowed' n) = g"
proof -
  have "nodes' = map (\<lambda>n. case n of Shared i \<Rightarrow> Shared i | Own d \<Rightarrow> Own (own_device u g d)) nodes" using run by (simp add: set_owner_def)
  then obtain m where m: "m \<in> set nodes" "n = (case m of Shared i \<Rightarrow> Shared i | Own d \<Rightarrow> Own (own_device u g d))" using assms(3) by auto
  show ?thesis
  proof (cases m)
    case (Shared i)
    then show ?thesis using m assms(2) set_owner_store(2) [OF run, of i] by (simp add: deref_def)
  qed (use m in \<open>simp add: deref_def\<close>)
qed

lemma set_owner_shared: "set_owner u g nodes allowed = (nodes', allowed') \<Longrightarrow> Shared i \<in> set nodes' \<longleftrightarrow> Shared i \<in> set nodes"
  by (force simp: set_owner_def split: dev_node.splits)

lemma kept_defaults_mem: "i \<in> set (kept_defaults sds allowed) \<longleftrightarrow> i < length allowed \<and> \<not> shadowed sds (allowed ! i)"
  by (auto simp: kept_defaults_def)

lemma createDevices_shared:
  assumes "createDevices (Some l) allowed = Inr (kept, nodes)"
  shows "Shared i \<in> set nodes \<longleftrightarrow> i < length allowed \<and> d_Path (allowed ! i) \<noteq> [] \<and> \<not> shadowed (sl_Devices l) (allowed ! i)"
  using createDevices_ok [OF assms] by (auto simp: kept_defaults_mem)

section \<open>Namespaces of a configuration\<close>

lemma namespace_types: "map_of oci_namespaceMapping s = Some t \<Longrightarrow> t \<in> set NamespaceTypes"
  by (drule map_of_SomeD) (auto simp: oci_namespaceMapping_def NamespaceTypes_def)

lemma add_namespaces_ok:
  assumes "res_fold add_namespace nss acc = Inr ns" and "ns_unique acc \<and> ns_Type ` set acc \<subseteq> set NamespaceTypes"
  shows "ns_unique ns \<and> ns_Type ` set ns \<subseteq> set NamespaceTypes"
  using assms
proof (induction nss arbitrary: acc)
  case (Cons x xs)
  obtain t where t: "map_of oci_namespaceMapping (sp_NsType x) = Some t" "\<not> ns_Contains acc t"
    "res_fold add_namespace xs (ns_Add t (sp_NsPath x) acc) = Inr ns"
    using Cons.prems(1) by (auto simp: add_namespace_def [of x] split: option.split_asm if_split_asm)
  have "ns_Add t (sp_NsPath x) acc = acc @ [\<lparr>ns_Type = t, ns_Path = sp_NsPath x\<rparr>]" using t(2) by (simp add: ns_Add_def ns_Contains_def)
  moreover have "t \<notin> ns_Type ` set acc"
    using t(2) by (auto simp: ns_Contains_abs ns_abs_def dom_map_of_conv_image_fst image_image)
  ultimately show ?case using Cons.IH [OF t(3)] Cons.prems(2) namespace_types [OF t(1)] by (auto simp: ns_unique_def)
qed simp


section \<open>A converted configuration\<close>

lemma finish_simps [simp]:
  "c_Namespaces (finish_config s st cf) = c_Namespaces cf" "c_Networks (finish_config s st cf) = c_Networks cf"
  "c_Routes (finish_config s st cf) = c_Routes cf" "c_UidMappings (finish_config s st cf) = c_UidMappings cf"
  "c_GidMappings (finish_config s st cf) = c_GidMappings cf" "c_Cgroups (finish_config s st cf) = c_Cgroups cf"
  "c_Rootfs (finish_config s st cf) = c_Rootfs cf" "c_Mounts (finish_config s st cf) = c_Mounts cf"
  "c_Devices (finish_config s st cf) = map (deref st) (lc_Nodes cf)"
  by (simp_all add: finish_config_def process_section_def Let_def split: option.splits)

lemma converted:
  assumes "CreateLibcontainerConfig env opts allowed = (Inr cf, allowed')" and "sp_Linux (cv_Spec opts) = Some l"
  obtains cwd root kept nodes cg sp where "conv_cwd env = Inr cwd" "sp_Root (cv_Spec opts) = Some root"
    "createDevices (Some l) allowed = Inr (kept, nodes)"
    "CreateCgroupConfig env (cv_UseSystemdCgroup opts) (cv_CgroupName opts) (sp_Annotations (cv_Spec opts)) (Some l)
       (map (\<lambda>i. rule.truncate (allowed ! i)) kept) = Inr (cg, sp)"
    "ns_unique (c_Namespaces cf)" "ns_Type ` set (c_Namespaces cf) \<subseteq> set NamespaceTypes" "c_Cgroups cf = cg"
    "c_Rootfs cf = (if IsAbs (ro_Path root) then ro_Path root else Join [cwd, ro_Path root])"
    "c_Mounts cf = map (createLibcontainerMount cwd) (sp_Mounts (cv_Spec opts))" "c_Routes cf = []"
    "ns_Contains (c_Namespaces cf) NEWNET \<or> c_Networks cf = []"
    "if ns_Contains (c_Namespaces cf) NEWUSER
     then (\<exists>uid gid nodes'. HostRootUID (config.truncate cf) = Inr uid \<and> HostRootGID (config.truncate cf) = Inr gid \<and>
       set_owner (uint32 uid) (uint32 gid) nodes allowed = (nodes', allowed') \<and> c_Devices cf = map (deref allowed') nodes')
     else c_UidMappings cf = None \<and> c_GidMappings cf = None \<and> c_Devices cf = map (deref allowed) nodes \<and> allowed' = allowed"
proof -
  obtain cwd root kept nodes cg sp cf1 where a: "conv_cwd env = Inr cwd" "sp_Root (cv_Spec opts) = Some root"
    "createDevices (Some l) allowed = Inr (kept, nodes)"
    "CreateCgroupConfig env (cv_UseSystemdCgroup opts) (cv_CgroupName opts) (sp_Annotations (cv_Spec opts)) (Some l)
       (map (\<lambda>i. rule.truncate (allowed ! i)) kept) = Inr (cg, sp)"
    and sec: "linux_section l (new_config opts cwd root nodes cg sp) allowed = (Inr cf1, allowed')"
    and cf: "cf = finish_config (cv_Spec opts) allowed' cf1"
    using conversion_ok [OF assms] by metis
  have new: "c_Namespaces (new_config opts cwd root nodes cg sp) = []" "c_Networks (new_config opts cwd root nodes cg sp) = []"
    "c_UidMappings (new_config opts cwd root nodes cg sp) = None" "c_GidMappings (new_config opts cwd root nodes cg sp) = None"
    "c_Cgroups (new_config opts cwd root nodes cg sp) = cg" "c_Routes (new_config opts cwd root nodes cg sp) = []"
    "c_Mounts (new_config opts cwd root nodes cg sp) = map (createLibcontainerMount cwd) (sp_Mounts (cv_Spec opts))"
    "c_Rootfs (new_config opts cwd root nodes cg sp) = (if IsAbs (ro_Path root) then ro_Path root else Join [cwd, ro_Path root])"
    "lc_Nodes (new_config opts cwd root nodes cg sp) = nodes"
    by (simp_all add: new_config_def Let_def del: Join.simps)
  have ids: "HostRootUID (config.truncate cf) = HostRootUID (config.truncate cf1)" "HostRootGID (config.truncate cf) = HostRootGID (config.truncate cf1)"
    by (rule root_ids_cong; simp add: cf)+
  obtain nss where nss: "res_fold add_namespace (sl_Namespaces l) [] = Inr nss" "c_Namespaces cf1 = nss"
    and same: "c_Cgroups cf1 = cg" "c_Rootfs cf1 = (if IsAbs (ro_Path root) then ro_Path root else Join [cwd, ro_Path root])"
      "c_Mounts cf1 = map (createLibcontainerMount cwd) (sp_Mounts (cv_Spec opts))" "c_Routes cf1 = []"
    and net: "\<not> ns_Contains nss NEWNET \<longrightarrow> c_Networks cf1 = []"
    and user: "if ns_Contains nss NEWUSER
     then (\<exists>uid gid. HostRootUID (config.truncate cf1) = Inr uid \<and> HostRootGID (config.truncate cf1) = Inr gid \<and>
       set_owner (uint32 uid) (uint32 gid) nodes allowed = (lc_Nodes cf1, allowed'))
     else c_UidMappings cf1 = None \<and> c_GidMappings cf1 = None \<and> lc_Nodes cf1 = nodes \<and> allowed' = allowed"
    using linux_section_ok [OF sec new(1-4)] unfolding new(5-9) by metis
  have u: "ns_unique nss" "ns_Type ` set nss \<subseteq> set NamespaceTypes" using add_namespaces_ok [OF nss(1)] by (simp_all add: ns_unique_def)
  show thesis
    by (rule that [OF a]) (use u same net user nss(2) ids in \<open>auto simp: cf simp del: Join.simps\<close>)
qed

end
