(* ===== verification/Spec_Config.thy ===== *)
theory Spec_Config
  imports Spec_Convert
begin

text \<open>What a configuration converted from an OCI specification promises to the components that use it: the validator,
  the device filter and the cgroup manager; and two weaknesses of the conversion, a missing nil test and the
  default devices that all conversions share.\<close>

section \<open>The shared default devices\<close>

text \<open>A conversion changes only the owners of the default devices; their rules and paths stay.\<close>

definition defaults_intact :: "device list \<Rightarrow> bool" where
  "defaults_intact allowed \<longleftrightarrow> map rule.truncate allowed = map rule.truncate AllowedDevices \<and> map d_Path allowed = map d_Path AllowedDevices"

lemma intactI: "defaults_intact AllowedDevices" by (simp add: defaults_intact_def)

lemma intact_length: "defaults_intact allowed \<Longrightarrow> length allowed = length AllowedDevices"
  unfolding defaults_intact_def by (metis length_map)

lemma intact_nth:
  assumes "defaults_intact allowed" and "i < length AllowedDevices"
  shows "rule.truncate (allowed ! i) = rule.truncate (AllowedDevices ! i)" "d_Path (allowed ! i) = d_Path (AllowedDevices ! i)"
proof -
  have "i < length allowed" using assms intact_length by simp
  then show "rule.truncate (allowed ! i) = rule.truncate (AllowedDevices ! i)" "d_Path (allowed ! i) = d_Path (AllowedDevices ! i)"
    using assms unfolding defaults_intact_def by (metis nth_map)+
qed

lemma shadowed_path: "d_Path d = d_Path e \<Longrightarrow> shadowed sds d = shadowed sds e"
  by (simp add: shadowed_def)

text \<open>The rules of the default devices that are kept, as a set\<close>

lemma kept_rules:
  assumes "defaults_intact allowed"
  shows "set (map (\<lambda>i. rule.truncate (allowed ! i)) (kept_defaults sds allowed)) = {rule.truncate ad | ad. ad \<in> set AllowedDevices \<and> \<not> shadowed sds ad}"
proof -
  have same: "shadowed sds (allowed ! i) = shadowed sds (AllowedDevices ! i)" if "i < length AllowedDevices" for i
    using intact_nth(2) [OF assms that] by (rule shadowed_path)
  have "set (map (\<lambda>i. rule.truncate (allowed ! i)) (kept_defaults sds allowed)) =
      (\<lambda>i. rule.truncate (allowed ! i)) ` {i. i < length AllowedDevices \<and> \<not> shadowed sds (AllowedDevices ! i)}"
    using same intact_length [OF assms] by (auto simp: kept_defaults_def)
  also have "\<dots> = (\<lambda>i. rule.truncate (AllowedDevices ! i)) ` {i. i < length AllowedDevices \<and> \<not> shadowed sds (AllowedDevices ! i)}"
    using intact_nth(1) [OF assms] by (intro image_cong) auto
  also have "\<dots> = {rule.truncate ad | ad. ad \<in> set AllowedDevices \<and> \<not> shadowed sds ad}"
    unfolding in_set_conv_nth by blast
  finally show ?thesis .
qed

section \<open>Which devices are allowed\<close>

lemma first_match_allowed: "\<forall>d \<in> set ds. r_allow d \<Longrightarrow> first_match P ds = (\<exists>d \<in> set ds. P d)"
  by (induction ds) auto

lemma first_match_append: "first_match P (ds @ es) = (if \<exists>d \<in> set ds. P d then first_match P ds else first_match P es)"
  by (induction ds) auto

lemma defaults_last_decide:
  assumes "\<forall>d \<in> set ds. r_allow d"
  shows "last_match_decision (rules @ ds) q \<longleftrightarrow> (\<exists>d \<in> set ds. rule_matches q d) \<or> last_match_decision rules q"
  using first_match_allowed [of "rev ds" "rule_matches q"] assms by (auto simp: last_match_decision_def first_match_append)

lemma default_rules_ok:
  "\<forall>ad \<in> set AllowedDevices. r_allow (rule.truncate ad) \<and> compilable (rule.truncate ad) \<and> small_numbers (rule.truncate ad) \<and>
    type_CanCgroup (r_type (rule.truncate ad)) \<and> r_perms (rule.truncate ad) \<noteq> []"
  by code_simp

lemma user_rules_ok: "user_rules l = Inr rules \<Longrightarrow> r \<in> set rules \<Longrightarrow> type_CanCgroup (r_type r) \<and> r_perms r \<noteq> []"
  using device_rules_ok by (auto simp: user_rules_def split: option.splits)

lemma converted_rules:
  assumes "CreateLibcontainerConfig env opts allowed = (Inr cf, allowed')" and "defaults_intact allowed" and "sp_Linux (cv_Spec opts) = Some l"
  obtains rules ds where "user_rules l = Inr rules" "r_Devices (cg_Resources (c_Cgroups cf)) = rules @ ds"
    "set ds = {rule.truncate ad | ad. ad \<in> set AllowedDevices \<and> \<not> shadowed (sl_Devices l) ad}"
proof -
  obtain kept nodes cg sp where dev: "createDevices (Some l) allowed = Inr (kept, nodes)" and "c_Cgroups cf = cg"
    and "CreateCgroupConfig env (cv_UseSystemdCgroup opts) (cv_CgroupName opts) (sp_Annotations (cv_Spec opts)) (Some l)
       (map (\<lambda>i. rule.truncate (allowed ! i)) kept) = Inr (cg, sp)"
    by (rule converted [OF assms(1,3)]) blast
  then show thesis
    using CreateCgroupConfig_rules that kept_rules [OF assms(2), of "sl_Devices l"] createDevices_ok(1) [OF dev] by metis
qed

text \<open>C36: Which device accesses a converted container has, down to the program in the kernel. The device filter compiled
  from the rules of a converted configuration allows a request exactly when a default rule matches it whose path is not
  among the devices of the specification, or when the last matching rule of the specification itself allows it. Hence the
  specification cannot take away a default device by a rule: making a node of any device stays allowed whatever the rules say.\<close>

theorem converted_device_policy:
  assumes "CreateLibcontainerConfig env opts allowed = (Inr cf, allowed')" and "defaults_intact allowed" and "sp_Linux (cv_Spec opts) = Some l"
    and "user_rules l = Inr rules" and "\<forall>r \<in> set rules. set (r_perms r) \<subseteq> rwm \<and> small_numbers r"
  shows "\<exists>prog. DeviceFilter (r_Devices (cg_Resources (c_Cgroups cf))) = Inr (prog, ''Apache'') \<and>
    (\<forall>addr q. request_ok q \<longrightarrow> run_filter prog addr q =
      Some (if (\<exists>ad \<in> set AllowedDevices. \<not> shadowed (sl_Devices l) ad \<and> rule_matches q (rule.truncate ad)) \<or> last_match_decision rules q
            then 1 else 0))"
proof -
  obtain rules' ds where "user_rules l = Inr rules'" and devs': "r_Devices (cg_Resources (c_Cgroups cf)) = rules' @ ds"
    and ds: "set ds = {rule.truncate ad | ad. ad \<in> set AllowedDevices \<and> \<not> shadowed (sl_Devices l) ad}"
    by (rule converted_rules [OF assms(1-3)])
  then have devs: "r_Devices (cg_Resources (c_Cgroups cf)) = rules @ ds" using assms(4) by simp
  have ok: "\<forall>d \<in> set ds. r_allow d \<and> compilable d \<and> small_numbers d" using default_rules_ok ds by auto
  have "compilable r" if "r \<in> set rules" for r
    using user_rules_ok [OF assms(4) that] assms(5) that by (auto simp: compilable_def small_numbers_def MaxUint32_def)
  then have "\<forall>d \<in> set (rules @ ds). compilable d" "\<forall>d \<in> set (rules @ ds). small_numbers d" using ok assms(5) by auto
  note filter = DeviceFilter_decides [OF this]
  have "last_match_decision (rules @ ds) q \<longleftrightarrow>
      (\<exists>ad \<in> set AllowedDevices. \<not> shadowed (sl_Devices l) ad \<and> rule_matches q (rule.truncate ad)) \<or> last_match_decision rules q" for q
    using defaults_last_decide [of ds rules q] ok ds by auto
  with filter show ?thesis unfolding devs by simp
qed


section \<open>Well-formed configurations\<close>

lemma intact_set_owner:
  assumes "set_owner u g nodes allowed = (nodes', allowed')" and "defaults_intact allowed"
  shows "defaults_intact allowed'"
proof -
  have "map rule.truncate allowed' = map rule.truncate allowed" "map d_Path allowed' = map d_Path allowed"
    using set_owner_store [OF assms(1)] by (auto intro!: nth_equalityI)
  then show ?thesis using assms(2) by (simp add: defaults_intact_def)
qed

lemma conv_cwd_abs:
  assumes "conv_cwd env = Inr cwd" and "\<And>wd. ce_wd env = Inr wd \<Longrightarrow> IsAbs wd"
  shows "IsAbs cwd"
  using assms by (auto simp: conv_cwd_def res_bind_eq_Inr)

lemma IsAbs_Join_left: "IsAbs a \<Longrightarrow> IsAbs (Join [a, b])"
  by (cases a) (simp_all add: IsAbs_def [of "_ # _"] IsAbs_def [of "[]"])

lemma user_namespace_valid:
  assumes "HostRootUID c = Inr uid" and "HostRootGID c = Inr gid" and "ns_Contains (c_Namespaces c) NEWUSER"
  shows "mappings (c_UidMappings c) \<noteq> []" "mappings (c_GidMappings c) \<noteq> []"
  using assms by (auto simp: HostRootUID_def HostUID_def HostRootGID_def HostGID_def split: option.splits prod.splits)

text \<open>The checks of the validator that can only fail for a configuration that was not converted\<close>

definition unconverted :: "validate_err set" where
  "unconverted = {NetworkWithoutNS, MappingsWithoutNS, RootlessNoUid, RootlessNoGid}"

lemma first_err_range: "first_err f xs = Some e \<Longrightarrow> \<exists>x. f x = Some e"
  by (induction xs) (auto split: option.splits)

lemma rootless_mount_errors: "rootlessEUIDMount c = Some e \<Longrightarrow> e \<notin> unconverted"
  by (auto simp: rootlessEUIDMount_def check_opt_def unconverted_def dest!: first_err_range split: if_splits option.splits)

lemma sysctl_errors: "sysctl_loop h c hostnet ss = Some e \<Longrightarrow> e \<notin> unconverted"
  by (induction ss arbitrary: hostnet) (auto simp: unconverted_def Let_def split: if_splits option.splits prod.splits)

lemma other_check_errors:
  "v_rootfs h c = Some e \<Longrightarrow> e \<notin> unconverted" "v_hostname c = Some e \<Longrightarrow> e \<notin> unconverted"
  "v_security h c = Some e \<Longrightarrow> e \<notin> unconverted" "v_cgroupnamespace h c = Some e \<Longrightarrow> e \<notin> unconverted"
  "v_sysctl h c = Some e \<Longrightarrow> e \<notin> unconverted" "v_intelrdt h c = Some e \<Longrightarrow> e \<notin> unconverted"
  subgoal by (auto simp: v_rootfs_def unconverted_def split: sum.splits if_splits)
  subgoal by (simp add: v_hostname_def unconverted_def split: if_splits)
  subgoal by (simp add: v_security_def unconverted_def split: if_splits)
  subgoal by (simp add: v_cgroupnamespace_def unconverted_def split: if_splits)
  subgoal by (simp add: v_sysctl_def sysctl_errors)
  subgoal by (auto simp: v_intelrdt_def unconverted_def split: option.splits if_splits)
  done

lemma validate_errors:
  assumes "v_network c = None" and "v_usernamespace h c \<noteq> Some MappingsWithoutNS"
    and "ns_Contains (c_Namespaces c) NEWUSER \<longrightarrow> mappings (c_UidMappings c) \<noteq> [] \<and> mappings (c_GidMappings c) \<noteq> []"
  shows "Validate h c \<notin> Some ` unconverted"
proof -
  have user: "v_usernamespace h c = Some e \<Longrightarrow> e \<notin> unconverted" for e
    using assms(2) by (auto simp: v_usernamespace_def unconverted_def split: if_splits)
  have rootless: "rootlessEUID c = Some e \<Longrightarrow> e \<notin> unconverted" for e
    using assms(3) rootless_mount_errors [of c e]
    by (auto simp: rootlessEUID_def rootlessEUIDMappings_def unconverted_def split: option.splits if_splits)
  have "e \<notin> unconverted" if "Validate h c = Some e" for e
    using that assms(1) user rootless other_check_errors(1,3-6) [of h c e] other_check_errors(2) [of c e]
    unfolding Validate_def by (simp split: option.split_asm if_split_asm)
  then show ?thesis by auto
qed

lemma converted_cgroup:
  assumes "CreateLibcontainerConfig env opts allowed = (Inr cf, allowed')" and "sp_Linux (cv_Spec opts) = Some l"
    and "\<not> cv_UseSystemdCgroup opts"
  shows "cg_Path (c_Cgroups cf) = [] \<or> cg_Name (c_Cgroups cf) = []"
    "defaultDirPath self (c_Cgroups cf) = defaultDirPath_in self UnifiedMountpoint (CleanPath (cg_Path (c_Cgroups cf))) (CleanPath [])
      (CleanPath (cg_Name (c_Cgroups cf)))"
proof -
  obtain kept sp where "CreateCgroupConfig env False (cv_CgroupName opts) (sp_Annotations (cv_Spec opts)) (Some l)
      (map (\<lambda>i. rule.truncate (allowed ! i)) kept) = Inr (c_Cgroups cf, sp)"
    by (rule converted [OF assms(1,2)]) (use assms(3) in auto)
  note names = cgroup_names_plain [OF this]
  then show "cg_Path (c_Cgroups cf) = [] \<or> cg_Name (c_Cgroups cf) = []" by simp
  show "defaultDirPath self (c_Cgroups cf) = defaultDirPath_in self UnifiedMountpoint (CleanPath (cg_Path (c_Cgroups cf))) (CleanPath [])
      (CleanPath (cg_Name (c_Cgroups cf)))"
    using names by (simp add: defaultDirPath_def)
qed

lemma converted_user:
  assumes "CreateLibcontainerConfig env opts allowed = (Inr cf, allowed')" and "sp_Linux (cv_Spec opts) = Some l"
    and "ns_Contains (c_Namespaces cf) NEWUSER"
  obtains uid gid kept nodes nodes' where "HostRootUID (config.truncate cf) = Inr uid" "HostRootGID (config.truncate cf) = Inr gid"
    "createDevices (Some l) allowed = Inr (kept, nodes)" "set_owner (uint32 uid) (uint32 gid) nodes allowed = (nodes', allowed')"
    "c_Devices cf = map (deref allowed') nodes'"
  by (rule converted [OF assms(1,2)]) (use assms(3) that in auto)

lemma converted_no_user:
  assumes "CreateLibcontainerConfig env opts allowed = (Inr cf, allowed')" and "sp_Linux (cv_Spec opts) = Some l"
    and "\<not> ns_Contains (c_Namespaces cf) NEWUSER"
  obtains kept nodes where "c_UidMappings cf = None" "c_GidMappings cf = None" "createDevices (Some l) allowed = Inr (kept, nodes)"
    "c_Devices cf = map (deref allowed) nodes" "allowed' = allowed"
  by (rule converted [OF assms(1,2)]) (use assms(3) that in auto)

lemma converted_owner:
  assumes "CreateLibcontainerConfig env opts allowed = (Inr cf, allowed')" and "sp_Linux (cv_Spec opts) = Some l"
    and "ns_Contains (c_Namespaces cf) NEWUSER"
  shows "\<exists>uid gid. HostRootUID (config.truncate cf) = Inr uid \<and> HostRootGID (config.truncate cf) = Inr gid \<and>
    (\<forall>d \<in> set (c_Devices cf). d_Uid d = uint32 uid \<and> d_Gid d = uint32 gid)"
proof -
  obtain uid gid kept nodes nodes' where ids: "HostRootUID (config.truncate cf) = Inr uid" "HostRootGID (config.truncate cf) = Inr gid"
    and dev: "createDevices (Some l) allowed = Inr (kept, nodes)"
    and own: "set_owner (uint32 uid) (uint32 gid) nodes allowed = (nodes', allowed')" "c_Devices cf = map (deref allowed') nodes'"
    by (rule converted_user [OF assms])
  have "\<forall>d \<in> set (c_Devices cf). d_Uid d = uint32 uid \<and> d_Gid d = uint32 gid"
    using set_owner_devices [OF own(1)] createDevices_shared [OF dev] own(2) by auto
  with ids show ?thesis by blast
qed

lemma converted_intact:
  assumes "CreateLibcontainerConfig env opts allowed = (Inr cf, allowed')" and "sp_Linux (cv_Spec opts) = Some l" and "defaults_intact allowed"
  shows "defaults_intact allowed'"
proof (cases "ns_Contains (c_Namespaces cf) NEWUSER")
  case True
  from converted_user [OF assms(1,2) True] show ?thesis using intact_set_owner assms(3) by metis
next
  case False
  from converted_no_user [OF assms(1,2) False] show ?thesis using assms(3) by metis
qed

lemma converted_valid:
  assumes "CreateLibcontainerConfig env opts allowed = (Inr cf, allowed')" and "sp_Linux (cv_Spec opts) = Some l"
  shows "Validate h (config.truncate cf) \<notin> Some ` unconverted"
proof (rule validate_errors)
  have "c_Routes cf = [] \<and> (ns_Contains (c_Namespaces cf) NEWNET \<or> c_Networks cf = [])" by (rule converted [OF assms]) blast
  then show "v_network (config.truncate cf) = None" by (auto simp: v_network_def)
  show "v_usernamespace h (config.truncate cf) \<noteq> Some MappingsWithoutNS"
  proof (cases "ns_Contains (c_Namespaces cf) NEWUSER")
    case False
    from converted_no_user [OF assms False] have "c_UidMappings cf = None \<and> c_GidMappings cf = None" by metis
    then show ?thesis using False by (simp add: v_usernamespace_def)
  qed (simp add: v_usernamespace_def)
  show "ns_Contains (c_Namespaces (config.truncate cf)) NEWUSER \<longrightarrow>
      mappings (c_UidMappings (config.truncate cf)) \<noteq> [] \<and> mappings (c_GidMappings (config.truncate cf)) \<noteq> []"
    using converted_owner [OF assms] user_namespace_valid [of "config.truncate cf"] unfolding truncate_simps by metis
qed



section \<open>Two conversions\<close>

lemma default_node_kept:
  assumes "createDevices (Some l) allowed = Inr (kept, nodes)" and "defaults_intact allowed" and "i < length AllowedDevices"
    and "d_Path (AllowedDevices ! i) \<noteq> []" and "\<not> shadowed (sl_Devices l) (AllowedDevices ! i)"
  shows "Shared i \<in> set nodes"
  using createDevices_shared [OF assms(1), of i] intact_nth(2) [OF assms(2,3)] intact_length [OF assms(2)] assms(3-5)
    shadowed_path [of "allowed ! i" "AllowedDevices ! i"] by simp

lemma converted_default:
  assumes "CreateLibcontainerConfig env opts allowed = (Inr cf, allowed')" and "sp_Linux (cv_Spec opts) = Some l" and "defaults_intact allowed"
    and "\<not> ns_Contains (c_Namespaces cf) NEWUSER" and "i < length AllowedDevices"
    and "d_Path (AllowedDevices ! i) \<noteq> []" and "\<not> shadowed (sl_Devices l) (AllowedDevices ! i)"
  shows "allowed ! i \<in> set (c_Devices cf)"
proof -
  obtain kept nodes where dev: "createDevices (Some l) allowed = Inr (kept, nodes)" "c_Devices cf = map (deref allowed) nodes"
    by (rule converted_no_user [OF assms(1,2,4)])
  then show ?thesis using default_node_kept [OF dev(1) assms(3,5-7)] by (force simp: deref_def)
qed

text \<open>C39: A conversion changes what later conversions of the same process produce. The loop that gives the devices of a
  user namespace to its root writes into the default devices that all configurations share. A specification without a user
  namespace that is converted afterwards gets those default devices with the owner from the earlier specification, while
  the same conversion on its own gives them to user 0.\<close>

theorem conversion_changes_next:
  assumes "CreateLibcontainerConfig env1 opts1 AllowedDevices = (Inr cf1, st1)" and "sp_Linux (cv_Spec opts1) = Some l1"
    and "ns_Contains (c_Namespaces cf1) NEWUSER" and "HostRootUID (config.truncate cf1) = Inr uid"
    and "CreateLibcontainerConfig env2 opts2 st1 = (Inr cf2, st2)" and "sp_Linux (cv_Spec opts2) = Some l2"
    and "\<not> ns_Contains (c_Namespaces cf2) NEWUSER"
    and "CreateLibcontainerConfig env2 opts2 AllowedDevices = (Inr alone, st3)" and "\<not> ns_Contains (c_Namespaces alone) NEWUSER"
    and "ad \<in> set AllowedDevices" and "d_Path ad \<noteq> []" and "\<not> shadowed (sl_Devices l1) ad" and "\<not> shadowed (sl_Devices l2) ad"
  shows "(\<exists>d \<in> set (c_Devices cf2). d_Path d = d_Path ad \<and> d_Uid d = uint32 uid) \<and>
    (\<exists>d \<in> set (c_Devices alone). d_Path d = d_Path ad \<and> d_Uid d = 0)"
proof -
  obtain i where i: "i < length AllowedDevices" "AllowedDevices ! i = ad" using assms(10) by (auto simp: in_set_conv_nth)
  obtain uid' gid kept nodes nodes' where id: "HostRootUID (config.truncate cf1) = Inr uid'"
    and dev: "createDevices (Some l1) AllowedDevices = Inr (kept, nodes)"
    and own: "set_owner (uint32 uid') (uint32 gid) nodes AllowedDevices = (nodes', st1)"
    by (rule converted_user [OF assms(1,2,3)])
  have "Shared i \<in> set nodes" using default_node_kept [OF dev intactI i(1)] i assms(11,12) by simp
  then have st1: "st1 ! i = own_device (uint32 uid) (uint32 gid) ad" using set_owner_store(2) [OF own i(1)] i id assms(4) by simp
  have "st1 ! i \<in> set (c_Devices cf2)"
    using converted_default [OF assms(5,6) converted_intact [OF assms(1,2) intactI] assms(7) i(1)] i assms(11,13) by simp
  moreover have "ad \<in> set (c_Devices alone)" using converted_default [OF assms(8,6) intactI assms(9) i(1)] i assms(11,13) by simp
  moreover have "\<forall>d \<in> set AllowedDevices. d_Uid d = 0" by code_simp
  moreover have "d_Path (st1 ! i) = d_Path ad" "d_Uid (st1 ! i) = uint32 uid" using st1 by simp_all
  ultimately show ?thesis using assms(10) by blast
qed

section \<open>Specifications without a Linux section\<close>

lemma res_fold_err: "res_fold f xs s = Inl e \<Longrightarrow> \<exists>x t. f x t = Inl e"
  by (induction xs arbitrary: s) (auto split: sum.splits)

lemma res_map_eq_Inl: "res_map f r = Inl e \<longleftrightarrow> r = Inl e"
  by (cases r) auto

lemma createDevices_no_panic: "createDevices (Some l) allowed \<noteq> Inl NilDeref"
proof
  assume "createDevices (Some l) allowed = Inl NilDeref"
  then obtain d ns where "spec_node d ns = Inl NilDeref" by (auto simp: createDevices_def Let_def res_map_eq_Inl dest!: res_fold_err)
  then show False by (simp add: spec_node_def res_map_eq_Inl stringToDeviceRune_def split: if_split_asm)
qed

lemma device_rules_no_panic: "device_rules ds \<noteq> Inl NilDeref"
proof
  assume "device_rules ds = Inl NilDeref"
  then obtain p rs where "device_rule p rs = Inl NilDeref" by (auto simp: device_rules_def dest!: res_fold_err)
  then show False
    by (cases p) (simp add: device_rule_def Let_def res_map_eq_Inl stringToCgroupDeviceRune_def split: if_split_asm)
qed

lemma systemd_no_panic: "initSystemdProps env ann \<noteq> Inl NilDeref"
proof
  assume "initSystemdProps env ann = Inl NilDeref"
  then obtain kv sp where "systemd_prop env kv sp = Inl NilDeref" by (auto simp: initSystemdProps_def dest!: res_fold_err)
  then show False by (cases kv) (simp add: systemd_prop_def Let_def split: if_split_asm sum.split_asm option.split_asm)
qed

lemma cgroup_names_no_panic: "cgroup_names sd name path c \<noteq> Inl NilDeref"
  by (cases "split_on CHR '':'' path" rule: remdups_adj.cases) (auto simp: cgroup_names_def split: list.split)

lemma cgroup_no_panic: "CreateCgroupConfig env sd name ann lin defaults \<noteq> Inl NilDeref"
  using systemd_no_panic [of env ann] cgroup_names_no_panic device_rules_no_panic
  by (auto simp: CreateCgroupConfig_def res_bind_eq_Inl res_map_eq_Inl spec_resources_of_def split: option.split_asm if_split_asm)

lemma add_namespaces_no_panic: "res_fold add_namespace nss acc \<noteq> Inl NilDeref"
  by (auto simp: add_namespace_def split: option.split_asm if_split_asm dest!: res_fold_err)

lemma linux_section_no_panic: "fst (linux_section l cf allowed) \<noteq> Inl NilDeref"
proof -
  have "rootfs_propagation l cf \<noteq> Inl NilDeref" by (simp add: rootfs_propagation_def split: option.split)
  moreover have "linux_namespaces l c \<noteq> Inl NilDeref" for c :: "'a lib_config"
    using add_namespaces_no_panic by (auto simp: linux_namespaces_def res_map_eq_Inl)
  moreover have "fst (setupUserNamespace l c allowed) \<noteq> Inl NilDeref" for c :: "'a lib_config"
    by (simp add: setupUserNamespace_def Let_def split: sum.split prod.split)
  moreover have "linux_rest l c \<noteq> Inl NilDeref" for c :: "'a lib_config"
    by (simp add: linux_rest_def Let_def split: sum.split)
  ultimately show ?thesis
    by (auto simp: linux_section_def res_bind_eq_Inl split: sum.split prod.split) (metis fst_conv)+
qed

text \<open>C40: When the conversion dereferences a nil pointer. With a root file system and a working directory the conversion panics
  exactly for the specifications without a Linux section, although it tests for that section everywhere else: the loop
  over the default devices reads the devices of the section first.\<close>

theorem conversion_panics_iff:
  assumes "conv_cwd env = Inr cwd" and "sp_Root (cv_Spec opts) \<noteq> None" and "defaults_intact allowed"
  shows "fst (CreateLibcontainerConfig env opts allowed) = Inl NilDeref \<longleftrightarrow> sp_Linux (cv_Spec opts) = None"
proof (cases "sp_Linux (cv_Spec opts)")
  case None
  have "\<exists>ad \<in> set allowed. d_Path ad \<noteq> []"
  proof
    have "length AllowedDevices = 11" "d_Path (AllowedDevices ! 2) \<noteq> []" by code_simp+
    then show "allowed ! 2 \<in> set allowed" "d_Path (allowed ! 2) \<noteq> []" using intact_nth(2) [OF assms(3), of 2] intact_length [OF assms(3)] by auto
  qed
  then show ?thesis using None assms(1,2) by (auto simp: CreateLibcontainerConfig_def base_config_def createDevices_def)
next
  case (Some l)
  have "base_config env opts allowed \<noteq> Inl NilDeref"
    using Some assms(1,2) createDevices_no_panic [of l allowed]
    by (auto simp: cgroup_no_panic base_config_def Let_def res_bind_eq_Inl res_map_eq_Inl split: prod.split_asm)
  moreover have "fst (linux_section l cf allowed) \<noteq> Inl NilDeref" for cf :: "'a lib_config" by (rule linux_section_no_panic)
  ultimately show ?thesis
    using Some by (auto simp: CreateLibcontainerConfig_def split: sum.split prod.split) (metis fst_conv)+
qed


section \<open>Concrete conversions\<close>

definition ex_env :: "unit conv_env" where
  "ex_env = \<lparr>ce_wd = Inr ''/bundle'', ce_ParseVariant = (\<lambda>s. Inr (V_other s)), ce_FloatUSec = (\<lambda>_. 0)\<rparr>"

definition ex_linux :: spec_linux where
  "ex_linux =
    \<lparr>sl_UIDMappings = [\<lparr>si_ContainerID = 0, si_HostID = 1000, si_Size = 10\<rparr>],
     sl_GIDMappings = [\<lparr>si_ContainerID = 0, si_HostID = 2000, si_Size = 10\<rparr>], sl_Sysctl = [],
     sl_Resources = Some \<lparr>sr_Devices = [\<lparr>dc_Allow = False, dc_Type = [], dc_Major = None, dc_Minor = None, dc_Access = ''rwm''\<rparr>],
       sr_Memory = None, sr_CPU = None, sr_Pids = None, sr_BlockIO = None, sr_HugepageLimits = [], sr_Network = None, sr_Unified = []\<rparr>,
     sl_CgroupsPath = ''/a/../b'', sl_Namespaces = [\<lparr>sp_NsType = ''user'', sp_NsPath = []\<rparr>, \<lparr>sp_NsType = ''network'', sp_NsPath = []\<rparr>],
     sl_Devices = [], sl_Seccomp = None, sl_RootfsPropagation = [], sl_MaskedPaths = [], sl_ReadonlyPaths = [], sl_MountLabel = [],
     sl_IntelRdt = None\<rparr>"

definition ex_conv_opts :: "spec_linux option \<Rightarrow> conv_opts" where
  "ex_conv_opts lin =
    \<lparr>cv_CgroupName = ''box'', cv_UseSystemdCgroup = False, cv_NoPivotRoot = False, cv_NoNewKeyring = False,
     cv_Spec = \<lparr>sp_Process = None, sp_Root = Some \<lparr>ro_Path = ''rootfs'', ro_Readonly = False\<rparr>, sp_Hostname = [], sp_Mounts = [],
       sp_Hooks = None, sp_Annotations = [], sp_Linux = lin\<rparr>,
     cv_RootlessEUID = False, cv_RootlessCgroups = False\<rparr>"

definition ex_host_linux :: spec_linux where
  "ex_host_linux = ex_linux\<lparr>sl_Namespaces := [\<lparr>sp_NsType = ''pid'', sp_NsPath = []\<rparr>]\<rparr>"

text \<open>The configuration and the default devices after a run\<close>

definition ex_conv :: "conv_opts \<Rightarrow> device list \<Rightarrow> unit lib_config" where
  "ex_conv opts allowed = (case fst (CreateLibcontainerConfig ex_env opts allowed) of Inr cf \<Rightarrow> cf | Inl _ \<Rightarrow> new_config opts [] \<lparr>ro_Path = [], ro_Readonly = False\<rparr> []
    \<lparr>cg_Name = [], cg_Parent = [], cg_Path = [], cg_ScopePrefix = [], cg_Paths = None, cg_Resources = empty_resources\<rparr> [])"

definition ex_store :: "conv_opts \<Rightarrow> device list \<Rightarrow> device list" where
  "ex_store opts allowed = snd (CreateLibcontainerConfig ex_env opts allowed)"

lemma ex_run:
  assumes "is_ok (fst (CreateLibcontainerConfig ex_env opts allowed))"
  shows "CreateLibcontainerConfig ex_env opts allowed = (Inr (ex_conv opts allowed), ex_store opts allowed)"
  using assms by (cases "CreateLibcontainerConfig ex_env opts allowed") (auto simp: ex_conv_def ex_store_def is_ok_def split: sum.splits)

lemma ex_runs_ok:
  "is_ok (fst (CreateLibcontainerConfig ex_env (ex_conv_opts (Some ex_linux)) AllowedDevices))"
  "is_ok (fst (CreateLibcontainerConfig ex_env (ex_conv_opts (Some ex_host_linux)) AllowedDevices))"
  "is_ok (fst (CreateLibcontainerConfig ex_env (ex_conv_opts (Some ex_host_linux)) (ex_store (ex_conv_opts (Some ex_linux)) AllowedDevices)))"
  by code_simp+


text \<open>A mknod of a device that the rules of the specification refuse\<close>

definition ex_mknod :: dev_request where
  "ex_mknod = \<lparr>q_access_type = 0x10001, q_major = 8, q_minor = 0\<rparr>"

theorem converted_device_policy_witness:
  "\<exists>prog. DeviceFilter (r_Devices (cg_Resources (c_Cgroups (ex_conv (ex_conv_opts (Some ex_linux)) AllowedDevices)))) = Inr (prog, ''Apache'') \<and>
    run_filter prog 4096 ex_mknod = Some 1"
proof -
  let ?rules = "[\<lparr>r_type = WildcardDevice, r_major = -1, r_minor = -1, r_perms = ''rwm'', r_allow = False\<rparr>]"
  have lin: "sp_Linux (cv_Spec (ex_conv_opts (Some ex_linux))) = Some ex_linux" by (simp add: ex_conv_opts_def)
  have rules: "user_rules ex_linux = Inr ?rules" "\<forall>r \<in> set ?rules. set (r_perms r) \<subseteq> rwm \<and> small_numbers r" by code_simp+
  have "request_ok ex_mknod" "\<exists>ad \<in> set AllowedDevices. \<not> shadowed (sl_Devices ex_linux) ad \<and> rule_matches ex_mknod (rule.truncate ad)"
    by code_simp+
  then show ?thesis
    using converted_device_policy [OF ex_run [OF ex_runs_ok(1)] intactI lin rules] by auto
qed


theorem conversion_changes_next_witness:
  "(\<exists>d \<in> set (c_Devices (ex_conv (ex_conv_opts (Some ex_host_linux)) (ex_store (ex_conv_opts (Some ex_linux)) AllowedDevices))). d_Path d = ''/dev/null'' \<and> d_Uid d = 1000) \<and>
    (\<exists>d \<in> set (c_Devices (ex_conv (ex_conv_opts (Some ex_host_linux)) AllowedDevices)). d_Path d = ''/dev/null'' \<and> d_Uid d = 0)"
proof -
  let ?cf = "ex_conv (ex_conv_opts (Some ex_linux)) AllowedDevices" and ?ad = "default_device ''/dev/null'' 1 3"
  have lin: "sp_Linux (cv_Spec (ex_conv_opts (Some x))) = Some x" for x by (simp add: ex_conv_opts_def)
  have user: "ns_Contains (c_Namespaces ?cf) NEWUSER" "HostRootUID (config.truncate ?cf) = Inr 1000" "uint32 1000 = 1000" by code_simp+
  have host: "\<not> ns_Contains (c_Namespaces (ex_conv (ex_conv_opts (Some ex_host_linux)) (ex_store (ex_conv_opts (Some ex_linux)) AllowedDevices))) NEWUSER"
    "\<not> ns_Contains (c_Namespaces (ex_conv (ex_conv_opts (Some ex_host_linux)) AllowedDevices)) NEWUSER" by code_simp+
  have ad: "?ad \<in> set AllowedDevices" "d_Path ?ad \<noteq> []" "\<not> shadowed (sl_Devices ex_linux) ?ad" "\<not> shadowed (sl_Devices ex_host_linux) ?ad"
    "d_Path ?ad = ''/dev/null''" by code_simp+
  show ?thesis
    using conversion_changes_next [OF ex_run [OF ex_runs_ok(1)] lin user(1,2) ex_run [OF ex_runs_ok(3)] lin host(1)
        ex_run [OF ex_runs_ok(2)] host(2) ad(1-4)]
    unfolding user(3) ad(5) .
qed

theorem conversion_panics_iff_witness: "fst (CreateLibcontainerConfig ex_env (ex_conv_opts None) AllowedDevices) = Inl NilDeref"
proof -
  have "conv_cwd ex_env = Inr ''/bundle''" "sp_Root (cv_Spec (ex_conv_opts None)) \<noteq> None" "sp_Linux (cv_Spec (ex_conv_opts None)) = None"
    by code_simp+
  then show ?thesis using conversion_panics_iff [OF _ _ intactI] by blast
qed

end
