(* ===== verification/Spec2Isabelle.thy ===== *)
theory Spec2Isabelle
  imports Device_Emulator Device_Filter Config_Validate Container_State Cgroup_V2 Cgroup_V2_Create Factory Criu_Migration
    Gc_Mark Shim_Runs Id_Manager Spec_Config
begin

text \<open>
  SwiftBaton migrates running containers between hosts. Its Go side is a patched stack of runc, containerd and
  docker-ce under \<^verbatim>\<open>src/dependencies\<close>; the memory transfer itself is C code in CRIU and the Linux kernel. This
  development models the Go code a migration passes through and the components that code relies on.

  \<^bold>\<open>How the parts interact.\<close> A checkpoint request enters containerd's runc shim, whose process objects call runc.
  The configuration of a container comes from its OCI specification.
  The checkpoint and restore commands of runc load the container with the factory and run \<^verbatim>\<open>Checkpoint\<close> and
  \<^verbatim>\<open>Restore\<close> of libcontainer, which build a request and lead a conversation with CRIU. A restore goes through the life
  cycle of the container, the validated configuration, the cgroup manager (with its device filter) and the namespaces.
  Around them stand containerd's garbage collector, which keeps the images alive, and libnetwork's id allocation.

  \<^bold>\<open>Theories, sources and what they show\<close> (paths below \<^verbatim>\<open>src/dependencies\<close>).

  \<^item> \<^verbatim>\<open>Go_Prelude\<close>, \<^verbatim>\<open>Go_Strings\<close>, \<^verbatim>\<open>Go_Paths\<close>: Go's results, maps, string and number functions and \<^verbatim>\<open>path/filepath\<close>,
    as far as the code uses them, and the helpers of \<^verbatim>\<open>runc/libcontainer/utils\<close>. A cleaned path never leaves its root.
  \<^item> \<^verbatim>\<open>Criu_Request\<close>, \<^verbatim>\<open>Criu_Session\<close>, \<^verbatim>\<open>Criu_Migration\<close>: \<^verbatim>\<open>libcontainer/criu_opts_linux.go\<close>, the part of
    \<^verbatim>\<open>container_linux.go\<close> from \<^verbatim>\<open>Checkpoint\<close> to \<^verbatim>\<open>criuNotifications\<close>, \<^verbatim>\<open>restored_process.go\<close>, \<^verbatim>\<open>runc/checkpoint.go\<close> and
    \<^verbatim>\<open>runc/restore.go\<close>. The container object survives a checkpoint; a restore either produces a container whose init
    process is the restored one or fails; the mounts a dump declared external are the ones a restore supplies; the
    loop of the conversation returns whenever CRIU ends; the command destroys a container only when it should.
  \<^item> \<^verbatim>\<open>Container_State\<close>, \<^verbatim>\<open>Factory\<close>: \<^verbatim>\<open>state_linux.go\<close>, the other operations of \<^verbatim>\<open>container_linux.go\<close> and
    \<^verbatim>\<open>factory_linux.go\<close>. Destruction is final and complete, a running container is not destroyed, the status is what
    the host shows, a saved container is loaded as it was.
  \<^item> \<^verbatim>\<open>Config\<close>, \<^verbatim>\<open>Config_Validate\<close>: \<^verbatim>\<open>libcontainer/configs\<close> and its validator. The accepted configurations are
    characterised exactly; the namespace list refines a map; id mappings are injective on mapped ids.
  \<^item> \<^verbatim>\<open>Spec_Mount\<close>, \<^verbatim>\<open>Spec_Seccomp\<close>, \<^verbatim>\<open>Spec_Cgroup\<close>, \<^verbatim>\<open>Spec_Convert\<close>, \<^verbatim>\<open>Spec_Config\<close>: \<^verbatim>\<open>libcontainer/specconv\<close> and the name
    tables of \<^verbatim>\<open>libcontainer/seccomp\<close>. The conversion of an OCI specification into a configuration: what mount options
    and seccomp sections become, that a converted configuration is well-formed for the validator and the cgroup manager,
    and which devices its compiled filter allows. The default devices are objects shared by all conversions and are
    threaded as a store; one conversion changes the next, and a specification without a Linux section panics.
  \<^item> \<^verbatim>\<open>Device_Rules\<close>, \<^verbatim>\<open>Device_Emulator\<close>, \<^verbatim>\<open>Device_Filter\<close>: \<^verbatim>\<open>libcontainer/devices\<close>, \<^verbatim>\<open>cgroups/devices\<close> and
    \<^verbatim>\<open>cgroups/ebpf/devicefilter\<close>. A transition of the emulator reaches its target; the compiled filter decides like the
    rules for device numbers below $2^{31}$, and not above.
  \<^item> \<^verbatim>\<open>Cgroup_V2\<close>, \<^verbatim>\<open>Cgroup_V2_Create\<close>: \<^verbatim>\<open>cgroups/fs2\<close>, \<^verbatim>\<open>cgroups/fscommon\<close> and parts of \<^verbatim>\<open>cgroups/utils.go\<close>. Freezing
    is visible and undone by thawing, limits are read back as written, converted weights are in range, the cgroup's
    directory stays below the mount point.
  \<^item> \<^verbatim>\<open>Shim_Process\<close>: \<^verbatim>\<open>containerd/cmd/containerd-shim-runc-v2/process\<close>. No request panics a task and no exit of a
    task is recorded twice; a task started from a checkpoint is running or still created.
  \<^item> \<^verbatim>\<open>Shim_Container\<close>, \<^verbatim>\<open>Shim_Service\<close>, \<^verbatim>\<open>Shim_Exits\<close>, \<^verbatim>\<open>Shim_Runs\<close>: \<^verbatim>\<open>runc/container.go\<close> and \<^verbatim>\<open>task/service.go\<close> of
    the same directory, with \<^verbatim>\<open>Init.Create\<close>. The service is a step relation: requests are threads over a heap of
    container objects, the exits of processes arrive at any time, and a create request holds the service's lock over
    several steps. The exit of a started process is never lost, however early it comes; the lock is always released and a
    pending exit can always be handled. Two runs go wrong: a refused start makes the exit of a running process be
    published twice, and starting a restored container can dereference a nil cgroup manager and end the shim. The
    statement on exits is per pid and start: a pid that the kernel gives to another process counts as the same one, as
    it does for the code.
  \<^item> \<^verbatim>\<open>Gc_Mark\<close>: \<^verbatim>\<open>containerd/gc\<close>. Both markings yield exactly the reachable nodes.
  \<^item> \<^verbatim>\<open>Bit_Sequence\<close>, \<^verbatim>\<open>Bit_Handle\<close>, \<^verbatim>\<open>Id_Manager\<close>: \<^verbatim>\<open>docker-ce/components/engine/libnetwork/bitseq\<close> and \<^verbatim>\<open>idm\<close>. The
    run-length encoded mask refines a set of ordinals, an allocation over a shared store is atomic, ids are unique.

  \<^bold>\<open>How code is modelled.\<close> Go structs are records, interfaces with several implementations are datatypes with one
  constructor per implementation, and methods are functions on them. Errors are values of the component's own error
  type; a Go panic is a value too. The operating system, CRIU, the runtime a shim calls, a data store and JSON are
  records of functions over a world type that the operations thread through (\<^verbatim>\<open>sys\<close>, \<^verbatim>\<open>criu_sys\<close>, \<^verbatim>\<open>factory_sys\<close>,
  \<^verbatim>\<open>cgfs\<close>, \<^verbatim>\<open>cgdirs\<close>, \<^verbatim>\<open>host\<close>, \<^verbatim>\<open>rt\<close>, \<^verbatim>\<open>rtc\<close>, \<^verbatim>\<open>datastore\<close>, \<^verbatim>\<open>conv_env\<close>): theorems hold for all of them or for those that meet a named
  hypothesis. Integers are words where the code depends on their width (device numbers, eBPF registers, blocks and
  ordinals of bit sequences), and unbounded where it only compares them. The concurrent parts (marking, the task service of the shim) are
  step relations. Two representations differ from the code's and are sound because nothing observes the difference:
  the cgroup v2 manager has its own copy of the cgroup configuration where the code shares a pointer, and the linked
  list of a bit sequence is a list, since every handle works on a private copy.

  \<^bold>\<open>Loops and fuel.\<close> The conversation with CRIU, the retry loop of an allocation and the consistency check may run
  forever and are partial functions into an option; that they return is proved under a hypothesis on the partner
  (CRIU ends, the store stops changing). Removing a cgroup directory recurses over the directory tree, and waiting for
  a process to die polls: both carry fuel that stands for the bounded retries of the code. All other loops are total.

  \<^bold>\<open>Interfaces.\<close> Each locale states what a client relies on and is interpreted on the definitions of the component
  that provides it, so the properties rest on the code's model.

  \<^bold>\<open>Not modelled.\<close> CRIU, its kernel counterpart and the kernel (C code); the benchmark and the experiment scripts;
  vendored and generated Go code; starting a container's first process and everything the child does before it
  executes the user's program (\<^verbatim>\<open>process_linux.go\<close>, \<^verbatim>\<open>rootfs_linux.go\<close>, \<^verbatim>\<open>nsenter\<close>: system calls in sequence, with little
  logic of their own); cgroup v1 file writing, statistics and the systemd manager; the docker engine, its command line
  and the services of containerd other than those named. The manifest lists them.
\<close>

end
